(* ===== verification/Prelude.thy ===== *)
theory Prelude
  imports Main "HOL-Library.Word" "HOL-Library.List_Lexorder" "HOL-Library.Char_ord"
begin

unbundle bit_operations_syntax

section \<open>Shared vocabulary: Go values, results, strings, entropy\<close>

text \<open>
  What every component of the plugin uses: Go byte slices and strings, the result of a Go call
  that may return an error or panic, the helpers of the packages \<open>strings\<close>, \<open>encoding/hex\<close> and
  \<open>crypto/rand\<close> that the plugin calls, and contracts (locales) for keyed stores.

  A Go \<open>string\<close> is a sequence of bytes, so it is Isabelle's \<open>string\<close> (a list of 8-bit
  characters); a \<open>[]byte\<close> is a list of 8-bit words.
\<close>

subsection \<open>Bytes, strings, results\<close>

type_synonym byte = "8 word"
type_synonym bytes = "8 word list"

definition to_bytes :: "string \<Rightarrow> bytes" where
  "to_bytes s = map (\<lambda>c. of_nat (of_char c)) s"

definition of_bytes :: "bytes \<Rightarrow> string" where
  "of_bytes bs = map (\<lambda>b. char_of (unat b)) bs"

text \<open>
  The result of a Go call: a value, a returned \<open>error\<close> (its message), or a run-time panic.
\<close>

datatype 'a go_result = Ok 'a | Err string | Panic string

fun go_bind :: "'a go_result \<Rightarrow> ('a \<Rightarrow> 'b go_result) \<Rightarrow> 'b go_result" where
  "go_bind (Ok x) f = f x"
| "go_bind (Err e) f = Err e"
| "go_bind (Panic p) f = Panic p"

text \<open>\<open>fmt.Errorf("prefix: %w", err)\<close>: the error text with a prefix.\<close>

fun wrap_err :: "string \<Rightarrow> 'a go_result \<Rightarrow> 'a go_result" where
  "wrap_err p (Ok x) = Ok x"
| "wrap_err p (Err e) = Err (p @ '': '' @ e)"
| "wrap_err p (Panic q) = Panic q"

fun is_ok :: "'a go_result \<Rightarrow> bool" where
  "is_ok (Ok x) = True"
| "is_ok (Err e) = False"
| "is_ok (Panic p) = False"

fun is_panic :: "'a go_result \<Rightarrow> bool" where
  "is_panic (Ok x) = False"
| "is_panic (Err e) = False"
| "is_panic (Panic p) = True"

text \<open>The first error of a list of calls, in order; otherwise all their values.\<close>

fun go_mapM :: "('a \<Rightarrow> 'b go_result) \<Rightarrow> 'a list \<Rightarrow> 'b list go_result" where
  "go_mapM f [] = Ok []"
| "go_mapM f (x # xs) = go_bind (f x) (\<lambda>y. go_bind (go_mapM f xs) (\<lambda>ys. Ok (y # ys)))"

subsection \<open>Package strings and encoding/hex\<close>

fun is_prefix :: "string \<Rightarrow> string \<Rightarrow> bool" where
  "is_prefix [] s = True"
| "is_prefix (p # ps) [] = False"
| "is_prefix (p # ps) (c # cs) = (p = c \<and> is_prefix ps cs)"

definition has_suffix :: "string \<Rightarrow> string \<Rightarrow> bool" where
  "has_suffix s suf = is_prefix (rev suf) (rev s)"

definition trim_suffix :: "string \<Rightarrow> string \<Rightarrow> string" where
  "trim_suffix s suf = (if has_suffix s suf then take (length s - length suf) s else s)"

fun contains :: "string \<Rightarrow> string \<Rightarrow> bool" where
  "contains [] sub = (sub = [])"
| "contains (c # cs) sub = (is_prefix sub (c # cs) \<or> contains cs sub)"

definition hex_digit :: "nat \<Rightarrow> char" where
  "hex_digit n = ''0123456789abcdef'' ! n"

definition hex_byte :: "byte \<Rightarrow> string" where
  "hex_byte b = [hex_digit (unat b div 16), hex_digit (unat b mod 16)]"

definition hex_encode :: "bytes \<Rightarrow> string" where
  "hex_encode bs = concat (map hex_byte bs)"

text \<open>\<open>strconv.Itoa\<close>: the decimal rendering of a natural number.\<close>

fun nat_str :: "nat \<Rightarrow> string" where
  "nat_str n = (if n < 10 then [char_of (48 + n)] else nat_str (n div 10) @ [char_of (48 + n mod 10)])"

declare nat_str.simps [simp del]

subsection \<open>Package crypto/rand\<close>

text \<open>
  The source of randomness: the outcome of each successive \<open>rand.Read\<close>, \<open>None\<close> when it
  fails and otherwise the bytes it would write. A read returns its outcome and what is left.
\<close>

type_synonym entropy = "nat \<Rightarrow> (nat \<Rightarrow> byte) option"

definition rand_read :: "nat \<Rightarrow> entropy \<Rightarrow> bytes go_result \<times> entropy" where
  "rand_read n e =
     ((case e 0 of None \<Rightarrow> Err ''rand: read failed'' | Some src \<Rightarrow> Ok (map src [0..<n])),
      (\<lambda>k. e (Suc k)))"

subsection \<open>Package time\<close>

text \<open>
  A \<open>time.Time\<close> is the number of nanoseconds since Go's zero time, January 1 of the year 1, so
  \<open>IsZero\<close> is equality with 0; a \<open>time.Duration\<close> is a number of nanoseconds.
\<close>

type_synonym time = int

definition second :: time where
  "second = 1000000000"

subsection \<open>Collections of facts\<close>

named_theorems go_simps \<open>simplification of results and of store operations\<close>
named_theorems decode_simps \<open>decoding what was encoded\<close>
named_theorems inv_intros \<open>preservation of the components' invariants\<close>

subsection \<open>Bytes and strings\<close>

lemma length_to_bytes [simp]: "length (to_bytes s) = length s"
  by (simp add: to_bytes_def)

lemma length_of_bytes [simp]: "length (of_bytes bs) = length bs"
  by (simp add: of_bytes_def)

lemma to_bytes_append [simp]: "to_bytes (s @ t) = to_bytes s @ to_bytes t"
  by (simp add: to_bytes_def)

lemma of_bytes_append [simp]: "of_bytes (s @ t) = of_bytes s @ of_bytes t"
  by (simp add: of_bytes_def)

lemma to_bytes_Nil_iff [simp]: "to_bytes s = [] \<longleftrightarrow> s = []"
  by (simp add: to_bytes_def)

lemma of_bytes_to_bytes [simp]: "of_bytes (to_bytes s) = s"
  by (simp add: of_bytes_def to_bytes_def comp_def unat_of_nat map_idI)

lemma byte_bound [simp]: "unat (b :: byte) < 256"
  using unsigned_less [of b] by simp

lemma to_bytes_of_bytes [simp]: "to_bytes (of_bytes bs) = bs"
  by (auto simp: of_bytes_def to_bytes_def comp_def byte_bound intro!: map_idI)

lemma to_bytes_inject [simp]: "to_bytes s = to_bytes t \<longleftrightarrow> s = t"
  by (metis of_bytes_to_bytes)

subsection \<open>Results\<close>

lemma go_bind_Ok_iff [go_simps]: "go_bind m f = Ok y \<longleftrightarrow> (\<exists>x. m = Ok x \<and> f x = Ok y)"
  by (cases m) auto

lemma go_bind_Ok_right [simp]: "go_bind m Ok = m"
  by (cases m) auto

lemma go_bind_assoc: "go_bind (go_bind m f) g = go_bind m (\<lambda>x. go_bind (f x) g)"
  by (cases m) auto

lemma wrap_err_Ok_iff [go_simps, simp]: "wrap_err p m = Ok y \<longleftrightarrow> m = Ok y"
  by (cases m) auto

lemma is_ok_iff: "is_ok m \<longleftrightarrow> (\<exists>x. m = Ok x)"
  by (cases m) auto

lemma is_panic_wrap_err [simp]: "is_panic (wrap_err p m) = is_panic m"
  by (cases m) auto

lemma is_panic_go_bind: "is_panic (go_bind m f) \<longleftrightarrow> is_panic m \<or> (\<exists>x. m = Ok x \<and> is_panic (f x))"
  by (cases m) auto

lemma go_mapM_length: "go_mapM f xs = Ok ys \<Longrightarrow> length ys = length xs"
  by (induction xs arbitrary: ys) (auto simp: go_simps)

lemma go_mapM_Ok: "(\<And>x. x \<in> set xs \<Longrightarrow> f x = Ok (g x)) \<Longrightarrow> go_mapM f xs = Ok (map g xs)"
  by (induction xs) auto

lemma go_mapM_no_panic: "(\<And>x. x \<in> set xs \<Longrightarrow> \<not> is_panic (f x)) \<Longrightarrow> \<not> is_panic (go_mapM f xs)"
  by (induction xs) (auto simp: is_panic_go_bind)

subsection \<open>Prefixes and suffixes\<close>

lemma is_prefix_iff: "is_prefix p s \<longleftrightarrow> (\<exists>t. s = p @ t)"
  by (induction p s rule: is_prefix.induct) auto

lemma has_suffix_iff: "has_suffix s suf \<longleftrightarrow> (\<exists>p. s = p @ suf)"
proof
  assume "has_suffix s suf"
  then obtain t where "rev s = rev suf @ t"
    by (auto simp: has_suffix_def is_prefix_iff)
  then have "s = rev t @ suf"
    by (metis rev_append rev_rev_ident)
  then show "\<exists>p. s = p @ suf" ..
next
  assume "\<exists>p. s = p @ suf"
  then show "has_suffix s suf"
    by (auto simp: has_suffix_def is_prefix_iff)
qed

lemma has_suffix_append [simp]: "has_suffix (p @ suf) suf"
  by (auto simp: has_suffix_iff)

lemma trim_suffix_append [simp]: "trim_suffix (p @ suf) suf = p"
  by (simp add: trim_suffix_def)

lemma contains_iff: "contains s sub \<longleftrightarrow> (\<exists>a b. s = a @ sub @ b)"
proof (induction s)
  case Nil
  then show ?case by simp
next
  case (Cons c cs)
  show ?case
  proof
    assume "contains (c # cs) sub"
    then consider "is_prefix sub (c # cs)" | "contains cs sub" by auto
    then show "\<exists>a b. c # cs = a @ sub @ b"
    proof cases
      case 1
      then show ?thesis by (metis append_Nil is_prefix_iff)
    next
      case 2
      with Cons.IH obtain a b where "cs = a @ sub @ b" by blast
      then have "c # cs = (c # a) @ sub @ b" by simp
      then show ?thesis by blast
    qed
  next
    assume "\<exists>a b. c # cs = a @ sub @ b"
    then obtain a b where ab: "c # cs = a @ sub @ b" by blast
    show "contains (c # cs) sub"
    proof (cases a)
      case Nil
      with ab have "is_prefix sub (c # cs)" by (auto simp: is_prefix_iff)
      then show ?thesis by simp
    next
      case (Cons d ds)
      with ab have "cs = ds @ sub @ b" by simp
      then have "contains cs sub" using Cons.IH by blast
      then show ?thesis by simp
    qed
  qed
qed

subsection \<open>Hexadecimal\<close>

lemma length_hex_encode [simp]: "length (hex_encode bs) = 2 * length bs"
  by (induction bs) (auto simp: hex_encode_def hex_byte_def)

lemma hex_encode_Nil [simp]: "hex_encode [] = []"
  by (simp add: hex_encode_def)

lemma hex_encode_Cons: "hex_encode (b # bs) = hex_byte b @ hex_encode bs"
  by (simp add: hex_encode_def)

lemma hex_digit_inject: "m < 16 \<Longrightarrow> n < 16 \<Longrightarrow> hex_digit m = hex_digit n \<longleftrightarrow> m = n"
  by (simp add: hex_digit_def nth_eq_iff_index_eq)

lemma hex_byte_inject [simp]: "hex_byte a = hex_byte b \<longleftrightarrow> a = b"
proof
  assume eq: "hex_byte a = hex_byte b"
  have "unat a div 16 < 16" and "unat b div 16 < 16"
    using byte_bound [of a] byte_bound [of b] by linarith+
  with eq have "unat a div 16 = unat b div 16" and "unat a mod 16 = unat b mod 16"
    by (simp_all add: hex_byte_def hex_digit_inject)
  then have "unat a = unat b" by (metis div_mult_mod_eq)
  then show "a = b" by (simp add: word_unat_eq_iff)
qed simp

lemma hex_encode_inject [simp]: "hex_encode a = hex_encode b \<longleftrightarrow> a = b"
proof (induction a arbitrary: b)
  case Nil
  then show ?case by (cases b) (auto simp: hex_encode_Cons hex_byte_def)
next
  case (Cons x xs)
  show ?case
  proof (cases b)
    case Nil
    then show ?thesis by (auto simp: hex_encode_Cons hex_byte_def)
  next
    case (Cons y ys)
    have "length (hex_byte x) = length (hex_byte y)" by (simp add: hex_byte_def)
    then show ?thesis using Cons Cons.IH by (simp add: hex_encode_Cons)
  qed
qed

definition is_hex_char :: "char \<Rightarrow> bool" where
  "is_hex_char c = (c \<in> set ''0123456789abcdef'')"

lemma hex_digit_is_hex: "n < 16 \<Longrightarrow> is_hex_char (hex_digit n)"
  unfolding is_hex_char_def hex_digit_def by (rule nth_mem) simp

lemma hex_encode_is_hex: "c \<in> set (hex_encode bs) \<Longrightarrow> is_hex_char c"
proof (induction bs)
  case (Cons b bs)
  have "unat b div 16 < 16" using byte_bound [of b] by linarith
  with Cons show ?case
    by (auto simp: hex_encode_Cons hex_byte_def intro: hex_digit_is_hex)
qed simp

subsection \<open>Entropy\<close>

lemma rand_read_length: "rand_read n e = (Ok bs, e') \<Longrightarrow> length bs = n"
  by (auto simp: rand_read_def split: option.splits)

lemma rand_read_no_panic: "rand_read n e = (r, e') \<Longrightarrow> \<not> is_panic r"
  by (auto simp: rand_read_def split: option.splits)

subsection \<open>A contract for keyed stores\<close>

text \<open>
  Several components keep a Go map behind a mutex and expose a write and a read. What their
  clients rely on is the same: a read returns the last write under that key, and a write touches
  no other key. \<open>valid\<close> is the store's invariant.
\<close>

locale keyed_store =
  fixes put :: "'k \<Rightarrow> 'v \<Rightarrow> 's \<Rightarrow> 's"
    and get :: "'s \<Rightarrow> 'k \<Rightarrow> 'v option"
    and valid :: "'s \<Rightarrow> bool"
  assumes get_put_same: "valid s \<Longrightarrow> get (put k v s) k = Some v"
    and get_put_other: "valid s \<Longrightarrow> k' \<noteq> k \<Longrightarrow> get (put k v s) k' = get s k'"
    and valid_put: "valid s \<Longrightarrow> valid (put k v s)"
begin

text \<open>A sequence of writes, in order.\<close>

fun put_all :: "('k \<times> 'v) list \<Rightarrow> 's \<Rightarrow> 's" where
  "put_all [] s = s"
| "put_all ((k, v) # kvs) s = put_all kvs (put k v s)"

lemma valid_put_all: "valid s \<Longrightarrow> valid (put_all kvs s)"
  by (induction kvs s rule: put_all.induct) (auto simp: valid_put)

lemma get_put_all_other: "valid s \<Longrightarrow> k \<notin> fst ` set kvs \<Longrightarrow> get (put_all kvs s) k = get s k"
  by (induction kvs s rule: put_all.induct) (auto simp: valid_put get_put_other)

lemma get_put_all:
  "valid s \<Longrightarrow> get (put_all kvs s) k =
     (case map_of (rev kvs) k of Some v \<Rightarrow> Some v | None \<Rightarrow> get s k)"
proof (induction kvs s rule: put_all.induct)
  case (1 s)
  then show ?case by simp
next
  case (2 k' v kvs s)
  then show ?case
    by (cases "k = k'")
       (auto simp: valid_put get_put_same get_put_other map_add_def split: option.splits)
qed

end

text \<open>A keyed store whose entries can also be removed.\<close>

locale removable_store = keyed_store put get valid
  for put :: "'k \<Rightarrow> 'v \<Rightarrow> 's \<Rightarrow> 's" and get :: "'s \<Rightarrow> 'k \<Rightarrow> 'v option" and valid :: "'s \<Rightarrow> bool" +
  fixes del :: "'k \<Rightarrow> 's \<Rightarrow> 's"
  assumes get_del_same: "valid s \<Longrightarrow> get (del k s) k = None"
    and get_del_other: "valid s \<Longrightarrow> k' \<noteq> k \<Longrightarrow> get (del k s) k' = get s k'"
    and valid_del: "valid s \<Longrightarrow> valid (del k s)"
begin

lemma del_undoes_put:
  "valid s \<Longrightarrow> get s k = None \<Longrightarrow> get (del k (put k v s)) k' = get s k'"
  by (cases "k' = k") (auto simp: get_del_same get_del_other get_put_other valid_put)

end

text \<open>A machine that takes any of its steps, with an invariant.\<close>

locale machine =
  fixes start :: 's
    and step :: "'s \<Rightarrow> 's \<Rightarrow> bool"
    and inv :: "'s \<Rightarrow> bool"
  assumes inv_start: "inv start"
    and inv_step: "step s t \<Longrightarrow> inv s \<Longrightarrow> inv t"
begin

lemma reachable_inv: "step\<^sup>*\<^sup>* start s \<Longrightarrow> inv s"
  by (induction rule: rtranclp_induct) (auto intro: inv_start inv_step)

end

text \<open>Steps that use something up: they come to rest.\<close>

locale draining =
  fixes step :: "'s \<Rightarrow> 's \<Rightarrow> bool"
    and left :: "'s \<Rightarrow> nat"
  assumes step_uses: "step s t \<Longrightarrow> left t < left s"
begin

lemma steps_bounded: "(step ^^ k) s t \<Longrightarrow> k + left t \<le> left s"
proof (induction k arbitrary: t)
  case (Suc k)
  then obtain u where "(step ^^ k) s u" "step u t" by auto
  with Suc.IH [of u] step_uses show ?case by fastforce
qed simp

lemma comes_to_rest: "\<exists>t. step\<^sup>*\<^sup>* s t \<and> (\<nexists>u. step t u)"
proof (induction s rule: measure_induct_rule [of left])
  case (less s)
  then show ?case using step_uses by (meson converse_rtranclp_into_rtranclp rtranclp.rtrancl_refl)
qed

end

end
