(* ===== verification/Go_Sha256.thy ===== *)
theory Go_Sha256
  imports Prelude
begin

section \<open>Package crypto/sha256\<close>

text \<open>
  The plugin names blobs and conversations by SHA-256 digests (\<open>internal/executor/blobstore.go\<close>,
  \<open>internal/executor/conversation.go\<close>) and derives PKCE challenges from them
  (\<open>internal/auth/login.go\<close>). \<open>sha256\<close> is the function of FIPS 180-4 that
  \<open>crypto/sha256.Sum256\<close> computes, on 32-bit words with wrap-around addition. The components'
  theorems use that a digest has 32 bytes; none assumes that digests never collide.
\<close>

subsection \<open>Constants and word functions\<close>

type_synonym word32 = "32 word"

text \<open>The first 32 bits of the fractional parts of the cube roots of the first 64 primes.\<close>

definition sha_k :: "word32 list" where
  "sha_k =
    [1116352408, 1899447441, 3049323471, 3921009573, 961987163, 1508970993, 2453635748, 2870763221,
     3624381080, 310598401, 607225278, 1426881987, 1925078388, 2162078206, 2614888103, 3248222580,
     3835390401, 4022224774, 264347078, 604807628, 770255983, 1249150122, 1555081692, 1996064986,
     2554220882, 2821834349, 2952996808, 3210313671, 3336571891, 3584528711, 113926993, 338241895,
     666307205, 773529912, 1294757372, 1396182291, 1695183700, 1986661051, 2177026350, 2456956037,
     2730485921, 2820302411, 3259730800, 3345764771, 3516065817, 3600352804, 4094571909, 275423344,
     430227734, 506948616, 659060556, 883997877, 958139571, 1322822218, 1537002063, 1747873779,
     1955562222, 2024104815, 2227730452, 2361852424, 2428436474, 2756734187, 3204031479, 3329325298]"

type_synonym sha_state = "word32 \<times> word32 \<times> word32 \<times> word32 \<times> word32 \<times> word32 \<times> word32 \<times> word32"

definition sha_init :: sha_state where
  "sha_init = (1779033703, 3144134277, 1013904242, 2773480762, 1359893119, 2600822924, 528734635, 1541459225)"

definition sha_ch :: "word32 \<Rightarrow> word32 \<Rightarrow> word32 \<Rightarrow> word32" where
  "sha_ch x y z = (x AND y) XOR (NOT x AND z)"

definition sha_maj :: "word32 \<Rightarrow> word32 \<Rightarrow> word32 \<Rightarrow> word32" where
  "sha_maj x y z = (x AND y) XOR (x AND z) XOR (y AND z)"

definition big_sigma0 :: "word32 \<Rightarrow> word32" where
  "big_sigma0 x = word_rotr 2 x XOR word_rotr 13 x XOR word_rotr 22 x"

definition big_sigma1 :: "word32 \<Rightarrow> word32" where
  "big_sigma1 x = word_rotr 6 x XOR word_rotr 11 x XOR word_rotr 25 x"

definition small_sigma0 :: "word32 \<Rightarrow> word32" where
  "small_sigma0 x = word_rotr 7 x XOR word_rotr 18 x XOR drop_bit 3 x"

definition small_sigma1 :: "word32 \<Rightarrow> word32" where
  "small_sigma1 x = word_rotr 17 x XOR word_rotr 19 x XOR drop_bit 10 x"

subsection \<open>Padding and the message schedule\<close>

definition be_bytes :: "nat \<Rightarrow> nat \<Rightarrow> bytes" where
  "be_bytes k n = map (\<lambda>i. of_nat (n div 256 ^ i)) (rev [0..<k])"

definition sha_pad :: "bytes \<Rightarrow> bytes" where
  "sha_pad m = m @ [0x80] @ replicate ((64 - (length m + 9) mod 64) mod 64) 0 @ be_bytes 8 (8 * length m)"

fun words_be :: "bytes \<Rightarrow> word32 list" where
  "words_be (a # b # c # d # bs) =
     of_nat (((unat a * 256 + unat b) * 256 + unat c) * 256 + unat d) # words_be bs"
| "words_be bs = []"

text \<open>The schedule grows at the end; \<open>n\<close> words are still to be appended.\<close>

fun sha_extend :: "nat \<Rightarrow> word32 list \<Rightarrow> word32 list" where
  "sha_extend 0 ws = ws"
| "sha_extend (Suc n) ws =
     (let t = length ws
      in sha_extend n (ws @ [small_sigma1 (ws ! (t - 2)) + ws ! (t - 7)
                             + small_sigma0 (ws ! (t - 15)) + ws ! (t - 16)]))"

subsection \<open>Compression\<close>

fun sha_round :: "word32 \<times> word32 \<Rightarrow> sha_state \<Rightarrow> sha_state" where
  "sha_round (k, w) (a, b, c, d, e, f, g, h) =
     (let t1 = h + big_sigma1 e + sha_ch e f g + k + w;
          t2 = big_sigma0 a + sha_maj a b c
      in (t1 + t2, a, b, c, d + t1, e, f, g))"

fun sha_add :: "sha_state \<Rightarrow> sha_state \<Rightarrow> sha_state" where
  "sha_add (a, b, c, d, e, f, g, h) (a', b', c', d', e', f', g', h') =
     (a + a', b + b', c + c', d + d', e + e', f + f', g + g', h + h')"

definition sha_block :: "bytes \<Rightarrow> sha_state \<Rightarrow> sha_state" where
  "sha_block blk st = sha_add st (fold sha_round (zip sha_k (sha_extend 48 (words_be blk))) st)"

function sha_blocks :: "bytes \<Rightarrow> sha_state \<Rightarrow> sha_state" where
  "sha_blocks bs st = (if bs = [] then st else sha_blocks (drop 64 bs) (sha_block (take 64 bs) st))"
  by pat_completeness auto
termination
  by (relation "measure (\<lambda>(bs, st). length bs)") auto

declare sha_blocks.simps [simp del]

fun sha_digest :: "sha_state \<Rightarrow> bytes" where
  "sha_digest (a, b, c, d, e, f, g, h) =
     concat (map (\<lambda>w. be_bytes 4 (unat w)) [a, b, c, d, e, f, g, h])"

definition sha256 :: "bytes \<Rightarrow> bytes" where
  "sha256 m = sha_digest (sha_blocks (sha_pad m) sha_init)"

subsection \<open>Facts\<close>

lemma length_be_bytes [simp]: "length (be_bytes k n) = k"
  by (simp add: be_bytes_def)

lemma length_sha256 [simp]: "length (sha256 m) = 32"
  unfolding sha256_def by (cases "sha_blocks (sha_pad m) sha_init" rule: sha_digest.cases) simp

lemma round_up_64: "((x::nat) + (64 - x mod 64) mod 64) mod 64 = 0"
proof (cases "x mod 64 = 0")
  case False
  then have "64 - x mod 64 < 64" by simp
  then have "(x + (64 - x mod 64) mod 64) mod 64 = (x mod 64 + (64 - x mod 64)) mod 64"
    by (metis mod_add_left_eq mod_less)
  also have "x mod 64 + (64 - x mod 64) = 64" by (simp add: less_imp_le)
  finally show ?thesis by simp
qed simp

text \<open>The padded message is a whole number of 64-byte blocks, so \<open>words_be\<close> drops nothing.\<close>

lemma sha_pad_blocks: "length (sha_pad m) mod 64 = 0"
  using round_up_64 [of "length m + 9"] by (simp add: sha_pad_def algebra_simps)

end
