(* ===== verification/Blob_Store.thy ===== *)
theory Blob_Store
  imports Go_Sha256
begin

section \<open>The content-addressed blob store\<close>

text \<open>
  \<open>internal/executor/blobstore.go\<close>: a map from the hexadecimal form of a blob id to the blob. \<open>put\<close>
  files data under its SHA-256 digest, \<open>putKnownID\<close> under an id of the server's choice. The mutex
  makes each operation atomic.
\<close>

subsection \<open>Operations\<close>

record blob_store =
  bs_data :: "string \<Rightarrow> bytes option"

definition new_blob_store :: blob_store where
  "new_blob_store = \<lparr>bs_data = \<lambda>_. None\<rparr>"

definition put_known_id :: "bytes \<Rightarrow> bytes \<Rightarrow> blob_store \<Rightarrow> blob_store" where
  "put_known_id i d b = b\<lparr>bs_data := (bs_data b)(hex_encode i \<mapsto> d)\<rparr>"

definition blob_put :: "bytes \<Rightarrow> blob_store \<Rightarrow> bytes \<times> blob_store" where
  "blob_put d b = (let i = sha256 d in (i, put_known_id i d b))"

definition blob_get :: "blob_store \<Rightarrow> bytes \<Rightarrow> bytes option" where
  "blob_get b i = bs_data b (hex_encode i)"

subsection \<open>The contract\<close>

interpretation blobs: keyed_store put_known_id blob_get "\<lambda>_. True"
  by unfold_locales (auto simp: put_known_id_def blob_get_def)

lemma blob_get_put_known_id [simp]:
  "blob_get (put_known_id i d b) j = (if j = i then Some d else blob_get b j)"
  by (simp add: blobs.get_put_same blobs.get_put_other)

lemma blob_get_new [simp]: "blob_get new_blob_store i = None"
  by (simp add: blob_get_def new_blob_store_def)

lemma blob_put_id [simp]: "fst (blob_put d b) = sha256 d"
  by (simp add: blob_put_def Let_def)

lemma blob_get_put: "blob_get (snd (blob_put d b)) i = (if i = sha256 d then Some d else blob_get b i)"
  by (simp add: blob_put_def Let_def)

lemma put_all_append: "blobs.put_all (a @ b) s = blobs.put_all b (blobs.put_all a s)"
  by (induction a s rule: blobs.put_all.induct) auto

subsection \<open>Content addressing\<close>

text \<open>
  \<open>addressed b ids\<close>: under each of the ids the store has a blob with that digest. Client-side puts
  keep this up to collisions of SHA-256: a colliding put replaces the data by other data with the
  same digest.
\<close>

definition resolves :: "blob_store \<Rightarrow> bytes \<Rightarrow> bool" where
  "resolves b i = (\<exists>d. blob_get b i = Some d \<and> sha256 d = i)"

lemma resolves_put [inv_intros]: "resolves (snd (blob_put d b)) (sha256 d)"
  by (simp add: resolves_def blob_get_put)

lemma resolves_mono [inv_intros]: "resolves b i \<Longrightarrow> resolves (snd (blob_put d b)) i"
  by (auto simp: resolves_def blob_get_put)

definition extends :: "blob_store \<Rightarrow> blob_store \<Rightarrow> bool" where
  "extends b b' = (\<forall>i. resolves b i \<longrightarrow> resolves b' i)"

lemma extends_refl [simp, inv_intros]: "extends b b"
  by (simp add: extends_def)

lemma extends_trans [trans]: "extends a b \<Longrightarrow> extends b c \<Longrightarrow> extends a c"
  by (simp add: extends_def)

lemma extends_put [inv_intros]: "extends b (snd (blob_put d b))"
  by (simp add: extends_def resolves_mono)

lemma extendsD: "extends b b' \<Longrightarrow> resolves b i \<Longrightarrow> resolves b' i"
  by (simp add: extends_def)

lemma blob_put_extends: "blob_put d b = (i, b') \<Longrightarrow> extends b b' \<and> resolves b' i \<and> i = sha256 d"
  by (metis blob_put_id extends_put fst_conv resolves_put snd_conv)

subsection \<open>Sequences of puts\<close>

definition puts :: "bytes list \<Rightarrow> (bytes \<times> bytes) list" where
  "puts ds = map (\<lambda>d. (sha256 d, d)) ds"

lemma put_all_puts_Nil: "b = blobs.put_all (puts []) b"
  by (simp add: puts_def)

lemma puts_extends: "extends b (blobs.put_all (puts ds) b)"
proof (induction ds arbitrary: b)
  case (Cons d ds)
  have "extends b (put_known_id (sha256 d) d b)" using extends_put [of b d] by (simp add: blob_put_def Let_def)
  from extends_trans [OF this Cons] show ?case by (simp add: puts_def)
qed (simp add: puts_def)

text \<open>A put keeps what is stored, up to data with the same digest.\<close>

lemma puts_keep:
  "blob_get b k = Some d \<Longrightarrow> blob_get (blobs.put_all (puts ds) b) k = Some d
     \<or> (\<exists>d'. sha256 d' = k \<and> blob_get (blobs.put_all (puts ds) b) k = Some d')"
proof (induction ds arbitrary: b d)
  case (Cons x ds)
  have step: "blobs.put_all (puts (x # ds)) b = blobs.put_all (puts ds) (put_known_id (sha256 x) x b)" by (simp add: puts_def)
  show ?case
  proof (cases "k = sha256 x")
    case True
    then show ?thesis unfolding step using Cons.IH [of "put_known_id (sha256 x) x b" x] by auto
  next
    case False
    then show ?thesis unfolding step using Cons.IH [of "put_known_id (sha256 x) x b" d] Cons.prems by simp
  qed
qed (simp add: puts_def)

end
