(* ===== verification/Go_Json.thy ===== *)
theory Go_Json
  imports Prelude
begin

section \<open>Package encoding/json\<close>

text \<open>
  What the plugin uses of \<open>encoding/json\<close>, as executable functions on text.

  A \<open>json\<close> value is a JSON text up to white space between tokens: numbers and string literals
  keep their spelling (\<open>JStr\<close> and the keys of \<open>JObj\<close> hold the characters between the quotes).
  It therefore models both a decoded value and a \<open>json.RawMessage\<close>: a raw message is only ever
  decoded or marshalled again, and marshalling drops the white space (\<open>compact\<close>) and escapes
  the characters that are special in HTML (\<open>html_escape\<close>), as \<open>json_print\<close> does.
  \<open>quote_lit\<close> and \<open>unquote\<close> translate between Go strings and literals, with Go's treatment of
  invalid UTF-8; \<open>json_parse\<close> is the scanner's grammar with its limit of 10000 nesting levels.
\<close>

subsection \<open>Characters and UTF-8\<close>

definition code :: "char \<Rightarrow> nat" where
  "code c = of_char c"

definition chr_quote :: char where
  "chr_quote = CHR 0x22"

definition chr_bsl :: char where
  "chr_bsl = CHR 0x5C"

definition is_ws :: "char \<Rightarrow> bool" where
  "is_ws c = (c = CHR 0x20 \<or> c = CHR 0x09 \<or> c = CHR 0x0A \<or> c = CHR 0x0D)"

definition skip_ws :: "string \<Rightarrow> string" where
  "skip_ws s = dropWhile is_ws s"

definition is_digit :: "char \<Rightarrow> bool" where
  "is_digit c = (48 \<le> code c \<and> code c \<le> 57)"

definition cont_byte :: "char \<Rightarrow> bool" where
  "cont_byte c = (128 \<le> code c \<and> code c \<le> 191)"

text \<open>The number of bytes of the well-formed rune at the front of a string, 0 if there is none.\<close>

fun utf8_width :: "string \<Rightarrow> nat" where
  "utf8_width [] = 0"
| "utf8_width (a # s) =
     (if code a < 128 then 1
      else if 194 \<le> code a \<and> code a \<le> 223 then
        (case s of b # _ \<Rightarrow> if cont_byte b then 2 else 0 | _ \<Rightarrow> 0)
      else if 224 \<le> code a \<and> code a \<le> 239 then
        (case s of b # c # _ \<Rightarrow>
           if cont_byte b \<and> cont_byte c \<and> (code a = 224 \<longrightarrow> 160 \<le> code b)
              \<and> (code a = 237 \<longrightarrow> code b \<le> 159) then 3 else 0 | _ \<Rightarrow> 0)
      else if 240 \<le> code a \<and> code a \<le> 244 then
        (case s of b # c # d # _ \<Rightarrow>
           if cont_byte b \<and> cont_byte c \<and> cont_byte d \<and> (code a = 240 \<longrightarrow> 144 \<le> code b)
              \<and> (code a = 244 \<longrightarrow> code b \<le> 143) then 4 else 0 | _ \<Rightarrow> 0)
      else 0)"

declare utf8_width.simps(2) [simp del]

fun utf8_valid :: "string \<Rightarrow> bool" where
  "utf8_valid [] = True"
| "utf8_valid (c # cs) =
     (let w = utf8_width (c # cs) in w \<noteq> 0 \<and> utf8_valid (drop (w - 1) cs))"

definition utf8_encode :: "nat \<Rightarrow> string" where
  "utf8_encode n =
     (if n < 0x80 then [char_of n]
      else if n < 0x800 then [char_of (192 + n div 64), char_of (128 + n mod 64)]
      else if n < 0x10000 then
        [char_of (224 + n div 4096), char_of (128 + n div 64 mod 64), char_of (128 + n mod 64)]
      else [char_of (240 + n div 262144), char_of (128 + n div 4096 mod 64),
            char_of (128 + n div 64 mod 64), char_of (128 + n mod 64)])"

definition replacement_char :: string where
  "replacement_char = [CHR 0xEF, CHR 0xBF, CHR 0xBD]"

subsection \<open>String literals\<close>

fun hex_val :: "char \<Rightarrow> nat option" where
  "hex_val c =
     (if 48 \<le> code c \<and> code c \<le> 57 then Some (code c - 48)
      else if 97 \<le> code c \<and> code c \<le> 102 then Some (code c - 87)
      else if 65 \<le> code c \<and> code c \<le> 70 then Some (code c - 55)
      else None)"

definition is_hex :: "char \<Rightarrow> bool" where
  "is_hex c = (hex_val c \<noteq> None)"

definition hex4 :: "char \<Rightarrow> char \<Rightarrow> char \<Rightarrow> char \<Rightarrow> nat" where
  "hex4 a b c d =
     ((the (hex_val a) * 16 + the (hex_val b)) * 16 + the (hex_val c)) * 16 + the (hex_val d)"

definition simple_escape :: "char \<Rightarrow> bool" where
  "simple_escape e = (e \<in> {chr_quote, chr_bsl, CHR ''/'', CHR ''b'', CHR ''f'', CHR ''n'', CHR ''r'', CHR ''t''})"

fun cons_lit :: "string \<Rightarrow> (string \<times> string) option \<Rightarrow> (string \<times> string) option" where
  "cons_lit p None = None"
| "cons_lit p (Some (l, r)) = Some (p @ l, r)"

text \<open>The scanner inside a string: the literal up to the closing quote, and what follows it.\<close>

fun scan_lit :: "string \<Rightarrow> (string \<times> string) option" where
  "scan_lit [] = None"
| "scan_lit (c # cs) =
     (if c = chr_quote then Some ([], cs)
      else if c = chr_bsl then
        (case cs of
           e # es \<Rightarrow>
             if simple_escape e then cons_lit [c, e] (scan_lit es)
             else if e = CHR ''u'' then
               (case es of
                  h1 # h2 # h3 # h4 # rs \<Rightarrow>
                    if is_hex h1 \<and> is_hex h2 \<and> is_hex h3 \<and> is_hex h4
                    then cons_lit [c, e, h1, h2, h3, h4] (scan_lit rs) else None
                | _ \<Rightarrow> None)
             else None
         | [] \<Rightarrow> None)
      else if code c < 32 then None
      else cons_lit [c] (scan_lit cs))"

text \<open>The escapes of \<open>appendString\<close> with HTML escaping on: one ASCII character.\<close>

definition esc_ascii :: "char \<Rightarrow> string" where
  "esc_ascii c =
     (if c = chr_quote \<or> c = chr_bsl then [chr_bsl, c]
      else if c = CHR 0x08 then [chr_bsl, CHR ''b'']
      else if c = CHR 0x0C then [chr_bsl, CHR ''f'']
      else if c = CHR 0x0A then [chr_bsl, CHR ''n'']
      else if c = CHR 0x0D then [chr_bsl, CHR ''r'']
      else if c = CHR 0x09 then [chr_bsl, CHR ''t'']
      else if code c < 32 \<or> c = CHR ''<'' \<or> c = CHR ''>'' \<or> c = CHR ''&''
      then [chr_bsl, CHR ''u'', CHR ''0'', CHR ''0'', hex_digit (code c div 16), hex_digit (code c mod 16)]
      else [c])"

definition is_line_sep :: "string \<Rightarrow> bool" where
  "is_line_sep r = (r = [CHR 0xE2, CHR 0x80, CHR 0xA8] \<or> r = [CHR 0xE2, CHR 0x80, CHR 0xA9])"

definition esc_line_sep :: "string \<Rightarrow> string" where
  "esc_line_sep r = [chr_bsl, CHR ''u'', CHR ''2'', CHR ''0'', CHR ''2'',
                     if r = [CHR 0xE2, CHR 0x80, CHR 0xA8] then CHR ''8'' else CHR ''9'']"

definition esc_invalid :: string where
  "esc_invalid = [chr_bsl, CHR ''u'', CHR ''f'', CHR ''f'', CHR ''f'', CHR ''d'']"

fun quote_lit :: "string \<Rightarrow> string" where
  "quote_lit [] = []"
| "quote_lit (c # cs) =
     (let w = utf8_width (c # cs) in
      if code c < 128 then esc_ascii c @ quote_lit cs
      else if w = 0 then esc_invalid @ quote_lit cs
      else (if is_line_sep (take w (c # cs)) then esc_line_sep (take w (c # cs)) else take w (c # cs))
           @ quote_lit (drop (w - 1) cs))"

text \<open>\<open>compact\<close> with HTML escaping, inside a literal.\<close>

fun html_escape :: "string \<Rightarrow> string" where
  "html_escape [] = []"
| "html_escape (c # cs) =
     (if c = CHR ''<'' \<or> c = CHR ''>'' \<or> c = CHR ''&'' then esc_ascii c @ html_escape cs
      else if is_line_sep (take 3 (c # cs)) then esc_line_sep (take 3 (c # cs)) @ html_escape (drop 2 cs)
      else c # html_escape cs)"

text \<open>\<open>unquote\<close>: the Go string of a literal.\<close>

definition unescape_simple :: "char \<Rightarrow> char" where
  "unescape_simple e =
     (if e = CHR ''b'' then CHR 0x08 else if e = CHR ''f'' then CHR 0x0C
      else if e = CHR ''n'' then CHR 0x0A else if e = CHR ''r'' then CHR 0x0D
      else if e = CHR ''t'' then CHR 0x09 else e)"

definition is_high_sur :: "nat \<Rightarrow> bool" where
  "is_high_sur n = (0xD800 \<le> n \<and> n < 0xDC00)"

definition is_low_sur :: "nat \<Rightarrow> bool" where
  "is_low_sur n = (0xDC00 \<le> n \<and> n < 0xE000)"

fun low_sur_at :: "string \<Rightarrow> nat option" where
  "low_sur_at (b # u # h1 # h2 # h3 # h4 # rs) =
     (if b = chr_bsl \<and> u = CHR ''u'' \<and> is_hex h1 \<and> is_hex h2 \<and> is_hex h3 \<and> is_hex h4
         \<and> is_low_sur (hex4 h1 h2 h3 h4) then Some (hex4 h1 h2 h3 h4) else None)"
| "low_sur_at s = None"

fun unquote :: "string \<Rightarrow> string" where
  "unquote [] = []"
| "unquote (c # cs) =
     (if c = chr_bsl then
        (case cs of
           e # es \<Rightarrow>
             if e = CHR ''u'' then
               (case es of
                  h1 # h2 # h3 # h4 # rs \<Rightarrow>
                    (let n = hex4 h1 h2 h3 h4 in
                     if is_high_sur n then
                       (case low_sur_at rs of
                          Some m \<Rightarrow> utf8_encode (0x10000 + (n - 0xD800) * 0x400 + (m - 0xDC00))
                                     @ unquote (drop 6 rs)
                        | None \<Rightarrow> replacement_char @ unquote rs)
                     else if is_low_sur n then replacement_char @ unquote rs
                     else utf8_encode n @ unquote rs)
                | _ \<Rightarrow> [])
             else unescape_simple e # unquote es
         | [] \<Rightarrow> [])
      else
        (let w = utf8_width (c # cs) in
         if w = 0 then replacement_char @ unquote cs
         else take w (c # cs) @ unquote (drop (w - 1) cs)))"

subsection \<open>Values and printing\<close>

datatype json =
    JNull
  | JBool bool
  | JNum string
  | JStr string
  | JArr "json list"
  | JObj "(string \<times> json) list"

definition jstr :: "string \<Rightarrow> json" where
  "jstr s = JStr (quote_lit s)"

definition jnat :: "nat \<Rightarrow> json" where
  "jnat n = JNum (nat_str n)"

text \<open>\<open>jobj\<close> builds an object from Go strings as keys, in the given order.\<close>

definition jobj :: "(string \<times> json) list \<Rightarrow> json" where
  "jobj ms = JObj (map (\<lambda>(k, v). (quote_lit k, v)) ms)"

definition quoted :: "string \<Rightarrow> string" where
  "quoted l = chr_quote # html_escape l @ [chr_quote]"

fun comma_sep :: "string list \<Rightarrow> string" where
  "comma_sep [] = []"
| "comma_sep [x] = x"
| "comma_sep (x # y # xs) = x @ CHR '','' # comma_sep (y # xs)"

fun json_print :: "json \<Rightarrow> string" where
  "json_print JNull = ''null''"
| "json_print (JBool b) = (if b then ''true'' else ''false'')"
| "json_print (JNum n) = n"
| "json_print (JStr l) = quoted l"
| "json_print (JArr xs) = CHR ''['' # comma_sep (map json_print xs) @ '']''"
| "json_print (JObj ms) =
     CHR ''{'' # comma_sep (map (\<lambda>(k, v). quoted k @ CHR '':'' # json_print v) ms) @ ''}''"

subsection \<open>Parsing\<close>

definition take_digits :: "string \<Rightarrow> string \<times> string" where
  "take_digits s = (takeWhile is_digit s, dropWhile is_digit s)"

definition scan_int :: "string \<Rightarrow> (string \<times> string) option" where
  "scan_int s =
     (case s of
        c # cs \<Rightarrow> if c = CHR ''0'' then Some ([c], cs)
                  else if is_digit c then Some (take_digits s) else None
      | [] \<Rightarrow> None)"

definition scan_frac :: "string \<Rightarrow> (string \<times> string) option" where
  "scan_frac s =
     (case s of
        c # cs \<Rightarrow> if c = CHR ''.'' then
                    (let (ds, r) = take_digits cs in if ds = [] then None else Some (c # ds, r))
                  else Some ([], s)
      | [] \<Rightarrow> Some ([], s))"

definition scan_sign :: "string \<Rightarrow> string \<times> string" where
  "scan_sign s =
     (case s of c # cs \<Rightarrow> if c = CHR ''+'' \<or> c = CHR ''-'' then ([c], cs) else ([], s) | [] \<Rightarrow> ([], s))"

definition scan_exp :: "string \<Rightarrow> (string \<times> string) option" where
  "scan_exp s =
     (case s of
        c # cs \<Rightarrow> if c = CHR ''e'' \<or> c = CHR ''E'' then
                    (let (sg, r) = scan_sign cs; (ds, r') = take_digits r
                     in if ds = [] then None else Some (c # sg @ ds, r'))
                  else Some ([], s)
      | [] \<Rightarrow> Some ([], s))"

definition scan_number :: "string \<Rightarrow> (string \<times> string) option" where
  "scan_number s =
     (let (m, s0) = (case s of c # cs \<Rightarrow> if c = CHR ''-'' then ([c], cs) else ([], s) | [] \<Rightarrow> ([], s))
      in case scan_int s0 of
           None \<Rightarrow> None
         | Some (i, s1) \<Rightarrow>
             (case scan_frac s1 of
                None \<Rightarrow> None
              | Some (f, s2) \<Rightarrow>
                  (case scan_exp s2 of
                     None \<Rightarrow> None
                   | Some (e, s3) \<Rightarrow> Some (m @ i @ f @ e, s3))))"

definition scan_word :: "string \<Rightarrow> json \<Rightarrow> string \<Rightarrow> (json \<times> string) option" where
  "scan_word w v s = (if is_prefix w s then Some (v, drop (length w) s) else None)"

definition max_nesting :: nat where
  "max_nesting = 10000"

text \<open>
  The grammar. The first argument is fuel (one unit per token-consuming call, so the length of
  the text is enough), the second the nesting levels still allowed.
\<close>

fun jvalue :: "nat \<Rightarrow> nat \<Rightarrow> string \<Rightarrow> (json \<times> string) option"
  and jelems :: "nat \<Rightarrow> nat \<Rightarrow> string \<Rightarrow> (json list \<times> string) option"
  and jmembers :: "nat \<Rightarrow> nat \<Rightarrow> string \<Rightarrow> ((string \<times> json) list \<times> string) option" where
  "jvalue 0 d s = None"
| "jvalue (Suc n) d s =
     (case skip_ws s of
        [] \<Rightarrow> None
      | c # cs \<Rightarrow>
          if c = chr_quote then map_option (\<lambda>(l, r). (JStr l, r)) (scan_lit cs)
          else if c = CHR ''{'' then
            (if d = 0 then None
             else (case skip_ws cs of
                     [] \<Rightarrow> None
                   | e # es \<Rightarrow> if e = CHR ''}'' then Some (JObj [], es)
                               else map_option (\<lambda>(ms, r). (JObj ms, r)) (jmembers n (d - 1) cs)))
          else if c = CHR ''['' then
            (if d = 0 then None
             else (case skip_ws cs of
                     [] \<Rightarrow> None
                   | e # es \<Rightarrow> if e = CHR '']'' then Some (JArr [], es)
                               else map_option (\<lambda>(xs, r). (JArr xs, r)) (jelems n (d - 1) cs)))
          else if c = CHR ''t'' then scan_word ''true'' (JBool True) (c # cs)
          else if c = CHR ''f'' then scan_word ''false'' (JBool False) (c # cs)
          else if c = CHR ''n'' then scan_word ''null'' JNull (c # cs)
          else map_option (\<lambda>(l, r). (JNum l, r)) (scan_number (c # cs)))"
| "jelems 0 d s = None"
| "jelems (Suc n) d s =
     (case jvalue n d s of
        None \<Rightarrow> None
      | Some (v, r) \<Rightarrow>
          (case skip_ws r of
             [] \<Rightarrow> None
           | c # cs \<Rightarrow>
               if c = CHR '','' then map_option (\<lambda>(vs, r'). (v # vs, r')) (jelems n d cs)
               else if c = CHR '']'' then Some ([v], cs) else None))"
| "jmembers 0 d s = None"
| "jmembers (Suc n) d s =
     (case skip_ws s of
        [] \<Rightarrow> None
      | q # qs \<Rightarrow>
          if q \<noteq> chr_quote then None
          else (case scan_lit qs of
                  None \<Rightarrow> None
                | Some (k, r) \<Rightarrow>
                    (case skip_ws r of
                       [] \<Rightarrow> None
                     | c # cs \<Rightarrow>
                         if c \<noteq> CHR '':'' then None
                         else (case jvalue n d cs of
                                 None \<Rightarrow> None
                               | Some (v, r1) \<Rightarrow>
                                   (case skip_ws r1 of
                                      [] \<Rightarrow> None
                                    | e # es \<Rightarrow>
                                        if e = CHR '','' then
                                          map_option (\<lambda>(ms, r'). ((k, v) # ms, r')) (jmembers n d es)
                                        else if e = CHR ''}'' then Some ([(k, v)], es)
                                        else None)))))"

definition json_parse :: "string \<Rightarrow> json option" where
  "json_parse s =
     (case jvalue (Suc (2 * length s)) max_nesting s of
        Some (v, r) \<Rightarrow> if skip_ws r = [] then Some v else None
      | None \<Rightarrow> None)"

definition json_valid :: "string \<Rightarrow> bool" where
  "json_valid s = (json_parse s \<noteq> None)"

end
