(* ===== verification/Go_Json_Laws.thy ===== *)
theory Go_Json_Laws
  imports Go_Json
begin

section \<open>Laws of the JSON model\<close>

text \<open>
  What the components use of \<open>Go_Json\<close>: the parser consumes its input and needs no more fuel than
  \<open>json_parse\<close> gives it; a literal made by \<open>quote_lit\<close> unquotes to the string it was made from;
  whatever the parser accepts prints to text the parser accepts again, with the same value
  (\<open>json_parse_print\<close>).
\<close>

subsection \<open>Consumption and fuel\<close>

lemma length_skip_ws: "length (skip_ws s) \<le> length s"
  by (simp add: skip_ws_def length_dropWhile_le)

lemma skip_ws_Cons_length: "skip_ws s = c # cs \<Longrightarrow> length cs < length s"
  using length_skip_ws [of s] by simp

lemma cons_lit_Some [simp]: "cons_lit p x = Some (l, r) \<longleftrightarrow> (\<exists>l'. x = Some (l', r) \<and> l = p @ l')"
  by (cases x) auto

lemma scan_lit_length: "scan_lit s = Some (l, r) \<Longrightarrow> length r < length s"
  by (induction s arbitrary: l r rule: scan_lit.induct)
     (fastforce split: if_splits list.splits)+

lemma length_take_digits: "take_digits s = (ds, r) \<Longrightarrow> length ds + length r = length s"
  by (auto simp: take_digits_def) (metis length_append takeWhile_dropWhile_id)

lemma scan_int_length: "scan_int s = Some (l, r) \<Longrightarrow> length r < length s"
  by (auto simp: scan_int_def take_digits_def split: list.splits if_splits)
     (metis le_imp_less_Suc length_dropWhile_le)+

lemma scan_frac_length: "scan_frac s = Some (l, r) \<Longrightarrow> length r \<le> length s"
  by (auto simp: scan_frac_def Let_def dest!: length_take_digits split: list.splits if_splits prod.splits)

lemma scan_exp_length: "scan_exp s = Some (l, r) \<Longrightarrow> length r \<le> length s"
  by (auto simp: scan_exp_def scan_sign_def Let_def dest!: length_take_digits
           split: list.splits if_splits prod.splits)

lemma scan_number_length: "scan_number s = Some (l, r) \<Longrightarrow> length r < length s"
  by (fastforce simp: scan_number_def Let_def
                dest!: scan_int_length scan_frac_length scan_exp_length
                split: list.splits if_splits option.splits prod.splits)

lemma scan_word_length: "scan_word w v s = Some (x, r) \<Longrightarrow> w \<noteq> [] \<Longrightarrow> length r < length s"
  by (auto simp: scan_word_def is_prefix_iff split: if_splits)

lemma jparse_consumes:
  shows "jvalue n d s = Some (v, r) \<Longrightarrow> length r < length s"
    and "jelems n d s = Some (vs, r) \<Longrightarrow> length r < length s"
    and "jmembers n d s = Some (ms, r) \<Longrightarrow> length r < length s"
proof (induction n d s and n d s and n d s arbitrary: v r and vs r and ms r
       rule: jvalue_jelems_jmembers.induct)
  case (2 n d s)
  show ?case
    using "2.prems" "2.IH"
    by (fastforce dest!: skip_ws_Cons_length scan_lit_length scan_number_length scan_word_length
                  split: list.splits if_splits)
next
  case (4 n d s)
  show ?case
    using "4.prems" "4.IH"
    by (fastforce dest!: skip_ws_Cons_length split: list.splits if_splits option.splits prod.splits)
next
  case (6 n d s)
  show ?case
    using "6.prems" "6.IH"
    by (fastforce dest!: skip_ws_Cons_length scan_lit_length
                  split: list.splits if_splits option.splits prod.splits)
qed auto


text \<open>
  Fuel beyond twice the length of the text changes nothing (a list or an object spends one unit
  more than the value it starts with).
\<close>

definition fuel_ok :: "nat \<Rightarrow> bool" where
  "fuel_ok n \<longleftrightarrow>
     (\<forall>m d s. 2 * length s < n \<longrightarrow> 2 * length s < m \<longrightarrow> jvalue n d s = jvalue m d s) \<and>
     (\<forall>m d s. 2 * length s + 1 < n \<longrightarrow> 2 * length s + 1 < m \<longrightarrow> jelems n d s = jelems m d s) \<and>
     (\<forall>m d s. 2 * length s + 1 < n \<longrightarrow> 2 * length s + 1 < m \<longrightarrow> jmembers n d s = jmembers m d s)"

lemma fuel_okD:
  assumes "fuel_ok n"
  shows "2 * length s < n \<Longrightarrow> 2 * length s < m \<Longrightarrow> jvalue n d s = jvalue m d s"
    and "2 * length s + 1 < n \<Longrightarrow> 2 * length s + 1 < m \<Longrightarrow> jelems n d s = jelems m d s"
    and "2 * length s + 1 < n \<Longrightarrow> 2 * length s + 1 < m \<Longrightarrow> jmembers n d s = jmembers m d s"
  using assms unfolding fuel_ok_def by blast+

lemma jvalue_fuel_step:
  assumes "fuel_ok n" and "2 * length s < Suc n" and "2 * length s < Suc m"
  shows "jvalue (Suc n) d s = jvalue (Suc m) d s"
proof (cases "skip_ws s")
  case (Cons c cs)
  then have "length cs < length s" by (rule skip_ws_Cons_length)
  then have "jelems n (d - 1) cs = jelems m (d - 1) cs" and "jmembers n (d - 1) cs = jmembers m (d - 1) cs"
    using assms by (auto intro!: fuel_okD)
  then show ?thesis using Cons by (simp split: list.split)
qed simp

lemma jelems_fuel_step:
  assumes "fuel_ok n" and "2 * length s + 1 < Suc n" and "2 * length s + 1 < Suc m"
  shows "jelems (Suc n) d s = jelems (Suc m) d s"
proof -
  have v: "jvalue n d s = jvalue m d s"
    using assms by (auto intro!: fuel_okD)
  show ?thesis
  proof (cases "jvalue n d s")
    case (Some vr)
    then obtain x r where vr: "jvalue n d s = Some (x, r)" by (cases vr) auto
    then have "length r < length s" by (rule jparse_consumes)
    then have "jelems n d cs = jelems m d cs" if "skip_ws r = c # cs" for c cs
      using skip_ws_Cons_length [OF that] assms by (auto intro!: fuel_okD)
    then show ?thesis using vr v by (simp split: list.split)
  qed (simp add: v [symmetric])
qed

lemma jmembers_fuel_step:
  assumes "fuel_ok n" and "2 * length s + 1 < Suc n" and "2 * length s + 1 < Suc m"
  shows "jmembers (Suc n) d s = jmembers (Suc m) d s"
proof (cases "skip_ws s")
  case qs: (Cons q qs)
  show ?thesis
  proof (cases "scan_lit qs")
    case (Some kr)
    then obtain k r where k: "scan_lit qs = Some (k, r)" by (cases kr) auto
    show ?thesis
    proof (cases "skip_ws r")
      case cs: (Cons c cs)
      have len: "length cs + 2 < length s"
        using skip_ws_Cons_length [OF qs] scan_lit_length [OF k] skip_ws_Cons_length [OF cs] by simp
      then have v: "jvalue n d cs = jvalue m d cs"
        using assms by (auto intro!: fuel_okD)
      have rest: "jmembers n d es = jmembers m d es"
        if "jvalue n d cs = Some (x, r1)" and "skip_ws r1 = e # es" for x r1 e es
        using jparse_consumes(1) [OF that(1)] skip_ws_Cons_length [OF that(2)] len assms
        by (auto intro!: fuel_okD)
      then show ?thesis
        using qs k cs v [symmetric] by (simp split: option.split prod.split list.split)
    qed (simp add: qs k)
  qed (simp add: qs)
qed simp

lemma fuel_ok_all: "fuel_ok n"
proof (induction n)
  case 0
  show ?case by (simp add: fuel_ok_def)
next
  case (Suc n)
  have "jvalue (Suc n) d s = jvalue m d s"
    if "2 * length s < Suc n" and "2 * length s < m" for m d s
    using that jvalue_fuel_step [OF Suc, of s "m - 1" d] by (cases m) auto
  moreover have "jelems (Suc n) d s = jelems m d s"
    if "2 * length s + 1 < Suc n" and "2 * length s + 1 < m" for m d s
    using that jelems_fuel_step [OF Suc, of s "m - 1" d] by (cases m) auto
  moreover have "jmembers (Suc n) d s = jmembers m d s"
    if "2 * length s + 1 < Suc n" and "2 * length s + 1 < m" for m d s
    using that jmembers_fuel_step [OF Suc, of s "m - 1" d] by (cases m) auto
  ultimately show ?case unfolding fuel_ok_def by blast
qed

lemmas jparse_fuel = fuel_okD [OF fuel_ok_all]


subsection \<open>Numbers\<close>

definition num_delim :: "string \<Rightarrow> bool" where
  "num_delim r = (case r of [] \<Rightarrow> True | c # _ \<Rightarrow> \<not> is_digit c \<and> c \<notin> set ''.eE'')"

definition no_digit :: "string \<Rightarrow> bool" where
  "no_digit r = (case r of [] \<Rightarrow> True | c # _ \<Rightarrow> \<not> is_digit c)"

lemma no_digit_simps [simp]: "no_digit []" "no_digit (c # cs) = (\<not> is_digit c)"
  by (simp_all add: no_digit_def)

lemma num_delim_no_digit: "num_delim r \<Longrightarrow> no_digit r"
  by (auto simp: num_delim_def no_digit_def split: list.splits)

lemma take_digits_split:
  assumes "take_digits s = (ds, r)"
  shows "s = ds @ r" and "no_digit r' \<Longrightarrow> take_digits (ds @ r') = (ds, r')"
proof -
  show "s = ds @ r" using assms by (auto simp: take_digits_def)
  have all: "\<forall>c \<in> set ds. is_digit c" using assms by (auto simp: take_digits_def dest: set_takeWhileD)
  show "take_digits (ds @ r') = (ds, r')" if "no_digit r'"
    using that all by (cases r') (auto simp: take_digits_def)
qed

lemma take_digits_digit: "is_digit c \<Longrightarrow> take_digits (c # cs) = (ds, r) \<Longrightarrow> \<exists>ds'. ds = c # ds'"
  by (auto simp: take_digits_def)

lemma scan_int_split:
  assumes "scan_int s = Some (l, r)"
  shows "s = l @ r" and "no_digit r' \<Longrightarrow> scan_int (l @ r') = Some (l, r')"
    and "\<exists>c cs. l = c # cs \<and> is_digit c"
proof -
  obtain c cs where s: "s = c # cs" using assms by (cases s) (auto simp: scan_int_def)
  have zero: "\<not> is_digit c \<Longrightarrow> c \<noteq> CHR ''0''" by (auto simp: is_digit_def code_def)
  consider "c = CHR ''0''" "l = [c]" "r = cs" | "is_digit c" "take_digits s = (l, r)"
    using assms s by (cases "c = CHR ''0''"; cases "is_digit c") (simp_all add: scan_int_def)
  note cases = this
  show "s = l @ r"
    using cases
  proof cases
    case 2
    from take_digits_split(1) [OF 2(2)] show ?thesis .
  qed (simp add: s)
  show "\<exists>c cs. l = c # cs \<and> is_digit c"
    using cases
  proof cases
    case 1
    then show ?thesis using zero by blast
  next
    case 2
    then show ?thesis using s take_digits_digit by blast
  qed
  show "scan_int (l @ r') = Some (l, r')" if "no_digit r'"
  proof (cases "c = CHR ''0''")
    case True
    then show ?thesis using assms s by (auto simp: scan_int_def)
  next
    case False
    then have d: "is_digit c" and t: "take_digits s = (l, r)"
      using cases by auto
    obtain l' where l: "l = c # l'" using take_digits_digit [OF d t [unfolded s]] by blast
    show ?thesis
      using take_digits_split(2) [OF t that] False d by (simp add: scan_int_def l)
  qed
qed

lemma scan_frac_split:
  assumes "scan_frac s = Some (l, r)"
  shows "s = l @ r" and "num_delim r' \<or> (\<exists>c cs. r' = c # cs \<and> c \<in> set ''eE'') \<Longrightarrow> scan_frac (l @ r') = Some (l, r')"
    and "l = [] \<or> (\<exists>cs. l = CHR ''.'' # cs)"
proof -
  consider "l = []" "s = r" | ds cs where "l = CHR ''.'' # ds" "s = CHR ''.'' # cs" "take_digits cs = (ds, r)" "ds \<noteq> []"
    using assms by (auto simp: scan_frac_def Let_def split: list.splits if_splits prod.splits)
  note cases = this
  show "s = l @ r" using cases by cases (auto dest: take_digits_split(1))
  show "l = [] \<or> (\<exists>cs. l = CHR ''.'' # cs)" using cases by cases auto
  assume r': "num_delim r' \<or> (\<exists>c cs. r' = c # cs \<and> c \<in> set ''eE'')"
  then have nd: "no_digit r'" by (auto simp: num_delim_no_digit is_digit_def code_def)
  from cases show "scan_frac (l @ r') = Some (l, r')"
  proof cases
    case 1
    then show ?thesis using r' by (auto simp: scan_frac_def num_delim_def split: list.splits)
  next
    case 2
    then show ?thesis using take_digits_split(2) [OF 2(3) nd] by (simp add: scan_frac_def)
  qed
qed

lemma scan_exp_split:
  assumes "scan_exp s = Some (l, r)"
  shows "s = l @ r" and "num_delim r' \<Longrightarrow> scan_exp (l @ r') = Some (l, r')"
    and "l = [] \<or> (\<exists>c cs. l = c # cs \<and> c \<in> set ''eE'')"
proof -
  consider "l = []" "s = r"
    | c cs sg r0 ds where "c = CHR ''e'' \<or> c = CHR ''E''" "s = c # cs" "scan_sign cs = (sg, r0)"
        "take_digits r0 = (ds, r)" "ds \<noteq> []" "l = c # sg @ ds"
    using assms by (auto simp: scan_exp_def Let_def split: list.splits if_splits prod.splits)
  note cases = this
  have sign: "t = sg @ t'" if "scan_sign t = (sg, t')" for t sg t'
    using that by (auto simp: scan_sign_def split: list.splits if_splits)
  show "s = l @ r" using cases by cases (auto dest: take_digits_split(1) sign)
  show "l = [] \<or> (\<exists>c cs. l = c # cs \<and> c \<in> set ''eE'')" using cases by cases auto
  assume r': "num_delim r'"
  from cases show "scan_exp (l @ r') = Some (l, r')"
  proof cases
    case 1
    then show ?thesis using r' by (auto simp: scan_exp_def num_delim_def split: list.splits)
  next
    case 2
    have t: "take_digits (ds @ r') = (ds, r')"
      using take_digits_split(2) [OF 2(4)] num_delim_no_digit [OF r'] .
    obtain d ds' where ds: "ds = d # ds'" using 2(5) by (cases ds) auto
    have "ds = takeWhile is_digit r0" using 2(4) by (simp add: take_digits_def)
    then have "is_digit d" using ds by (metis list.set_intros(1) set_takeWhileD)
    then have "d \<noteq> CHR ''+''" and "d \<noteq> CHR ''-''" by (auto simp: is_digit_def code_def)
    then have "scan_sign (sg @ ds @ r') = (sg, ds @ r')"
      using 2(3) ds by (auto simp: scan_sign_def split: list.splits if_splits)
    then show ?thesis using 2 t by (auto simp: scan_exp_def)
  qed
qed

lemma scan_number_split:
  assumes "scan_number s = Some (l, r)"
  shows "s = l @ r" and "num_delim r' \<Longrightarrow> scan_number (l @ r') = Some (l, r')"
    and "\<exists>c cs. l = c # cs \<and> (is_digit c \<or> c = CHR ''-'')"
proof -
  obtain m s0 i s1 f s2 e where m: "(m = [CHR ''-''] \<and> s = CHR ''-'' # s0) \<or>
        (m = [] \<and> s = s0 \<and> (\<forall>cs. s \<noteq> CHR ''-'' # cs))"
    and i: "scan_int s0 = Some (i, s1)" and f: "scan_frac s1 = Some (f, s2)"
    and e: "scan_exp s2 = Some (e, r)" and l: "l = m @ i @ f @ e"
    using assms
    by (auto simp: scan_number_def Let_def split: list.splits if_splits option.splits prod.splits)
  show "s = l @ r"
    using m l scan_int_split(1) [OF i] scan_frac_split(1) [OF f] scan_exp_split(1) [OF e] by auto
  obtain d i' where d: "i = d # i'" "is_digit d" using scan_int_split(3) [OF i] by blast
  show "\<exists>c cs. l = c # cs \<and> (is_digit c \<or> c = CHR ''-'')" using m l d by auto
  assume r': "num_delim r'"
  have er: "num_delim (e @ r') \<or> (\<exists>c cs. e @ r' = c # cs \<and> c \<in> set ''eE'')"
    using scan_exp_split(3) [OF e] r' by auto
  have "no_digit (f @ e @ r')"
    using scan_frac_split(3) [OF f] er by (auto simp: is_digit_def code_def num_delim_no_digit)
  then have "scan_int (i @ f @ e @ r') = Some (i, f @ e @ r')" by (rule scan_int_split(2) [OF i])
  moreover have "scan_frac (f @ e @ r') = Some (f, e @ r')" by (rule scan_frac_split(2) [OF f er])
  moreover have "scan_exp (e @ r') = Some (e, r')" by (rule scan_exp_split(2) [OF e r'])
  moreover have "d \<noteq> CHR ''-''" using d by (auto simp: is_digit_def code_def)
  ultimately show "scan_number (l @ r') = Some (l, r')"
    using m by (auto simp: scan_number_def l d)
qed


subsection \<open>Runes\<close>

lemma utf8_width_cases:
  assumes "utf8_width (a # s) = w" and "w \<noteq> 0"
  obtains "w = 1" "code a < 128"
  | b t where "w = 2" "s = b # t" "194 \<le> code a" "code a \<le> 223" "cont_byte b"
  | b c t where "w = 3" "s = b # c # t" "224 \<le> code a" "code a \<le> 239" "cont_byte b" "cont_byte c"
      "code a = 224 \<longrightarrow> 160 \<le> code b" "code a = 237 \<longrightarrow> code b \<le> 159"
  | b c d t where "w = 4" "s = b # c # d # t" "240 \<le> code a" "code a \<le> 244"
      "cont_byte b" "cont_byte c" "cont_byte d"
      "code a = 240 \<longrightarrow> 144 \<le> code b" "code a = 244 \<longrightarrow> code b \<le> 143"
  using assms by (simp add: utf8_width.simps(2) split: if_splits list.splits)

lemma utf8_width_append:
  assumes "utf8_width (a # s) = w" and "w \<noteq> 0"
  shows "utf8_width (take w (a # s) @ t) = w"
  using assms
  by (cases rule: utf8_width_cases) (simp_all add: utf8_width.simps(2))

lemma utf8_width_le: "utf8_width s \<le> length s"
  by (cases s) (simp_all add: utf8_width.simps(2) split: list.split)

lemma utf8_width_ascii [simp]: "code a < 128 \<Longrightarrow> utf8_width (a # s) = 1"
  by (simp add: utf8_width.simps(2))

lemma utf8_width_ascii_iff: "utf8_width (a # s) = 1 \<longleftrightarrow> code a < 128"
  by (auto simp: utf8_width.simps(2) split: if_splits list.splits)

subsection \<open>Literals\<close>

definition lit_ok :: "string \<Rightarrow> bool" where
  "lit_ok l = (scan_lit (l @ [chr_quote]) = Some (l, []))"

lemma scan_lit_quote [simp]: "scan_lit (chr_quote # r) = Some ([], r)"
  by simp

lemma chr_bsl_not_quote [simp]: "chr_bsl \<noteq> chr_quote" "chr_quote \<noteq> chr_bsl"
  by (simp_all add: chr_bsl_def chr_quote_def)

text \<open>The three kinds of chunk a literal is made of.\<close>

lemma scan_lit_simple:
  "simple_escape e \<Longrightarrow> scan_lit (chr_bsl # e # es) = cons_lit [chr_bsl, e] (scan_lit es)"
  by simp

lemma scan_lit_hex:
  "is_hex h1 \<Longrightarrow> is_hex h2 \<Longrightarrow> is_hex h3 \<Longrightarrow> is_hex h4 \<Longrightarrow>
   scan_lit (chr_bsl # CHR ''u'' # h1 # h2 # h3 # h4 # rs) =
     cons_lit [chr_bsl, CHR ''u'', h1, h2, h3, h4] (scan_lit rs)"
  by (simp add: simple_escape_def chr_quote_def chr_bsl_def)

lemma scan_lit_plain:
  "c \<noteq> chr_quote \<Longrightarrow> c \<noteq> chr_bsl \<Longrightarrow> 32 \<le> code c \<Longrightarrow> scan_lit (c # cs) = cons_lit [c] (scan_lit cs)"
  by simp

lemma scan_lit_cases:
  assumes "scan_lit s = Some (l, r)"
  obtains "l = []" "s = chr_quote # r"
  | e es l' where "simple_escape e" "s = chr_bsl # e # es" "scan_lit es = Some (l', r)" "l = chr_bsl # e # l'"
  | h1 h2 h3 h4 rs l' where "is_hex h1" "is_hex h2" "is_hex h3" "is_hex h4"
      "s = chr_bsl # CHR ''u'' # h1 # h2 # h3 # h4 # rs" "scan_lit rs = Some (l', r)"
      "l = chr_bsl # CHR ''u'' # h1 # h2 # h3 # h4 # l'"
  | c cs l' where "c \<noteq> chr_quote" "c \<noteq> chr_bsl" "32 \<le> code c" "s = c # cs"
      "scan_lit cs = Some (l', r)" "l = c # l'"
proof -
  obtain c cs where s: "s = c # cs" using assms by (cases s) auto
  consider "c = chr_quote" | "c = chr_bsl" | "c \<noteq> chr_quote" "c \<noteq> chr_bsl" by blast
  then show ?thesis
  proof cases
    case 1
    then show ?thesis using assms s that(1) by simp
  next
    case 2
    show ?thesis
    proof (cases "\<exists>e es. cs = e # es \<and> simple_escape e")
      case True
      then show ?thesis using assms s 2 that(2) by auto
    next
      case False
      then show ?thesis using assms s 2 that(3) by (auto split: list.splits if_splits)
    qed
  next
    case 3
    then show ?thesis using assms s that(4) by (auto split: if_splits)
  qed
qed

lemma scan_lit_split:
  assumes "scan_lit s = Some (l, r)"
  shows "s = l @ chr_quote # r \<and> scan_lit (l @ chr_quote # r') = Some (l, r')"
  using assms
proof (induction "length s" arbitrary: s l rule: less_induct)
  case less
  from less.prems show ?case
  proof (cases rule: scan_lit_cases)
    case (2 e es l')
    then show ?thesis using less.hyps [of es l'] by (simp del: scan_lit.simps(2) add: scan_lit_simple)
  next
    case (3 h1 h2 h3 h4 rs l')
    then show ?thesis using less.hyps [of rs l'] by (simp del: scan_lit.simps(2) add: scan_lit_hex)
  next
    case (4 c cs l')
    then show ?thesis using less.hyps [of cs l'] by (simp del: scan_lit.simps(2) add: scan_lit_plain)
  qed simp
qed

lemma scan_lit_lit_ok: "scan_lit s = Some (l, r) \<Longrightarrow> lit_ok l"
  using scan_lit_split [of s l r "[]"] by (simp add: lit_ok_def)

lemma lit_okD: "lit_ok l \<Longrightarrow> scan_lit (l @ chr_quote # r) = Some (l, r)"
  unfolding lit_ok_def using scan_lit_split by blast

lemma lit_ok_Nil [simp]: "lit_ok []"
  by (simp add: lit_ok_def)

lemma lit_ok_plain:
  "c \<noteq> chr_quote \<Longrightarrow> c \<noteq> chr_bsl \<Longrightarrow> 32 \<le> code c \<Longrightarrow> lit_ok (c # l) = lit_ok l"
  by (simp add: lit_ok_def)

lemma lit_ok_simple: "simple_escape e \<Longrightarrow> lit_ok (chr_bsl # e # l) = lit_ok l"
  by (simp add: lit_ok_def)

lemma lit_ok_hex:
  "is_hex h1 \<Longrightarrow> is_hex h2 \<Longrightarrow> is_hex h3 \<Longrightarrow> is_hex h4 \<Longrightarrow>
   lit_ok (chr_bsl # CHR ''u'' # h1 # h2 # h3 # h4 # l) = lit_ok l"
  by (simp add: lit_ok_def simple_escape_def chr_quote_def chr_bsl_def)

lemma lit_ok_cases:
  assumes "lit_ok l"
  obtains "l = []"
  | e l' where "simple_escape e" "l = chr_bsl # e # l'" "lit_ok l'"
  | h1 h2 h3 h4 l' where "is_hex h1" "is_hex h2" "is_hex h3" "is_hex h4"
      "l = chr_bsl # CHR ''u'' # h1 # h2 # h3 # h4 # l'" "lit_ok l'"
  | c l' where "c \<noteq> chr_quote" "c \<noteq> chr_bsl" "32 \<le> code c" "l = c # l'" "lit_ok l'"
  using assms [unfolded lit_ok_def]
  by (cases rule: scan_lit_cases) (auto dest: scan_lit_lit_ok intro: that)


lemma lit_ok_esc_ascii: "code c < 128 \<Longrightarrow> lit_ok (esc_ascii c @ l) = lit_ok l"
proof -
  assume c: "code c < 128"
  have "is_hex (hex_digit n)" if "n < 16" for n
    using hex_digit_is_hex [OF that] by (auto simp: is_hex_char_def is_hex_def code_def)
  then have h: "is_hex (hex_digit (code c div 16))" "is_hex (hex_digit (code c mod 16))"
    using c by (simp_all add: less_mult_imp_div_less)
  have z: "is_hex (CHR ''0'')" by (simp add: is_hex_def code_def)
  show ?thesis
    using h z by (auto simp: esc_ascii_def lit_ok_hex lit_ok_simple simple_escape_def lit_ok_plain)
qed

lemma lit_ok_high: "128 \<le> code c \<Longrightarrow> lit_ok (c # l) = lit_ok l"
  by (rule lit_ok_plain) (auto simp: chr_quote_def chr_bsl_def code_def)

lemma lit_ok_line_sep: "lit_ok (esc_line_sep r @ l) = lit_ok l"
  by (simp add: esc_line_sep_def lit_ok_hex is_hex_def code_def)

lemma lit_ok_invalid: "lit_ok (esc_invalid @ l) = lit_ok l"
  by (simp add: esc_invalid_def lit_ok_hex is_hex_def code_def)

lemma lit_ok_rune:
  assumes "utf8_width (c # cs) = w" and "w \<noteq> 0" and "\<not> code c < 128"
  shows "lit_ok (take w (c # cs) @ l) = lit_ok l"
  using assms by (cases rule: utf8_width_cases) (simp_all add: lit_ok_high cont_byte_def)

lemma lit_ok_quote_lit [simp]: "lit_ok (quote_lit s)"
proof (induction s rule: quote_lit.induct)
  case (2 c cs)
  then show ?case
    by (simp add: Let_def lit_ok_esc_ascii lit_ok_invalid lit_ok_line_sep lit_ok_rune)
qed simp

text \<open>HTML escaping: what it leaves alone, and that a literal made by \<open>quote_lit\<close> is already escaped.\<close>

lemma html_escape_plain:
  "c \<noteq> CHR ''<'' \<Longrightarrow> c \<noteq> CHR ''>'' \<Longrightarrow> c \<noteq> CHR ''&'' \<Longrightarrow> c \<noteq> CHR 0xE2 \<Longrightarrow>
   html_escape (c # cs) = c # html_escape cs"
  by (simp add: is_line_sep_def)

lemma html_escape_hex: "is_hex c \<Longrightarrow> html_escape (c # cs) = c # html_escape cs"
  by (rule html_escape_plain) (auto simp: is_hex_def code_def)

lemma html_escape_simple: "simple_escape c \<Longrightarrow> html_escape (c # cs) = c # html_escape cs"
  by (rule html_escape_plain) (auto simp: simple_escape_def chr_quote_def chr_bsl_def)

lemma html_escape_bsl: "html_escape (chr_bsl # cs) = chr_bsl # html_escape cs"
  by (rule html_escape_plain) (auto simp: chr_bsl_def)

lemmas html_escape_chunk = html_escape_bsl html_escape_simple html_escape_hex

lemma html_escape_u: "html_escape (CHR ''u'' # cs) = CHR ''u'' # html_escape cs"
  by (rule html_escape_plain) auto


lemma html_escape_special:
  "c = CHR ''<'' \<or> c = CHR ''>'' \<or> c = CHR ''&'' \<Longrightarrow> html_escape (c # cs) = esc_ascii c @ html_escape cs"
  by simp

lemma html_escape_line_sep:
  "is_line_sep [a, b, c] \<Longrightarrow> html_escape (a # b # c # cs) = esc_line_sep [a, b, c] @ html_escape cs"
  by (subst html_escape.simps(2)) (auto simp: is_line_sep_def simp del: html_escape.simps(2))

lemma html_escape_hex_chunk:
  assumes "is_hex h1" "is_hex h2" "is_hex h3" "is_hex h4"
  shows "html_escape (chr_bsl # CHR ''u'' # h1 # h2 # h3 # h4 # l) =
           chr_bsl # CHR ''u'' # h1 # h2 # h3 # h4 # html_escape l"
  by (simp only: html_escape_bsl html_escape_u html_escape_hex [OF assms(1)]
      html_escape_hex [OF assms(2)] html_escape_hex [OF assms(3)] html_escape_hex [OF assms(4)])

lemma is_line_sep_take:
  "is_line_sep (take 3 (c # l)) \<longleftrightarrow>
     (\<exists>x u. c = CHR 0xE2 \<and> l = CHR 0x80 # x # u \<and> is_line_sep [c, CHR 0x80, x])"
proof (cases l)
  case (Cons b t)
  then show ?thesis by (cases t) (auto simp: is_line_sep_def)
qed (simp add: is_line_sep_def)

lemma lit_ok_html_escape [simp]: "lit_ok l \<Longrightarrow> lit_ok (html_escape l)"
proof (induction "length l" arbitrary: l rule: less_induct)
  case less
  from less.prems show ?case
  proof (cases rule: lit_ok_cases)
    case (2 e l')
    then have "lit_ok (html_escape l')" using less.hyps [of l'] by simp
    then show ?thesis using 2(1) by (simp only: 2(2) html_escape_bsl html_escape_simple lit_ok_simple)
  next
    case (3 h1 h2 h3 h4 l')
    then have "lit_ok (html_escape l')" using less.hyps [of l'] by simp
    then show ?thesis using 3(1-4) by (simp only: 3(5) html_escape_hex_chunk lit_ok_hex)
  next
    case (4 c l')
    consider "c = CHR ''<'' \<or> c = CHR ''>'' \<or> c = CHR ''&''"
      | x u where "c = CHR 0xE2" "l' = CHR 0x80 # x # u" "is_line_sep [c, CHR 0x80, x]"
      | "html_escape (c # l') = c # html_escape l'"
      using is_line_sep_take [of c l'] by fastforce
    then show ?thesis
    proof cases
      case 1
      then have "lit_ok (esc_ascii c @ html_escape l') = lit_ok (html_escape l')"
        by (intro lit_ok_esc_ascii) (auto simp: code_def)
      moreover have "html_escape (c # l') = esc_ascii c @ html_escape l'" by (rule html_escape_special [OF 1])
      ultimately show ?thesis using less.hyps [of l'] 4 by simp
    next
      case (2 x u)
      then have "lit_ok u" using 4 by (auto simp: is_line_sep_def lit_ok_high code_def)
      then show ?thesis using less.hyps [of u] 4 2
        by (simp add: html_escape_line_sep lit_ok_line_sep del: html_escape.simps(2))
    next
      case 3
      then show ?thesis using less.hyps [of l'] 4 by (simp add: lit_ok_plain del: html_escape.simps(2))
    qed
  qed simp
qed

lemma html_escape_esc_ascii: "code c < 128 \<Longrightarrow> html_escape (esc_ascii c @ l) = esc_ascii c @ html_escape l"
proof -
  assume c: "code c < 128"
  have "is_hex (hex_digit n)" if "n < 16" for n
    using hex_digit_is_hex [OF that] by (auto simp: is_hex_char_def is_hex_def code_def)
  then have h: "is_hex (hex_digit (code c div 16))" "is_hex (hex_digit (code c mod 16))"
    using c by (simp_all add: less_mult_imp_div_less)
  have z: "is_hex (CHR ''0'')" by (simp add: is_hex_def code_def)
  have p: "html_escape (c # l) = c # html_escape l"
    if "c \<noteq> CHR ''<''" "c \<noteq> CHR ''>''" "c \<noteq> CHR ''&''"
    by (rule html_escape_plain) (use that c in \<open>auto simp: code_def\<close>)
  show ?thesis
    using h z p by (auto simp: esc_ascii_def html_escape_chunk html_escape_u simple_escape_def
                         simp del: html_escape.simps(2))
qed

lemma html_escape_rune:
  assumes "utf8_width (c # cs) = w" and "w \<noteq> 0" and "\<not> code c < 128" and "\<not> is_line_sep (take w (c # cs))"
  shows "html_escape (take w (c # cs) @ l) = take w (c # cs) @ html_escape l"
  using assms
proof (cases rule: utf8_width_cases)
  case (3 b d t)
  then have "html_escape (c # b # d # l) = c # html_escape (b # d # l)"
    using assms by (auto simp: code_def)
  moreover have "html_escape (x # y) = x # html_escape y" if "cont_byte x" for x y
    by (rule html_escape_plain) (use that in \<open>auto simp: cont_byte_def code_def\<close>)
  ultimately show ?thesis using 3 by (simp del: html_escape.simps(2))
next
  case (2 b t)
  have "html_escape (c # y) = c # html_escape y" for y
    by (rule html_escape_plain) (use 2 in \<open>auto simp: code_def\<close>)
  moreover have "html_escape (b # y) = b # html_escape y" for y
    by (rule html_escape_plain) (use 2 in \<open>auto simp: cont_byte_def code_def\<close>)
  ultimately show ?thesis using 2 by (simp del: html_escape.simps(2))
next
  case (4 b d e t)
  have "html_escape (c # y) = c # html_escape y" for y
    by (rule html_escape_plain) (use 4 in \<open>auto simp: code_def\<close>)
  moreover have "html_escape (x # y) = x # html_escape y" if "cont_byte x" for x y
    by (rule html_escape_plain) (use that in \<open>auto simp: cont_byte_def code_def\<close>)
  ultimately show ?thesis using 4 by (simp del: html_escape.simps(2))
qed simp

lemma html_escape_quote_lit [simp]: "html_escape (quote_lit s) = quote_lit s"
proof (induction s rule: quote_lit.induct)
  case (2 c cs)
  have "html_escape (esc_invalid @ l) = esc_invalid @ html_escape l" for l
    by (simp add: esc_invalid_def is_line_sep_def chr_bsl_def)
  moreover have "html_escape (esc_line_sep r @ l) = esc_line_sep r @ html_escape l" for r l
    by (simp add: esc_line_sep_def is_line_sep_def chr_bsl_def)
  ultimately show ?case
    using 2 by (simp add: Let_def html_escape_esc_ascii html_escape_rune del: html_escape.simps(2))
qed simp

subsection \<open>Unquoting what was quoted\<close>

lemma hex_val_hex_digit: "n < 16 \<Longrightarrow> hex_val (hex_digit n) = Some n"
proof -
  assume "n < 16"
  then have "n \<in> set [0..<16]" by simp
  then show ?thesis by (simp add: upt_rec hex_digit_def code_def) (elim disjE; simp)
qed

lemma char_of_code [simp]: "char_of (code c) = c"
  by (simp add: code_def)

lemma hex4_small: "code c < 128 \<Longrightarrow> hex4 (CHR ''0'') (CHR ''0'') (hex_digit (code c div 16)) (hex_digit (code c mod 16)) = code c"
proof -
  assume "code c < 128"
  then have "code c div 16 < 16" and "code c mod 16 < 16" by (simp_all add: less_mult_imp_div_less)
  then show ?thesis
    by (simp add: hex4_def hex_val_hex_digit code_def del: hex_val.simps)
       (simp add: hex_val.simps code_def)
qed

lemma unquote_esc_ascii: "code c < 128 \<Longrightarrow> unquote (esc_ascii c @ l) = c # unquote l"
proof -
  assume c: "code c < 128"
  have n: "\<not> is_high_sur (code c)" "\<not> is_low_sur (code c)" using c by (simp_all add: is_high_sur_def is_low_sur_def)
  have u: "utf8_encode (code c) = [c]" using c by (simp add: utf8_encode_def)
  show ?thesis
    using c n u by (auto simp: esc_ascii_def unescape_simple_def hex4_small Let_def chr_bsl_def chr_quote_def)
qed

lemma unquote_line_sep: "is_line_sep r \<Longrightarrow> unquote (esc_line_sep r @ l) = r @ unquote l"
  by (auto simp: is_line_sep_def esc_line_sep_def hex4_def code_def is_high_sur_def is_low_sur_def
      utf8_encode_def char_of_def bit_simps)

lemma unquote_rune:
  assumes "utf8_width (c # cs) = w" and "w \<noteq> 0" and "\<not> code c < 128"
  shows "unquote (take w (c # cs) @ l) = take w (c # cs) @ unquote l"
proof -
  have w: "utf8_width (take w (c # cs) @ l) = w" using assms(1,2) by (rule utf8_width_append)
  have len: "length (take w (c # cs)) = w" using utf8_width_le [of "c # cs"] assms(1) by simp
  obtain v where v: "w = Suc v" using assms(2) by (cases w) auto
  have c: "c \<noteq> chr_bsl" using assms(3) by (auto simp: chr_bsl_def code_def)
  have "length (take v cs) = v" using len v by simp
  then show ?thesis using w c v by (simp add: Let_def)
qed

lemma unquote_quote_lit: "utf8_valid s \<Longrightarrow> unquote (quote_lit s) = s"
proof (induction s rule: quote_lit.induct)
  case (2 c cs)
  define w where "w = utf8_width (c # cs)"
  have w: "w \<noteq> 0" and v: "utf8_valid (drop (w - 1) cs)"
    using "2.prems" by (simp_all add: Let_def w_def)
  have split: "take w (c # cs) @ drop (w - 1) cs = c # cs"
    using w by (cases w) simp_all
  show ?case
  proof (cases "code c < 128")
    case True
    then show ?thesis using 2 v by (simp add: unquote_esc_ascii w_def)
  next
    case False
    have "unquote (quote_lit (drop (w - 1) cs)) = drop (w - 1) cs"
      using "2.IH"(3) [OF refl] False w v by (simp add: w_def)
    then show ?thesis
      using False w split unquote_rune [OF refl, of c cs]
      by (simp add: Let_def w_def [symmetric] unquote_line_sep)
  qed
qed simp

subsection \<open>Printing and parsing again\<close>

definition num_ok :: "string \<Rightarrow> bool" where
  "num_ok l = (scan_number l = Some (l, []))"

fun json_ok :: "nat \<Rightarrow> json \<Rightarrow> bool" where
  "json_ok d (JNum l) = num_ok l"
| "json_ok d (JStr l) = lit_ok l"
| "json_ok 0 (JArr xs) = False"
| "json_ok (Suc d) (JArr xs) = (\<forall>x \<in> set xs. json_ok d x)"
| "json_ok 0 (JObj ms) = False"
| "json_ok (Suc d) (JObj ms) = (\<forall>(k, v) \<in> set ms. lit_ok k \<and> json_ok d v)"
| "json_ok d v = True"

text \<open>What printing does to a value: its literals get HTML-escaped.\<close>

fun json_norm :: "json \<Rightarrow> json" where
  "json_norm (JStr l) = JStr (html_escape l)"
| "json_norm (JArr xs) = JArr (map json_norm xs)"
| "json_norm (JObj ms) = JObj (map (\<lambda>(k, v). (html_escape k, json_norm v)) ms)"
| "json_norm v = v"

lemma num_okD: "num_ok l \<Longrightarrow> num_delim r \<Longrightarrow> scan_number (l @ r) = Some (l, r)"
  unfolding num_ok_def by (rule scan_number_split(2))

lemma scan_number_num_ok: "scan_number s = Some (l, r) \<Longrightarrow> num_ok l"
  using scan_number_split(2) [of s l r "[]"] by (simp add: num_ok_def num_delim_def)

text \<open>Accepted text yields a well-formed value.\<close>

lemma jparse_ok:
  shows "jvalue n d s = Some (v, r) \<Longrightarrow> json_ok d v"
    and "jelems n d s = Some (vs, r) \<Longrightarrow> \<forall>v \<in> set vs. json_ok d v"
    and "jmembers n d s = Some (ms, r) \<Longrightarrow> \<forall>(k, v) \<in> set ms. lit_ok k \<and> json_ok d v"
proof (induction n d s and n d s and n d s arbitrary: v r and vs r and ms r
       rule: jvalue_jelems_jmembers.induct)
  case (2 n d s)
  then show ?case
    by (cases d) (fastforce simp: scan_word_def dest: scan_lit_lit_ok scan_number_num_ok
                  split: list.splits if_splits)+
next
  case (4 n d s)
  then show ?case by (fastforce split: list.splits if_splits option.splits prod.splits)
next
  case (6 n d s)
  then show ?case
    by (fastforce dest: scan_lit_lit_ok split: list.splits if_splits option.splits prod.splits)
qed auto

lemma json_parse_ok: "json_parse s = Some v \<Longrightarrow> json_ok max_nesting v"
  unfolding json_parse_def by (auto simp del: jvalue.simps intro: jparse_ok(1) split: option.splits if_splits)

text \<open>\<open>reads t v d\<close>: the text \<open>t\<close> reads as \<open>v\<close> wherever a value of nesting \<open>d\<close> is allowed.\<close>

definition reads :: "string \<Rightarrow> json \<Rightarrow> nat \<Rightarrow> bool" where
  "reads t v d \<longleftrightarrow>
     (\<forall>n r. 2 * length (t @ r) < n \<longrightarrow> num_delim r \<longrightarrow> jvalue n d (t @ r) = Some (v, r))"

lemma readsI:
  assumes "\<And>n r. 2 * length (t @ r) \<le> n \<Longrightarrow> num_delim r \<Longrightarrow> jvalue (Suc n) d (t @ r) = Some (v, r)"
  shows "reads t v d"
  unfolding reads_def
proof (intro allI impI)
  fix n r
  assume "2 * length (t @ r) < n" and "num_delim r"
  then show "jvalue n d (t @ r) = Some (v, r)" using assms [of r "n - 1"] by (cases n) auto
qed

lemma readsD: "reads t v d \<Longrightarrow> 2 * length (t @ r) < n \<Longrightarrow> num_delim r \<Longrightarrow> jvalue n d (t @ r) = Some (v, r)"
  by (simp add: reads_def)

lemma skip_ws_id [simp]: "\<not> is_ws c \<Longrightarrow> skip_ws (c # cs) = c # cs"
  by (simp add: skip_ws_def)

lemma is_ws_punct [simp]:
  "\<not> is_ws chr_quote" "\<not> is_ws (CHR '','')" "\<not> is_ws (CHR '':'')" "\<not> is_ws (CHR ''['')" "\<not> is_ws (CHR '']'')"
  "\<not> is_ws (CHR ''{'')" "\<not> is_ws (CHR ''}'')"
  by (simp_all add: is_ws_def chr_quote_def)

lemma num_delim_simps [simp]:
  "num_delim []" "num_delim (CHR '','' # r)" "num_delim (CHR '']'' # r)" "num_delim (CHR ''}'' # r)"
  by (simp_all add: num_delim_def is_digit_def code_def)

lemma reads_num:
  assumes "num_ok l"
  shows "reads l (JNum l) d"
proof (rule readsI)
  fix n r
  assume "num_delim r"
  with assms have sc: "scan_number (l @ r) = Some (l, r)" by (rule num_okD)
  obtain c cs where l: "l = c # cs" and c: "is_digit c \<or> c = CHR ''-''"
    using scan_number_split(3) assms unfolding num_ok_def by blast
  have "c \<notin> {chr_quote, CHR ''{'', CHR ''['', CHR ''t'', CHR ''f'', CHR ''n''}" and "\<not> is_ws c"
    using c by (auto simp: is_digit_def code_def chr_quote_def is_ws_def)
  then show "jvalue (Suc n) d (l @ r) = Some (JNum l, r)"
    using sc by (simp add: l)
qed

lemma jvalue_str: "jvalue (Suc n) d (chr_quote # cs) = map_option (\<lambda>(l, r). (JStr l, r)) (scan_lit cs)"
  by (simp add: is_ws_def chr_quote_def)

lemma reads_str: "lit_ok l \<Longrightarrow> reads (quoted l) (JStr (html_escape l)) d"
  by (rule readsI) (simp add: quoted_def jvalue_str lit_okD del: jvalue.simps)

lemma reads_atom:
  "reads ''null'' JNull d" "reads ''true'' (JBool True) d" "reads ''false'' (JBool False) d"
  by (rule readsI, simp add: is_ws_def chr_quote_def scan_word_def)+


text \<open>Lists of elements and of members, by induction on the list.\<close>

lemma jelems_print:
  assumes "list_all2 (\<lambda>t v. reads t v d) (t # ts) vs"
    and "2 * length (comma_sep (t # ts)) + 2 * length r + 3 < n"
  shows "jelems n d (comma_sep (t # ts) @ CHR '']'' # r) = Some (vs, r)"
  using assms
proof (induction ts arbitrary: t vs n)
  case Nil
  then obtain v m where v: "vs = [v]" "reads t v d" and n: "n = Suc m"
    by (cases n) (auto simp: list_all2_Cons1)
  have "jvalue m d (t @ CHR '']'' # r) = Some (v, CHR '']'' # r)"
    by (rule readsD [OF v(2)]) (use Nil.prems(2) n in simp_all)
  then show ?case using v n by (simp add: is_ws_def)
next
  case (Cons u us)
  then obtain v vs' m where v: "vs = v # vs'" "reads t v d" and n: "n = Suc m"
    and rest: "list_all2 (\<lambda>t v. reads t v d) (u # us) vs'"
    by (cases n) (auto simp: list_all2_Cons1)
  have "jvalue m d (t @ CHR '','' # (comma_sep (u # us) @ CHR '']'' # r)) =
          Some (v, CHR '','' # (comma_sep (u # us) @ CHR '']'' # r))"
    by (rule readsD [OF v(2)]) (use Cons.prems(2) n in simp_all)
  moreover have "jelems m d (comma_sep (u # us) @ CHR '']'' # r) = Some (vs', r)"
    by (rule Cons.IH [OF rest]) (use Cons.prems(2) n in simp)
  ultimately show ?case using v n by simp
qed

definition member_text :: "string \<times> string \<Rightarrow> string" where
  "member_text kt = quoted (fst kt) @ CHR '':'' # snd kt"

lemma jmembers_step:
  assumes "lit_ok k" and "reads t v d" and "num_delim (e # es)"
    and "2 * length (member_text (k, t)) + 2 * length (e # es) < m"
    and "e = CHR '','' \<or> e = CHR ''}''"
  shows "jmembers (Suc m) d (member_text (k, t) @ e # es) =
           (if e = CHR '','' then map_option (\<lambda>(ms, r'). ((html_escape k, v) # ms, r')) (jmembers m d es)
            else Some ([(html_escape k, v)], es))"
proof -
  have v: "jvalue m d (t @ e # es) = Some (v, e # es)"
    by (rule readsD [OF assms(2) _ assms(3)]) (use assms(4) in \<open>simp add: member_text_def\<close>)
  have k: "scan_lit (html_escape k @ chr_quote # CHR '':'' # t @ e # es) =
             Some (html_escape k, CHR '':'' # t @ e # es)"
    by (rule lit_okD) (simp add: assms(1))
  show ?thesis
    using v k assms(5) by (auto simp: member_text_def quoted_def)
qed

lemma jmembers_print:
  assumes "list_all2 (\<lambda>(k, t) (k', v). lit_ok k \<and> k' = html_escape k \<and> reads t v d) (kt # kts) kvs"
    and "2 * length (comma_sep (map member_text (kt # kts))) + 2 * length r + 3 < n"
  shows "jmembers n d (comma_sep (map member_text (kt # kts)) @ CHR ''}'' # r) = Some (kvs, r)"
  using assms
proof (induction kts arbitrary: kt kvs n)
  case Nil
  obtain k t where kt: "kt = (k, t)" by fastforce
  with Nil obtain v m where v: "kvs = [(html_escape k, v)]" "lit_ok k" "reads t v d" and n: "n = Suc m"
    by (cases n) (auto simp: list_all2_Cons1)
  then show ?case
    using jmembers_step [OF v(2,3), of "CHR ''}''" r m] Nil.prems(2) kt by simp
next
  case (Cons u us)
  obtain k t where kt: "kt = (k, t)" by fastforce
  with Cons obtain v vs m where v: "kvs = (html_escape k, v) # vs" "lit_ok k" "reads t v d" and n: "n = Suc m"
    and rest: "list_all2 (\<lambda>(k, t) (k', v). lit_ok k \<and> k' = html_escape k \<and> reads t v d) (u # us) vs"
    by (cases n) (auto simp: list_all2_Cons1)
  have "jmembers m d (comma_sep (map member_text (u # us)) @ CHR ''}'' # r) = Some (vs, r)"
    by (rule Cons.IH [OF rest]) (use Cons.prems(2) n in simp)
  then show ?case
    using jmembers_step [OF v(2,3), of "CHR '',''" "comma_sep (map member_text (u # us)) @ CHR ''}'' # r" m]
      Cons.prems(2) kt v n by simp
qed


lemma json_print_start:
  "json_ok d v \<Longrightarrow> \<exists>c cs. json_print v = c # cs \<and> \<not> is_ws c \<and> c \<noteq> CHR '']''"
proof (cases v)
  case (JNum l)
  assume "json_ok d v"
  then have "scan_number l = Some (l, [])" using JNum by (simp add: num_ok_def)
  from scan_number_split(3) [OF this]
  obtain c cs where "l = c # cs" and "is_digit c \<or> c = CHR ''-''" by blast
  then show ?thesis using JNum by (auto simp: is_ws_def is_digit_def code_def)
qed (auto simp: is_ws_def quoted_def chr_quote_def)

lemma reads_arr:
  assumes "\<And>x. x \<in> set xs \<Longrightarrow> reads (json_print x) (json_norm x) d \<and> json_ok d x"
  shows "reads (json_print (JArr xs)) (JArr (map json_norm xs)) (Suc d)"
proof (cases xs)
  case Nil
  show ?thesis by (rule readsI) (simp add: Nil chr_quote_def)
next
  case (Cons y ys)
  show ?thesis
  proof (rule readsI)
    fix n r
    let ?t = "comma_sep (map json_print xs)"
    assume n: "2 * length (json_print (JArr xs) @ r) \<le> n"
    have l2: "list_all2 (\<lambda>t v. reads t v d) (json_print y # map json_print ys) (map json_norm xs)"
      using assms Cons by (auto simp: list_all2_conv_all_nth nth_Cons split: nat.splits)
    have "jelems n d (?t @ CHR '']'' # r) = Some (map json_norm xs, r)"
      using jelems_print [OF l2, of r n] n Cons by simp
    moreover obtain c cs where "json_print y = c # cs" "\<not> is_ws c" "c \<noteq> CHR '']''"
      using json_print_start [of d y] assms Cons by auto
    then have "\<exists>cs. ?t = c # cs" by (cases ys) (simp_all add: Cons)
    ultimately show "jvalue (Suc n) (Suc d) (json_print (JArr xs) @ r) = Some (JArr (map json_norm xs), r)"
      using \<open>\<not> is_ws c\<close> \<open>c \<noteq> CHR '']''\<close> by (auto simp: chr_quote_def)
  qed
qed

lemma list_all2_refl_on: "(\<And>x. x \<in> set xs \<Longrightarrow> P x x) \<Longrightarrow> list_all2 P xs xs"
  by (induction xs) auto

lemma reads_obj:
  assumes "\<And>k x. (k, x) \<in> set ms \<Longrightarrow> reads (json_print x) (json_norm x) d \<and> lit_ok k"
  shows "reads (json_print (JObj ms)) (json_norm (JObj ms)) (Suc d)"
proof (cases ms)
  case Nil
  show ?thesis by (rule readsI) (simp add: Nil chr_quote_def)
next
  case (Cons y ys)
  show ?thesis
  proof (rule readsI)
    fix n r
    let ?kts = "map (\<lambda>(k, v). (k, json_print v)) ms"
    let ?out = "map (\<lambda>(k, v). (html_escape k, json_norm v)) ms"
    assume n: "2 * length (json_print (JObj ms) @ r) \<le> n"
    have txt_eq: "json_print (JObj ms) = CHR ''{'' # comma_sep (map member_text ?kts) @ ''}''"
      by (simp add: member_text_def comp_def case_prod_unfold)
    obtain kt kts' where kts: "?kts = kt # kts'" using Cons by simp
    have l2: "list_all2 (\<lambda>(k, t) (k', v). lit_ok k \<and> k' = html_escape k \<and> reads t v d) ?kts ?out"
      using assms by (auto simp: list_all2_map1 list_all2_map2 intro!: list_all2_refl_on)
    have "2 * length (comma_sep (map member_text ?kts)) + 2 * length r + 3 < n"
      using n unfolding txt_eq by simp
    then have "jmembers n d (comma_sep (map member_text ?kts) @ CHR ''}'' # r) = Some (?out, r)"
      using l2 unfolding kts by (intro jmembers_print) simp_all
    moreover have "\<exists>cs. comma_sep (map member_text ?kts) = chr_quote # cs"
      by (cases ys) (simp_all add: Cons member_text_def quoted_def case_prod_unfold)
    ultimately show "jvalue (Suc n) (Suc d) (json_print (JObj ms) @ r) = Some (json_norm (JObj ms), r)"
      unfolding txt_eq by (auto simp: chr_quote_def is_ws_def)
  qed
qed

theorem reads_json_print: "json_ok d v \<Longrightarrow> reads (json_print v) (json_norm v) d"
proof (induction v arbitrary: d)
  case (JArr xs)
  then show ?case by (cases d) (auto intro!: reads_arr simp del: json_print.simps)
next
  case (JObj ms)
  then obtain e where d: "d = Suc e" by (cases d) auto
  have "reads (json_print x) (json_norm x) e \<and> lit_ok k" if "(k, x) \<in> set ms" for k x
    using that JObj.IH [of "(k, x)" x e] JObj.prems d by auto
  then show ?case unfolding d by (rule reads_obj)
next
  case (JBool b)
  then show ?case using reads_atom by (cases b) simp_all
qed (auto simp: reads_num reads_str reads_atom [simplified])

text \<open>
  A well-formed value prints to text that parses, to the same value with its literals escaped.
\<close>

theorem json_parse_print:
  assumes "json_ok max_nesting v"
  shows "json_parse (json_print v) = Some (json_norm v)"
proof -
  have "jvalue (Suc (2 * length (json_print v))) max_nesting (json_print v @ []) = Some (json_norm v, [])"
    by (rule readsD [OF reads_json_print [OF assms]]) simp_all
  then show ?thesis by (simp add: json_parse_def skip_ws_def del: jvalue.simps)
qed

lemma json_valid_print: "json_ok max_nesting v \<Longrightarrow> json_valid (json_print v)"
  by (simp add: json_valid_def json_parse_print)

lemma json_ok_mono: "json_ok d v \<Longrightarrow> d \<le> e \<Longrightarrow> json_ok e v"
proof (induction d v arbitrary: e rule: json_ok.induct)
  case (4 d xs)
  then show ?case by (cases e) auto
next
  case (6 d ms)
  then show ?case by (cases e) fastforce+
qed auto

subsection \<open>Values the plugin builds\<close>

lemma json_ok_jstr [simp]: "json_ok d (jstr s)"
  by (simp add: jstr_def)

lemma json_norm_jstr [simp]: "json_norm (jstr s) = jstr s"
  by (simp add: jstr_def)

lemma nat_str_digits: "nat_str n \<noteq> [] \<and> (\<forall>c \<in> set (nat_str n). is_digit c)
    \<and> (n \<noteq> 0 \<longrightarrow> hd (nat_str n) \<noteq> CHR ''0'') \<and> (n = 0 \<longrightarrow> nat_str n = ''0'')"
proof (induction n rule: nat_str.induct)
  case (1 n)
  have dig: "is_digit (char_of (48 + k))" if "k < 10" for k :: nat
    using that by (simp add: is_digit_def code_def)
  show ?case
  proof (cases "n < 10")
    case True
    then have "n \<in> set [0..<10]" by simp
    then show ?thesis using True dig [of n] by (subst (1 2 3 4) nat_str.simps) (auto simp: upt_rec char_of_def bit_simps)
  next
    case False
    then show ?thesis using "1" dig [of "n mod 10"] by (subst (1 2 3 4) nat_str.simps) auto
  qed
qed

lemma num_ok_nat_str [simp]: "num_ok (nat_str n)"
proof -
  obtain c cs where s: "nat_str n = c # cs" using nat_str_digits [of n] by (cases "nat_str n") auto
  have all: "takeWhile is_digit (c # cs) = c # cs" "dropWhile is_digit (c # cs) = []"
    using nat_str_digits [of n] s by (simp_all add: takeWhile_eq_all_conv)
  have m: "c \<noteq> CHR ''-''" using nat_str_digits [of n] s by (auto simp: is_digit_def code_def)
  have "scan_int (c # cs) = Some (c # cs, [])"
    using nat_str_digits [of n] s all by (cases "n = 0") (auto simp: scan_int_def take_digits_def)
  then show ?thesis using m by (simp add: num_ok_def s scan_number_def scan_frac_def scan_exp_def)
qed

lemma json_ok_jnat [simp]: "json_ok d (jnat n)"
  by (simp add: jnat_def)

lemma json_norm_jnat [simp]: "json_norm (jnat n) = jnat n"
  by (simp add: jnat_def)

lemma json_ok_jobj: "json_ok (Suc d) (jobj ms) \<longleftrightarrow> (\<forall>(k, v) \<in> set ms. json_ok d v)"
  by (auto simp: jobj_def)

lemma json_norm_jobj [simp]: "json_norm (jobj ms) = jobj (map (\<lambda>(k, v). (k, json_norm v)) ms)"
  by (auto simp: jobj_def)

end
