(* ===== verification/Go_Decode.thy ===== *)
theory Go_Decode
  imports Go_Json_Laws
begin

section \<open>Decoding JSON into Go structs, maps and interfaces\<close>

text \<open>
  \<open>json.Unmarshal\<close> of a text into the targets the plugin uses. A struct is decoded member by
  member: a key selects the field whose name it equals under \<open>encoding/json\<close>'s case folding,
  \<open>null\<close> leaves a string or a slice at its current value, a value of another kind is an error and
  an unknown key is skipped. A \<open>map[string]json.RawMessage\<close> keeps the last of several members
  with one key. Decoding into \<open>any\<close> fails only on a number that overflows \<open>float64\<close>.
\<close>

declare quote_lit.simps [simp del] unquote.simps [simp del] html_escape.simps [simp del] utf8_valid.simps(2) [simp del]

subsection \<open>Field names\<close>

text \<open>
  \<open>foldName\<close>, as far as it can meet an ASCII field name: letters fold to upper case, and so do
  the two non-ASCII runes that fold to an ASCII letter, the Kelvin sign and the long s.
\<close>

fun fold_name :: "string \<Rightarrow> string" where
  "fold_name [] = []"
| "fold_name (c # cs) =
     (if 97 \<le> code c \<and> code c \<le> 122 then char_of (code c - 32) # fold_name cs
      else if c = CHR 0xC5 \<and> take 1 cs = [CHR 0xBF] then CHR ''S'' # fold_name (drop 1 cs)
      else if c = CHR 0xE2 \<and> take 2 cs = [CHR 0x84, CHR 0xAA] then CHR ''K'' # fold_name (drop 2 cs)
      else c # fold_name cs)"

definition key_is :: "string \<Rightarrow> string \<Rightarrow> bool" where
  "key_is name lit = (fold_name (unquote lit) = fold_name name)"

subsection \<open>Targets\<close>

definition json_unmarshal :: "string \<Rightarrow> json go_result" where
  "json_unmarshal s = (case json_parse s of Some v \<Rightarrow> Ok v | None \<Rightarrow> Err ''invalid JSON'')"

definition type_error :: "'a go_result" where
  "type_error = Err ''json: cannot unmarshal value''"

text \<open>\<open>dec_field name dec cur ms\<close>: the value of a field after the members \<open>ms\<close>.\<close>

fun dec_field :: "string \<Rightarrow> ('a \<Rightarrow> json \<Rightarrow> 'a go_result) \<Rightarrow> 'a \<Rightarrow> (string \<times> json) list \<Rightarrow> 'a go_result" where
  "dec_field name dec cur [] = Ok cur"
| "dec_field name dec cur ((k, v) # ms) =
     (if key_is name k then go_bind (dec cur v) (\<lambda>c. dec_field name dec c ms)
      else dec_field name dec cur ms)"

fun dec_string :: "string \<Rightarrow> json \<Rightarrow> string go_result" where
  "dec_string cur (JStr l) = Ok (unquote l)"
| "dec_string cur JNull = Ok cur"
| "dec_string cur v = type_error"

fun dec_bool :: "bool \<Rightarrow> json \<Rightarrow> bool go_result" where
  "dec_bool cur (JBool b) = Ok b"
| "dec_bool cur JNull = Ok cur"
| "dec_bool cur v = type_error"

definition dec_raw :: "json option \<Rightarrow> json \<Rightarrow> json option go_result" where
  "dec_raw cur v = Ok (Some v)"

fun dec_struct :: "((string \<times> json) list \<Rightarrow> 'a go_result) \<Rightarrow> 'a \<Rightarrow> json \<Rightarrow> 'a go_result" where
  "dec_struct f cur (JObj ms) = f ms"
| "dec_struct f cur JNull = Ok cur"
| "dec_struct f cur v = type_error"

fun dec_slice :: "(json \<Rightarrow> 'a go_result) \<Rightarrow> 'a list \<Rightarrow> json \<Rightarrow> 'a list go_result" where
  "dec_slice f cur (JArr xs) = go_mapM f xs"
| "dec_slice f cur JNull = Ok []"
| "dec_slice f cur v = type_error"

text \<open>\<open>map[string]json.RawMessage\<close>, as an association list with distinct keys.\<close>

fun map_put :: "string \<Rightarrow> 'a \<Rightarrow> (string \<times> 'a) list \<Rightarrow> (string \<times> 'a) list" where
  "map_put k v [] = [(k, v)]"
| "map_put k v ((k', v') # m) = (if k = k' then (k, v) # m else (k', v') # map_put k v m)"

fun dec_raw_map :: "json \<Rightarrow> (string \<times> json) list go_result" where
  "dec_raw_map (JObj ms) = Ok (fold (\<lambda>(k, v). map_put (unquote k) v) ms [])"
| "dec_raw_map JNull = Ok []"
| "dec_raw_map v = type_error"

text \<open>Decoding into \<open>any\<close>: every number must fit \<open>float64\<close> (\<open>strconv.ParseFloat\<close>'s range error).\<close>

fun digits_val :: "nat \<Rightarrow> string \<Rightarrow> nat" where
  "digits_val acc [] = acc"
| "digits_val acc (c # cs) = digits_val (acc * 10 + (code c - 48)) cs"

definition num_mantissa :: "string \<Rightarrow> string \<times> string" where
  "num_mantissa l =
     (let m = takeWhile (\<lambda>c. c \<noteq> CHR ''e'' \<and> c \<noteq> CHR ''E'') (if take 1 l = ''-'' then drop 1 l else l)
      in (takeWhile is_digit m, drop 1 (dropWhile is_digit m)))"

definition num_exponent :: "string \<Rightarrow> int" where
  "num_exponent l =
     (let e = drop 1 (dropWhile (\<lambda>c. c \<noteq> CHR ''e'' \<and> c \<noteq> CHR ''E'') l)
      in if take 1 e = ''-'' then - int (digits_val 0 (drop 1 e))
         else if take 1 e = ''+'' then int (digits_val 0 (drop 1 e)) else int (digits_val 0 e))"

definition float64_overflow :: "string \<Rightarrow> bool" where
  "float64_overflow l =
     (let (i, f) = num_mantissa l; m = digits_val 0 (i @ f); e = num_exponent l - int (length f);
          limit = 2 ^ 1024 - 2 ^ 970
      in if 0 \<le> e then limit \<le> m * 10 ^ nat e else limit * 10 ^ nat (- e) \<le> m)"

fun any_ok :: "json \<Rightarrow> bool" where
  "any_ok (JNum l) = (\<not> float64_overflow l)"
| "any_ok (JArr xs) = (\<forall>x \<in> set xs. any_ok x)"
| "any_ok (JObj ms) = (\<forall>(k, x) \<in> set ms. any_ok x)"
| "any_ok v = True"

definition dec_any :: "json \<Rightarrow> json go_result" where
  "dec_any v = (if any_ok v then Ok v else type_error)"

subsection \<open>Marshalling maps\<close>

text \<open>\<open>json.Marshal\<close> writes a map with its keys in byte order.\<close>

definition marshal_raw_map :: "(string \<times> json) list \<Rightarrow> json" where
  "marshal_raw_map m = jobj (sort_key fst m)"

subsection \<open>Facts\<close>

lemma json_unmarshal_print [decode_simps]:
  "json_ok max_nesting v \<Longrightarrow> json_unmarshal (json_print v) = Ok (json_norm v)"
  by (simp add: json_unmarshal_def json_parse_print)

lemma json_unmarshal_ok: "json_unmarshal s = Ok v \<Longrightarrow> json_ok max_nesting v"
  by (auto simp: json_unmarshal_def dest: json_parse_ok split: option.splits)

lemma json_unmarshal_no_panic [simp]: "\<not> is_panic (json_unmarshal s)"
  by (simp add: json_unmarshal_def split: option.split)

lemma type_error_simps [simp]: "type_error \<noteq> Ok x" "\<not> is_panic type_error" "go_bind type_error f = type_error"
  by (simp_all add: type_error_def)

lemma set_map_put: "set (map_put k v m) \<subseteq> insert (k, v) (set m)"
  by (induction m rule: map_put.induct) auto

lemma map_of_map_put [simp]: "map_of (map_put k v m) = (map_of m)(k \<mapsto> v)"
  by (induction k v m rule: map_put.induct) (auto simp: fun_eq_iff)

lemma fst_map_put: "fst ` set (map_put k v m) = insert k (fst ` set m)"
  by (induction k v m rule: map_put.induct) auto

lemma distinct_map_put: "distinct (map fst m) \<Longrightarrow> distinct (map fst (map_put k v m))"
proof (induction k v m rule: map_put.induct)
  case (2 k v k' v' m)
  then show ?case using fst_map_put [of k v m] by auto
qed simp

lemma dec_raw_map_distinct: "dec_raw_map v = Ok m \<Longrightarrow> distinct (map fst m)"
proof -
  have "distinct (map fst a) \<Longrightarrow> distinct (map fst (fold (\<lambda>(k, v). map_put (unquote k) v) ms a))" for ms and a :: "(string \<times> json) list"
    by (induction ms arbitrary: a) (auto simp: distinct_map_put)
  then show "dec_raw_map v = Ok m \<Longrightarrow> distinct (map fst m)"
    by (cases v rule: dec_raw_map.cases) auto
qed

lemma set_fold_map_put:
  "set (fold (\<lambda>(k, v). map_put (unquote k) v) ms a) \<subseteq> set a \<union> (\<lambda>(k, v). (unquote k, v)) ` set ms"
proof (induction ms arbitrary: a)
  case (Cons p ms)
  obtain k v where p: "p = (k, v)" by (cases p)
  show ?case
    using Cons.IH [of "map_put (unquote k) v a"] set_map_put [of "unquote k" v a]
    unfolding p by (simp del: map_of_map_put) blast
qed simp

lemma dec_raw_map_values:
  assumes "dec_raw_map (JObj ms) = Ok m" shows "snd ` set m \<subseteq> snd ` set ms"
proof -
  have "set m \<subseteq> (\<lambda>(k, v). (unquote k, v)) ` set ms"
    using assms set_fold_map_put [of ms "[]"] by auto
  then have "snd ` set m \<subseteq> snd ` ((\<lambda>(k, v). (unquote k, v)) ` set ms)" by (rule image_mono)
  also have "\<dots> = snd ` set ms" by (simp add: image_image case_prod_unfold)
  finally show ?thesis .
qed

lemma json_ok_marshal_raw_map: "(\<And>k v. (k, v) \<in> set m \<Longrightarrow> json_ok d v) \<Longrightarrow> json_ok (Suc d) (marshal_raw_map m)"
  by (auto simp: marshal_raw_map_def json_ok_jobj)

text \<open>
  A key written by \<open>json.Marshal\<close> selects the field of that name and no other. Field names consist of
  ASCII letters, digits and underscores; \<open>plain_key\<close> are those without capitals.
\<close>

definition plain_char :: "char \<Rightarrow> bool" where
  "plain_char c = (97 \<le> code c \<and> code c \<le> 122 \<or> c = CHR ''_'')"

definition plain_key :: "string \<Rightarrow> bool" where
  "plain_key s = (\<forall>c \<in> set s. plain_char c)"

lemma plain_char_code: "plain_char c \<Longrightarrow> code c < 128"
  by (auto simp: plain_char_def code_def)

lemma utf8_valid_ascii: "\<forall>c \<in> set s. code c < 128 \<Longrightarrow> utf8_valid s"
  by (induction s) (auto simp: Let_def utf8_valid.simps)

lemma code_char_of: "n < 256 \<Longrightarrow> code (char_of n) = n"
  by (simp add: code_def)

lemma code_underscore: "code (CHR ''_'') = 95"
  by code_simp

lemma fold_plain: "plain_key s \<Longrightarrow> fold_name s = map (\<lambda>c. if c = CHR ''_'' then c else char_of (code c - 32)) s"
  by (induction s) (auto simp: plain_key_def plain_char_def code_def)

lemma plain_fold_inject:
  assumes "plain_key s" and "plain_key t" and "fold_name s = fold_name t" shows "s = t"
proof -
  let ?up = "\<lambda>c. if c = CHR ''_'' then c else char_of (code c - 32)"
  have "inj_on ?up {c. plain_char c}"
  proof (rule inj_onI)
    fix a b assume a: "a \<in> {c. plain_char c}" and b: "b \<in> {c. plain_char c}" and eq: "?up a = ?up b"
    have up: "code (?up c) = code c - 32 \<and> 97 \<le> code c \<and> code c \<le> 122 \<or> code (?up c) = 95 \<and> code c = 95"
      if "plain_char c" for c
      using that by (auto simp: plain_char_def code_char_of code_underscore)
    have "code (?up a) = code (?up b)" by (simp only: eq)
    moreover note up [OF a [simplified]] up [OF b [simplified]]
    ultimately have "code a = code b" by linarith
    then show "a = b" by (simp add: code_def)
  qed
  moreover have "set s \<union> set t \<subseteq> {c. plain_char c}"
    using assms(1,2) by (auto simp: plain_key_def)
  ultimately have inj: "inj_on ?up (set s \<union> set t)" by (rule inj_on_subset)
  have "map ?up s = map ?up t" using assms(3) unfolding fold_plain [OF assms(1)] fold_plain [OF assms(2)] .
  then show ?thesis using inj by (rule map_inj_on)
qed

lemma key_is_plain [decode_simps]:
  assumes "plain_key k" and "plain_key n" shows "key_is n (quote_lit k) \<longleftrightarrow> k = n"
proof -
  have "utf8_valid k"
    using assms by (intro utf8_valid_ascii) (auto simp: plain_key_def dest: plain_char_code)
  then have "key_is n (quote_lit k) \<longleftrightarrow> fold_name k = fold_name n"
    by (simp add: key_is_def unquote_quote_lit)
  then show ?thesis using plain_fold_inject [OF assms] by auto
qed

definition known_keys :: "string list" where
  "known_keys = [''role'', ''content'', ''tool_calls'', ''tool_call_id'', ''id'', ''type'', ''function'', ''name'',
     ''arguments'', ''text'', ''model'', ''stream'', ''messages'', ''tools'', ''description'', ''parameters'',
     ''access_token'', ''refresh_token'', ''expired'', ''error'', ''code'', ''message'']"

lemma known_keys_plain: "list_all plain_key known_keys"
  by code_simp

lemma plain_keys [decode_simps]: "k \<in> set known_keys \<Longrightarrow> plain_key k"
  using known_keys_plain by (simp add: list_all_iff)

lemma known_keys_set: "set known_keys = {''role'', ''content'', ''tool_calls'', ''tool_call_id'', ''id'', ''type'', ''function'', ''name'',
     ''arguments'', ''text'', ''model'', ''stream'', ''messages'', ''tools'', ''description'', ''parameters'',
     ''access_token'', ''refresh_token'', ''expired'', ''error'', ''code'', ''message''}"
  by (simp add: known_keys_def)

lemma known_key_simps [decode_simps]:
  "''role'' \<in> set known_keys" "''content'' \<in> set known_keys" "''tool_calls'' \<in> set known_keys"
  "''tool_call_id'' \<in> set known_keys" "''id'' \<in> set known_keys" "''type'' \<in> set known_keys"
  "''function'' \<in> set known_keys" "''name'' \<in> set known_keys" "''arguments'' \<in> set known_keys"
  "''text'' \<in> set known_keys" "''model'' \<in> set known_keys" "''stream'' \<in> set known_keys"
  "''messages'' \<in> set known_keys" "''tools'' \<in> set known_keys" "''description'' \<in> set known_keys"
  "''parameters'' \<in> set known_keys" "''access_token'' \<in> set known_keys" "''refresh_token'' \<in> set known_keys"
  "''expired'' \<in> set known_keys" "''error'' \<in> set known_keys" "''code'' \<in> set known_keys"
  "''message'' \<in> set known_keys"
  by (simp_all only: known_keys_set insert_iff simp_thms)

lemma dec_string_jstr [decode_simps]: "utf8_valid s \<Longrightarrow> dec_string cur (jstr s) = Ok s"
  by (simp add: jstr_def unquote_quote_lit)

lemma dec_struct_jobj [decode_simps]:
  "dec_struct f cur (jobj ms) = f (map (\<lambda>(k, v). (quote_lit k, v)) ms)"
  by (simp add: jobj_def)

lemma dec_string_field_no_panic [simp]: "\<not> is_panic (dec_field n dec_string cur ms)"
proof (induction n "dec_string" cur ms rule: dec_field.induct)
  case (2 name cur k v ms)
  have "\<not> is_panic (dec_string cur v)" by (cases v) auto
  then show ?case using 2 by (auto simp: is_panic_go_bind)
qed simp

lemma dec_struct_no_panic: "(\<And>ms. \<not> is_panic (f ms)) \<Longrightarrow> \<not> is_panic (dec_struct f cur v)"
  by (cases v) simp_all

end
