(* ===== verification/Chat_Format.thy ===== *)
theory Chat_Format
  imports Go_Decode
begin

section \<open>The chat-completions format\<close>

text \<open>
  \<open>internal/executor/chatformat.go\<close>: the request and response structs with their JSON decoding and
  encoding, the flattening of a message's content, and the streaming chunk sequence of a completed
  turn. A \<open>json.RawMessage\<close> field is the JSON value it holds, \<open>None\<close> when the key is absent.
\<close>

subsection \<open>Requests\<close>

record chat_tool_call_func =
  tcf_name :: string
  tcf_arguments :: string

record chat_tool_call =
  tc_id :: string
  tc_type :: string
  tc_function :: chat_tool_call_func

record chat_message =
  cm_role :: string
  cm_content :: string
  cm_tool_calls :: "chat_tool_call list"
  cm_tool_call_id :: string

record chat_tool_definition_func =
  tdf_name :: string
  tdf_description :: string
  tdf_parameters :: "json option"

record chat_tool_definition =
  td_type :: string
  td_function :: chat_tool_definition_func

record chat_completions_request =
  cr_model :: string
  cr_stream :: bool
  cr_messages :: "chat_message list"
  cr_tools :: "chat_tool_definition list"

definition zero_tool_call_func :: chat_tool_call_func where
  "zero_tool_call_func = \<lparr>tcf_name = [], tcf_arguments = []\<rparr>"

definition zero_tool_call :: chat_tool_call where
  "zero_tool_call = \<lparr>tc_id = [], tc_type = [], tc_function = zero_tool_call_func\<rparr>"

definition zero_message :: chat_message where
  "zero_message = \<lparr>cm_role = [], cm_content = [], cm_tool_calls = [], cm_tool_call_id = []\<rparr>"

definition zero_tool_definition_func :: chat_tool_definition_func where
  "zero_tool_definition_func = \<lparr>tdf_name = [], tdf_description = [], tdf_parameters = None\<rparr>"

definition zero_tool_definition :: chat_tool_definition where
  "zero_tool_definition = \<lparr>td_type = [], td_function = zero_tool_definition_func\<rparr>"

subsection \<open>Decoding\<close>

definition dec_tool_call_func :: "chat_tool_call_func \<Rightarrow> json \<Rightarrow> chat_tool_call_func go_result" where
  "dec_tool_call_func cur = dec_struct (\<lambda>ms.
     go_bind (dec_field ''name'' dec_string (tcf_name cur) ms) (\<lambda>n.
     go_bind (dec_field ''arguments'' dec_string (tcf_arguments cur) ms) (\<lambda>a.
     Ok \<lparr>tcf_name = n, tcf_arguments = a\<rparr>))) cur"

definition dec_tool_call :: "json \<Rightarrow> chat_tool_call go_result" where
  "dec_tool_call = dec_struct (\<lambda>ms.
     go_bind (dec_field ''id'' dec_string [] ms) (\<lambda>i.
     go_bind (dec_field ''type'' dec_string [] ms) (\<lambda>t.
     go_bind (dec_field ''function'' dec_tool_call_func zero_tool_call_func ms) (\<lambda>f.
     Ok \<lparr>tc_id = i, tc_type = t, tc_function = f\<rparr>)))) zero_tool_call"

text \<open>The content-parts loop: the text of each part that has one, separated by newlines.\<close>

fun join_parts :: "string \<Rightarrow> string list \<Rightarrow> string" where
  "join_parts b [] = b"
| "join_parts b (t # ts) =
     (if t = [] then join_parts b ts
      else join_parts ((if b \<noteq> [] then b @ [CHR 0x0A] else b) @ t) ts)"

definition dec_part_text :: "json \<Rightarrow> string go_result" where
  "dec_part_text = dec_struct (\<lambda>ms.
     go_bind (dec_field ''type'' dec_string [] ms) (\<lambda>_. dec_field ''text'' dec_string [] ms)) []"

fun decode_chat_content :: "json option \<Rightarrow> string go_result" where
  "decode_chat_content None = Ok []"
| "decode_chat_content (Some JNull) = Ok []"
| "decode_chat_content (Some (JStr l)) = Ok (unquote l)"
| "decode_chat_content (Some v) =
     wrap_err ''cursor: message content must be a string or an array of content parts''
       (go_bind (dec_slice dec_part_text [] v) (\<lambda>ts. Ok (join_parts [] ts)))"

definition chat_message_unmarshal_json :: "json \<Rightarrow> chat_message go_result" where
  "chat_message_unmarshal_json v =
     go_bind (dec_struct (\<lambda>ms.
         go_bind (dec_field ''role'' dec_string [] ms) (\<lambda>r.
         go_bind (dec_field ''content'' dec_raw None ms) (\<lambda>c.
         go_bind (dec_field ''tool_calls'' (dec_slice dec_tool_call) [] ms) (\<lambda>tcs.
         go_bind (dec_field ''tool_call_id'' dec_string [] ms) (\<lambda>i. Ok (r, c, tcs, i))))))
       ([], None, [], []) v)
     (\<lambda>(r, c, tcs, i). go_bind (decode_chat_content c) (\<lambda>text.
        Ok \<lparr>cm_role = r, cm_content = text, cm_tool_calls = tcs, cm_tool_call_id = i\<rparr>))"

definition dec_tool_definition_func :: "chat_tool_definition_func \<Rightarrow> json \<Rightarrow> chat_tool_definition_func go_result" where
  "dec_tool_definition_func cur = dec_struct (\<lambda>ms.
     go_bind (dec_field ''name'' dec_string (tdf_name cur) ms) (\<lambda>n.
     go_bind (dec_field ''description'' dec_string (tdf_description cur) ms) (\<lambda>d.
     go_bind (dec_field ''parameters'' dec_raw (tdf_parameters cur) ms) (\<lambda>p.
     Ok \<lparr>tdf_name = n, tdf_description = d, tdf_parameters = p\<rparr>)))) cur"

definition dec_tool_definition :: "json \<Rightarrow> chat_tool_definition go_result" where
  "dec_tool_definition = dec_struct (\<lambda>ms.
     go_bind (dec_field ''type'' dec_string [] ms) (\<lambda>t.
     go_bind (dec_field ''function'' dec_tool_definition_func zero_tool_definition_func ms) (\<lambda>f.
     Ok \<lparr>td_type = t, td_function = f\<rparr>))) zero_tool_definition"

definition dec_chat_request :: "json \<Rightarrow> chat_completions_request go_result" where
  "dec_chat_request = dec_struct (\<lambda>ms.
     go_bind (dec_field ''model'' dec_string [] ms) (\<lambda>m.
     go_bind (dec_field ''stream'' dec_bool False ms) (\<lambda>s.
     go_bind (dec_field ''messages'' (dec_slice chat_message_unmarshal_json) [] ms) (\<lambda>msgs.
     go_bind (dec_field ''tools'' (dec_slice dec_tool_definition) [] ms) (\<lambda>ts.
     Ok \<lparr>cr_model = m, cr_stream = s, cr_messages = msgs, cr_tools = ts\<rparr>)))))
     \<lparr>cr_model = [], cr_stream = False, cr_messages = [], cr_tools = []\<rparr>"

subsection \<open>Responses\<close>

record chat_usage =
  cu_prompt_tokens :: nat
  cu_completion_tokens :: nat
  cu_total_tokens :: nat

record chat_error_info =
  ce_message :: string
  ce_type :: string

record chat_choice =
  cc_index :: nat
  cc_message :: chat_message
  cc_finish_reason :: string

record chat_completions_response =
  resp_id :: string
  resp_object :: string
  resp_model :: string
  resp_choices :: "chat_choice list"
  resp_usage :: chat_usage
  resp_error :: "chat_error_info option"

record chat_chunk_delta =
  cd_role :: string
  cd_content :: string
  cd_tool_calls :: "chat_tool_call list"

record chat_chunk_choice =
  ch_index :: nat
  ch_delta :: chat_chunk_delta
  ch_finish_reason :: "string option"

record chat_completion_chunk =
  chunk_id :: string
  chunk_object :: string
  chunk_model :: string
  chunk_choices :: "chat_chunk_choice list"
  chunk_usage :: "chat_usage option"
  chunk_error :: "chat_error_info option"

definition to_stream_chunks :: "chat_completions_response \<Rightarrow> chat_completion_chunk list" where
  "to_stream_chunks r =
     (let (delta, finish) =
        (case resp_choices r of
           [] \<Rightarrow> (\<lparr>cd_role = ''assistant'', cd_content = [], cd_tool_calls = []\<rparr>, ''stop'')
         | c # _ \<Rightarrow>
             (\<lparr>cd_role = ''assistant'', cd_content = cm_content (cc_message c),
               cd_tool_calls = cm_tool_calls (cc_message c)\<rparr>,
              if cc_finish_reason c \<noteq> [] then cc_finish_reason c else ''stop''));
        chunk = (\<lambda>d f u e. \<lparr>chunk_id = resp_id r, chunk_object = ''chat.completion.chunk'',
          chunk_model = resp_model r,
          chunk_choices = [\<lparr>ch_index = 0, ch_delta = d, ch_finish_reason = f\<rparr>],
          chunk_usage = u, chunk_error = e\<rparr>)
      in [chunk delta None None (resp_error r),
          chunk \<lparr>cd_role = [], cd_content = [], cd_tool_calls = []\<rparr> (Some finish)
            (Some (resp_usage r)) None])"

subsection \<open>Encoding\<close>

text \<open>The members that \<open>omitempty\<close> keeps.\<close>

definition omit_empty :: "bool \<Rightarrow> string \<times> json \<Rightarrow> (string \<times> json) list" where
  "omit_empty absent kv = (if absent then [] else [kv])"

definition tool_call_json :: "chat_tool_call \<Rightarrow> json" where
  "tool_call_json t = jobj [(''id'', jstr (tc_id t)), (''type'', jstr (tc_type t)),
     (''function'', jobj [(''name'', jstr (tcf_name (tc_function t))),
                          (''arguments'', jstr (tcf_arguments (tc_function t)))])]"

definition message_json :: "chat_message \<Rightarrow> json" where
  "message_json m = jobj ([(''role'', jstr (cm_role m)), (''content'', jstr (cm_content m))]
     @ omit_empty (cm_tool_calls m = []) (''tool_calls'', JArr (map tool_call_json (cm_tool_calls m)))
     @ omit_empty (cm_tool_call_id m = []) (''tool_call_id'', jstr (cm_tool_call_id m)))"

definition usage_json :: "chat_usage \<Rightarrow> json" where
  "usage_json u = jobj [(''prompt_tokens'', jnat (cu_prompt_tokens u)),
     (''completion_tokens'', jnat (cu_completion_tokens u)), (''total_tokens'', jnat (cu_total_tokens u))]"

definition error_info_json :: "chat_error_info \<Rightarrow> json" where
  "error_info_json e = jobj [(''message'', jstr (ce_message e)), (''type'', jstr (ce_type e))]"

definition choice_json :: "chat_choice \<Rightarrow> json" where
  "choice_json c = jobj [(''index'', jnat (cc_index c)), (''message'', message_json (cc_message c)),
     (''finish_reason'', jstr (cc_finish_reason c))]"

text \<open>A nil slice (no choices were set) is written as \<open>null\<close>.\<close>

definition response_json :: "chat_completions_response \<Rightarrow> json" where
  "response_json r = jobj ([(''id'', jstr (resp_id r)), (''object'', jstr (resp_object r)),
     (''model'', jstr (resp_model r)),
     (''choices'', if resp_choices r = [] then JNull else JArr (map choice_json (resp_choices r))),
     (''usage'', usage_json (resp_usage r))]
     @ (case resp_error r of None \<Rightarrow> [] | Some e \<Rightarrow> [(''error'', error_info_json e)]))"

definition delta_json :: "chat_chunk_delta \<Rightarrow> json" where
  "delta_json d = jobj (omit_empty (cd_role d = []) (''role'', jstr (cd_role d))
     @ omit_empty (cd_content d = []) (''content'', jstr (cd_content d))
     @ omit_empty (cd_tool_calls d = []) (''tool_calls'', JArr (map tool_call_json (cd_tool_calls d))))"

definition chunk_choice_json :: "chat_chunk_choice \<Rightarrow> json" where
  "chunk_choice_json c = jobj [(''index'', jnat (ch_index c)), (''delta'', delta_json (ch_delta c)),
     (''finish_reason'', case ch_finish_reason c of None \<Rightarrow> JNull | Some f \<Rightarrow> jstr f)]"

definition chunk_json :: "chat_completion_chunk \<Rightarrow> json" where
  "chunk_json c = jobj ([(''id'', jstr (chunk_id c)), (''object'', jstr (chunk_object c)),
     (''model'', jstr (chunk_model c)),
     (''choices'', JArr (map chunk_choice_json (chunk_choices c)))]
     @ (case chunk_usage c of None \<Rightarrow> [] | Some u \<Rightarrow> [(''usage'', usage_json u)])
     @ (case chunk_error c of None \<Rightarrow> [] | Some e \<Rightarrow> [(''error'', error_info_json e)]))"

subsection \<open>Encoding and decoding of messages\<close>

text \<open>The texts that survive a trip through \<open>encoding/json\<close> unchanged.\<close>

definition tool_call_utf8 :: "chat_tool_call \<Rightarrow> bool" where
  "tool_call_utf8 t = (utf8_valid (tc_id t) \<and> utf8_valid (tc_type t)
     \<and> utf8_valid (tcf_name (tc_function t)) \<and> utf8_valid (tcf_arguments (tc_function t)))"

definition message_utf8 :: "chat_message \<Rightarrow> bool" where
  "message_utf8 m = (utf8_valid (cm_role m) \<and> utf8_valid (cm_content m)
     \<and> utf8_valid (cm_tool_call_id m) \<and> (\<forall>t \<in> set (cm_tool_calls m). tool_call_utf8 t))"

lemma json_norm_tool_call [simp]: "json_norm (tool_call_json t) = tool_call_json t"
  by (simp add: tool_call_json_def)

lemma json_norm_message [simp]: "json_norm (message_json m) = message_json m"
  by (simp add: message_json_def omit_empty_def comp_def)

lemma json_ok_tool_call [simp]: "json_ok (Suc (Suc d)) (tool_call_json t)"
  by (simp add: tool_call_json_def json_ok_jobj)

lemma json_ok_message [simp]: "json_ok (Suc (Suc (Suc (Suc d)))) (message_json m)"
  by (simp add: message_json_def json_ok_jobj omit_empty_def)

lemma dec_tool_call_json:
  assumes "tool_call_utf8 t" shows "dec_tool_call (tool_call_json t) = Ok t"
  using assms
  by (cases t, cases "tc_function t")
     (simp add: dec_tool_call_def tool_call_json_def dec_tool_call_func_def tool_call_utf8_def
       decode_simps)

lemma dec_tool_calls_json:
  "\<forall>t \<in> set ts. tool_call_utf8 t \<Longrightarrow> go_mapM dec_tool_call (map tool_call_json ts) = Ok ts"
  by (induction ts) (auto simp: dec_tool_call_json)

lemma decode_chat_content_jstr [decode_simps]:
  "utf8_valid s \<Longrightarrow> decode_chat_content (Some (jstr s)) = Ok s"
  by (simp add: jstr_def unquote_quote_lit)

theorem unmarshal_message_json:
  assumes "message_utf8 m" shows "chat_message_unmarshal_json (message_json m) = Ok m"
  using assms
  by (cases m)
     (auto simp: chat_message_unmarshal_json_def message_json_def message_utf8_def omit_empty_def
       dec_raw_def decode_simps dec_tool_calls_json plain_char_def code_def)

lemma join_parts_append: "join_parts b (ts @ us) = join_parts (join_parts b ts) us"
  by (induction b ts rule: join_parts.induct) auto

lemma join_parts_skip: "join_parts b (filter (\<lambda>t. t \<noteq> []) ts) = join_parts b ts"
  by (induction b ts rule: join_parts.induct) auto

end
