(* ===== verification/Schema.thy ===== *)
theory Schema
  imports Prelude
begin

section \<open>The protobuf schema the reflective code walks\<close>

text \<open>
  The message descriptors of \<open>internal/cursorpb/gen/agent.pb.go\<close> that the plugin walks through
  \<open>protoreflect\<close>: the tool-call variants with their results
  (\<open>translate_request.go\<close>, \<open>translate_response.go\<close>), the execution requests and replies
  (\<open>execmessage.go\<close>). Fields are in declaration order, the order of \<open>Descriptor().Fields()\<close>, and
  carry their kind, whether they are repeated, and the oneof they belong to; the oneofs of a
  message are listed with whether they are synthetic (one per proto3 \<open>optional\<close> field).

  A field whose message the code descends into holds that message's descriptor (\<open>KMessage\<close>);
  any other message field holds only its type's name (\<open>KMessageRef\<close>).
\<close>

datatype pkind = KString | KBytes | KScalar string | KMessage mdesc | KMessageRef string
  and pfield = PField (pf_name: string) (pf_kind: pkind) (pf_repeated: bool) (pf_oneof: "string option")
  and mdesc = MD (md_name: string) (md_oneofs: "(string \<times> bool) list") (md_fields: "pfield list")

definition md_ShellSuccess :: mdesc where
  "md_ShellSuccess = MD ''ShellSuccess'' [(''_output_location'', True), (''_shell_id'', True), (''_interleaved_output'', True), (''_pid'', True), (''_ms_to_wait'', True)]
     [PField ''command'' KString False None,
      PField ''working_directory'' KString False None,
      PField ''exit_code'' (KScalar ''int32'') False None,
      PField ''signal'' KString False None,
      PField ''stdout'' KString False None,
      PField ''stderr'' KString False None,
      PField ''execution_time'' (KScalar ''int32'') False None,
      PField ''output_location'' (KMessageRef ''OutputLocation'') False (Some ''_output_location''),
      PField ''shell_id'' (KScalar ''uint32'') False (Some ''_shell_id''),
      PField ''interleaved_output'' KString False (Some ''_interleaved_output''),
      PField ''pid'' (KScalar ''uint32'') False (Some ''_pid''),
      PField ''ms_to_wait'' (KScalar ''int32'') False (Some ''_ms_to_wait'')]"

definition md_ShellFailure :: mdesc where
  "md_ShellFailure = MD ''ShellFailure'' [(''_output_location'', True), (''_interleaved_output'', True), (''_abort_reason'', True)]
     [PField ''command'' KString False None,
      PField ''working_directory'' KString False None,
      PField ''exit_code'' (KScalar ''int32'') False None,
      PField ''signal'' KString False None,
      PField ''stdout'' KString False None,
      PField ''stderr'' KString False None,
      PField ''execution_time'' (KScalar ''int32'') False None,
      PField ''output_location'' (KMessageRef ''OutputLocation'') False (Some ''_output_location''),
      PField ''interleaved_output'' KString False (Some ''_interleaved_output''),
      PField ''abort_reason'' (KScalar ''int32'') False (Some ''_abort_reason''),
      PField ''aborted'' (KScalar ''bool'') False None]"

definition md_ShellRejected :: mdesc where
  "md_ShellRejected = MD ''ShellRejected'' []
     [PField ''command'' KString False None,
      PField ''working_directory'' KString False None,
      PField ''reason'' KString False None,
      PField ''is_readonly'' (KScalar ''bool'') False None]"

definition md_ShellResult :: mdesc where
  "md_ShellResult = MD ''ShellResult'' [(''result'', False), (''_sandbox_policy'', True), (''_is_background'', True), (''_terminals_folder'', True), (''_pid'', True)]
     [PField ''sandbox_policy'' (KMessageRef ''SandboxPolicy'') False (Some ''_sandbox_policy''),
      PField ''is_background'' (KScalar ''bool'') False (Some ''_is_background''),
      PField ''terminals_folder'' KString False (Some ''_terminals_folder''),
      PField ''pid'' (KScalar ''uint32'') False (Some ''_pid''),
      PField ''success'' (KMessage md_ShellSuccess) False (Some ''result''),
      PField ''failure'' (KMessage md_ShellFailure) False (Some ''result''),
      PField ''timeout'' (KMessageRef ''ShellTimeout'') False (Some ''result''),
      PField ''rejected'' (KMessage md_ShellRejected) False (Some ''result''),
      PField ''spawn_error'' (KMessageRef ''ShellSpawnError'') False (Some ''result''),
      PField ''permission_denied'' (KMessageRef ''ShellPermissionDenied'') False (Some ''result'')]"

definition md_ShellToolCall :: mdesc where
  "md_ShellToolCall = MD ''ShellToolCall'' []
     [PField ''args'' (KMessageRef ''ShellArgs'') False None,
      PField ''result'' (KMessage md_ShellResult) False None]"

definition md_DeleteSuccess :: mdesc where
  "md_DeleteSuccess = MD ''DeleteSuccess'' []
     [PField ''path'' KString False None,
      PField ''deleted_file'' KString False None,
      PField ''file_size'' (KScalar ''int64'') False None,
      PField ''prev_content'' KString False None]"

definition md_DeleteRejected :: mdesc where
  "md_DeleteRejected = MD ''DeleteRejected'' []
     [PField ''path'' KString False None,
      PField ''reason'' KString False None]"

definition md_DeleteError :: mdesc where
  "md_DeleteError = MD ''DeleteError'' []
     [PField ''path'' KString False None,
      PField ''error'' KString False None]"

definition md_DeleteResult :: mdesc where
  "md_DeleteResult = MD ''DeleteResult'' [(''result'', False)]
     [PField ''success'' (KMessage md_DeleteSuccess) False (Some ''result''),
      PField ''file_not_found'' (KMessageRef ''DeleteFileNotFound'') False (Some ''result''),
      PField ''not_file'' (KMessageRef ''DeleteNotFile'') False (Some ''result''),
      PField ''permission_denied'' (KMessageRef ''DeletePermissionDenied'') False (Some ''result''),
      PField ''file_busy'' (KMessageRef ''DeleteFileBusy'') False (Some ''result''),
      PField ''rejected'' (KMessage md_DeleteRejected) False (Some ''result''),
      PField ''error'' (KMessage md_DeleteError) False (Some ''result'')]"

definition md_DeleteToolCall :: mdesc where
  "md_DeleteToolCall = MD ''DeleteToolCall'' []
     [PField ''args'' (KMessageRef ''DeleteArgs'') False None,
      PField ''result'' (KMessage md_DeleteResult) False None]"

definition md_GlobToolSuccess :: mdesc where
  "md_GlobToolSuccess = MD ''GlobToolSuccess'' []
     [PField ''pattern'' KString False None,
      PField ''path'' KString False None,
      PField ''files'' KString True None,
      PField ''total_files'' (KScalar ''int32'') False None,
      PField ''client_truncated'' (KScalar ''bool'') False None,
      PField ''ripgrep_truncated'' (KScalar ''bool'') False None]"

definition md_GlobToolResult :: mdesc where
  "md_GlobToolResult = MD ''GlobToolResult'' [(''result'', False)]
     [PField ''success'' (KMessage md_GlobToolSuccess) False (Some ''result''),
      PField ''error'' (KMessageRef ''GlobToolError'') False (Some ''result'')]"

definition md_GlobToolCall :: mdesc where
  "md_GlobToolCall = MD ''GlobToolCall'' []
     [PField ''args'' KBytes False None,
      PField ''result'' (KMessage md_GlobToolResult) False None]"

definition md_GrepSuccess :: mdesc where
  "md_GrepSuccess = MD ''GrepSuccess'' [(''_active_editor_result'', True)]
     [PField ''pattern'' KString False None,
      PField ''path'' KString False None,
      PField ''output_mode'' KString False None,
      PField ''workspace_results'' (KMessageRef ''WorkspaceResultsEntry'') True None,
      PField ''active_editor_result'' (KMessageRef ''GrepUnionResult'') False (Some ''_active_editor_result'')]"

definition md_GrepError :: mdesc where
  "md_GrepError = MD ''GrepError'' []
     [PField ''error'' KString False None]"

definition md_GrepResult :: mdesc where
  "md_GrepResult = MD ''GrepResult'' [(''result'', False)]
     [PField ''success'' (KMessage md_GrepSuccess) False (Some ''result''),
      PField ''error'' (KMessage md_GrepError) False (Some ''result'')]"

definition md_GrepToolCall :: mdesc where
  "md_GrepToolCall = MD ''GrepToolCall'' []
     [PField ''args'' (KMessageRef ''GrepArgs'') False None,
      PField ''result'' (KMessage md_GrepResult) False None]"

definition md_ReadToolSuccess :: mdesc where
  "md_ReadToolSuccess = MD ''ReadToolSuccess'' [(''output'', False), (''_read_range'', True)]
     [PField ''is_empty'' (KScalar ''bool'') False None,
      PField ''exceeded_limit'' (KScalar ''bool'') False None,
      PField ''total_lines'' (KScalar ''uint32'') False None,
      PField ''file_size'' (KScalar ''uint32'') False None,
      PField ''path'' KString False None,
      PField ''read_range'' (KMessageRef ''ReadRange'') False (Some ''_read_range''),
      PField ''content'' KString False (Some ''output''),
      PField ''data'' KBytes False (Some ''output''),
      PField ''data_blob_id'' KBytes False (Some ''output''),
      PField ''content_blob_id'' KBytes False (Some ''output'')]"

definition md_ReadToolResult :: mdesc where
  "md_ReadToolResult = MD ''ReadToolResult'' [(''result'', False)]
     [PField ''success'' (KMessage md_ReadToolSuccess) False (Some ''result''),
      PField ''error'' (KMessageRef ''ReadToolError'') False (Some ''result'')]"

definition md_ReadToolCall :: mdesc where
  "md_ReadToolCall = MD ''ReadToolCall'' []
     [PField ''args'' (KMessageRef ''ReadToolArgs'') False None,
      PField ''result'' (KMessage md_ReadToolResult) False None]"

definition md_UpdateTodosSuccess :: mdesc where
  "md_UpdateTodosSuccess = MD ''UpdateTodosSuccess'' []
     [PField ''todos'' (KMessageRef ''TodoItem'') True None,
      PField ''total_count'' (KScalar ''int32'') False None,
      PField ''was_merge'' (KScalar ''bool'') False None]"

definition md_UpdateTodosResult :: mdesc where
  "md_UpdateTodosResult = MD ''UpdateTodosResult'' [(''result'', False)]
     [PField ''success'' (KMessage md_UpdateTodosSuccess) False (Some ''result''),
      PField ''error'' (KMessageRef ''UpdateTodosError'') False (Some ''result'')]"

definition md_UpdateTodosToolCall :: mdesc where
  "md_UpdateTodosToolCall = MD ''UpdateTodosToolCall'' []
     [PField ''args'' (KMessageRef ''UpdateTodosArgs'') False None,
      PField ''result'' (KMessage md_UpdateTodosResult) False None]"

definition md_ReadTodosSuccess :: mdesc where
  "md_ReadTodosSuccess = MD ''ReadTodosSuccess'' []
     [PField ''todos'' (KMessageRef ''TodoItem'') True None,
      PField ''total_count'' (KScalar ''int32'') False None]"

definition md_ReadTodosResult :: mdesc where
  "md_ReadTodosResult = MD ''ReadTodosResult'' [(''result'', False)]
     [PField ''success'' (KMessage md_ReadTodosSuccess) False (Some ''result''),
      PField ''error'' (KMessageRef ''ReadTodosError'') False (Some ''result'')]"

definition md_ReadTodosToolCall :: mdesc where
  "md_ReadTodosToolCall = MD ''ReadTodosToolCall'' []
     [PField ''args'' (KMessageRef ''ReadTodosArgs'') False None,
      PField ''result'' (KMessage md_ReadTodosResult) False None]"

definition md_EditSuccess :: mdesc where
  "md_EditSuccess = MD ''EditSuccess'' [(''_lines_added'', True), (''_lines_removed'', True), (''_diff_string'', True), (''_before_full_file_content'', True), (''_message'', True)]
     [PField ''path'' KString False None,
      PField ''lines_added'' (KScalar ''int32'') False (Some ''_lines_added''),
      PField ''lines_removed'' (KScalar ''int32'') False (Some ''_lines_removed''),
      PField ''diff_string'' KString False (Some ''_diff_string''),
      PField ''before_full_file_content'' KString False (Some ''_before_full_file_content''),
      PField ''after_full_file_content'' KString False None,
      PField ''message'' KString False (Some ''_message'')]"

definition md_EditResult :: mdesc where
  "md_EditResult = MD ''EditResult'' [(''result'', False)]
     [PField ''success'' (KMessage md_EditSuccess) False (Some ''result''),
      PField ''file_not_found'' (KMessageRef ''EditFileNotFound'') False (Some ''result''),
      PField ''read_permission_denied'' (KMessageRef ''EditReadPermissionDenied'') False (Some ''result''),
      PField ''write_permission_denied'' (KMessageRef ''EditWritePermissionDenied'') False (Some ''result''),
      PField ''rejected'' (KMessageRef ''EditRejected'') False (Some ''result''),
      PField ''error'' (KMessageRef ''EditError'') False (Some ''result'')]"

definition md_EditToolCall :: mdesc where
  "md_EditToolCall = MD ''EditToolCall'' []
     [PField ''args'' (KMessageRef ''EditArgs'') False None,
      PField ''result'' (KMessage md_EditResult) False None]"

definition md_LsSuccess :: mdesc where
  "md_LsSuccess = MD ''LsSuccess'' []
     [PField ''directory_tree_root'' (KMessageRef ''LsDirectoryTreeNode'') False None]"

definition md_LsError :: mdesc where
  "md_LsError = MD ''LsError'' []
     [PField ''path'' KString False None,
      PField ''error'' KString False None]"

definition md_LsRejected :: mdesc where
  "md_LsRejected = MD ''LsRejected'' []
     [PField ''path'' KString False None,
      PField ''reason'' KString False None]"

definition md_LsResult :: mdesc where
  "md_LsResult = MD ''LsResult'' [(''result'', False)]
     [PField ''success'' (KMessage md_LsSuccess) False (Some ''result''),
      PField ''error'' (KMessage md_LsError) False (Some ''result''),
      PField ''rejected'' (KMessage md_LsRejected) False (Some ''result''),
      PField ''timeout'' (KMessageRef ''LsTimeout'') False (Some ''result'')]"

definition md_LsToolCall :: mdesc where
  "md_LsToolCall = MD ''LsToolCall'' []
     [PField ''args'' (KMessageRef ''LsArgs'') False None,
      PField ''result'' (KMessage md_LsResult) False None]"

definition md_ReadLintsToolSuccess :: mdesc where
  "md_ReadLintsToolSuccess = MD ''ReadLintsToolSuccess'' []
     [PField ''file_diagnostics'' (KMessageRef ''FileDiagnostics'') True None,
      PField ''total_files'' (KScalar ''int32'') False None,
      PField ''total_diagnostics'' (KScalar ''int32'') False None]"

definition md_ReadLintsToolResult :: mdesc where
  "md_ReadLintsToolResult = MD ''ReadLintsToolResult'' [(''result'', False)]
     [PField ''success'' (KMessage md_ReadLintsToolSuccess) False (Some ''result''),
      PField ''error'' (KMessageRef ''ReadLintsToolError'') False (Some ''result'')]"

definition md_ReadLintsToolCall :: mdesc where
  "md_ReadLintsToolCall = MD ''ReadLintsToolCall'' []
     [PField ''args'' (KMessageRef ''ReadLintsToolArgs'') False None,
      PField ''result'' (KMessage md_ReadLintsToolResult) False None]"

definition md_McpSuccess :: mdesc where
  "md_McpSuccess = MD ''McpSuccess'' []
     [PField ''content'' (KMessageRef ''McpToolResultContentItem'') True None,
      PField ''is_error'' (KScalar ''bool'') False None]"

definition md_McpToolResult :: mdesc where
  "md_McpToolResult = MD ''McpToolResult'' [(''result'', False)]
     [PField ''success'' (KMessage md_McpSuccess) False (Some ''result''),
      PField ''error'' (KMessageRef ''McpToolError'') False (Some ''result''),
      PField ''rejected'' (KMessageRef ''McpRejected'') False (Some ''result''),
      PField ''permission_denied'' (KMessageRef ''McpPermissionDenied'') False (Some ''result'')]"

definition md_McpToolCall :: mdesc where
  "md_McpToolCall = MD ''McpToolCall'' []
     [PField ''args'' (KMessageRef ''McpArgs'') False None,
      PField ''result'' (KMessage md_McpToolResult) False None]"

definition md_SemSearchToolSuccess :: mdesc where
  "md_SemSearchToolSuccess = MD ''SemSearchToolSuccess'' []
     [PField ''results'' KString False None,
      PField ''code_results'' KBytes True None]"

definition md_SemSearchToolResult :: mdesc where
  "md_SemSearchToolResult = MD ''SemSearchToolResult'' [(''result'', False)]
     [PField ''success'' (KMessage md_SemSearchToolSuccess) False (Some ''result''),
      PField ''error'' (KMessageRef ''SemSearchToolError'') False (Some ''result'')]"

definition md_SemSearchToolCall :: mdesc where
  "md_SemSearchToolCall = MD ''SemSearchToolCall'' []
     [PField ''args'' (KMessageRef ''SemSearchToolArgs'') False None,
      PField ''result'' (KMessage md_SemSearchToolResult) False None]"

definition md_CreatePlanSuccess :: mdesc where
  "md_CreatePlanSuccess = MD ''CreatePlanSuccess'' [] []"

definition md_CreatePlanResult :: mdesc where
  "md_CreatePlanResult = MD ''CreatePlanResult'' [(''result'', False)]
     [PField ''plan_uri'' KString False None,
      PField ''success'' (KMessage md_CreatePlanSuccess) False (Some ''result''),
      PField ''error'' (KMessageRef ''CreatePlanError'') False (Some ''result'')]"

definition md_CreatePlanToolCall :: mdesc where
  "md_CreatePlanToolCall = MD ''CreatePlanToolCall'' []
     [PField ''args'' (KMessageRef ''CreatePlanArgs'') False None,
      PField ''result'' (KMessage md_CreatePlanResult) False None]"

definition md_WebSearchSuccess :: mdesc where
  "md_WebSearchSuccess = MD ''WebSearchSuccess'' []
     [PField ''references'' (KMessageRef ''WebSearchReference'') True None]"

definition md_WebSearchResult :: mdesc where
  "md_WebSearchResult = MD ''WebSearchResult'' [(''result'', False)]
     [PField ''success'' (KMessage md_WebSearchSuccess) False (Some ''result''),
      PField ''error'' (KMessageRef ''WebSearchError'') False (Some ''result''),
      PField ''rejected'' (KMessageRef ''WebSearchRejected'') False (Some ''result'')]"

definition md_WebSearchToolCall :: mdesc where
  "md_WebSearchToolCall = MD ''WebSearchToolCall'' []
     [PField ''args'' (KMessageRef ''WebSearchArgs'') False None,
      PField ''result'' (KMessage md_WebSearchResult) False None]"

definition md_TaskSuccess :: mdesc where
  "md_TaskSuccess = MD ''TaskSuccess'' [(''_agent_id'', True), (''_duration_ms'', True)]
     [PField ''conversation_steps'' (KMessageRef ''ConversationStep'') True None,
      PField ''agent_id'' KString False (Some ''_agent_id''),
      PField ''is_background'' (KScalar ''bool'') False None,
      PField ''duration_ms'' (KScalar ''uint64'') False (Some ''_duration_ms'')]"

definition md_TaskResult :: mdesc where
  "md_TaskResult = MD ''TaskResult'' [(''result'', False)]
     [PField ''success'' (KMessage md_TaskSuccess) False (Some ''result''),
      PField ''error'' (KMessageRef ''TaskError'') False (Some ''result'')]"

definition md_TaskToolCall :: mdesc where
  "md_TaskToolCall = MD ''TaskToolCall'' []
     [PField ''args'' (KMessageRef ''TaskArgs'') False None,
      PField ''result'' (KMessage md_TaskResult) False None]"

definition md_ListMcpResourcesSuccess :: mdesc where
  "md_ListMcpResourcesSuccess = MD ''ListMcpResourcesSuccess'' []
     [PField ''resources'' (KMessageRef ''ListMcpResourcesExecResult_McpResource'') True None]"

definition md_ListMcpResourcesError :: mdesc where
  "md_ListMcpResourcesError = MD ''ListMcpResourcesError'' []
     [PField ''error'' KString False None]"

definition md_ListMcpResourcesRejected :: mdesc where
  "md_ListMcpResourcesRejected = MD ''ListMcpResourcesRejected'' []
     [PField ''reason'' KString False None]"

definition md_ListMcpResourcesExecResult :: mdesc where
  "md_ListMcpResourcesExecResult = MD ''ListMcpResourcesExecResult'' [(''result'', False)]
     [PField ''success'' (KMessage md_ListMcpResourcesSuccess) False (Some ''result''),
      PField ''error'' (KMessage md_ListMcpResourcesError) False (Some ''result''),
      PField ''rejected'' (KMessage md_ListMcpResourcesRejected) False (Some ''result'')]"

definition md_ListMcpResourcesToolCall :: mdesc where
  "md_ListMcpResourcesToolCall = MD ''ListMcpResourcesToolCall'' []
     [PField ''args'' (KMessageRef ''ListMcpResourcesExecArgs'') False None,
      PField ''result'' (KMessage md_ListMcpResourcesExecResult) False None]"

definition md_ReadMcpResourceSuccess :: mdesc where
  "md_ReadMcpResourceSuccess = MD ''ReadMcpResourceSuccess'' [(''content'', False), (''_name'', True), (''_description'', True), (''_mime_type'', True), (''_download_path'', True)]
     [PField ''uri'' KString False None,
      PField ''name'' KString False (Some ''_name''),
      PField ''description'' KString False (Some ''_description''),
      PField ''mime_type'' KString False (Some ''_mime_type''),
      PField ''annotations'' (KMessageRef ''AnnotationsEntry'') True None,
      PField ''download_path'' KString False (Some ''_download_path''),
      PField ''text'' KString False (Some ''content''),
      PField ''blob'' KBytes False (Some ''content'')]"

definition md_ReadMcpResourceError :: mdesc where
  "md_ReadMcpResourceError = MD ''ReadMcpResourceError'' []
     [PField ''uri'' KString False None,
      PField ''error'' KString False None]"

definition md_ReadMcpResourceRejected :: mdesc where
  "md_ReadMcpResourceRejected = MD ''ReadMcpResourceRejected'' []
     [PField ''uri'' KString False None,
      PField ''reason'' KString False None]"

definition md_ReadMcpResourceExecResult :: mdesc where
  "md_ReadMcpResourceExecResult = MD ''ReadMcpResourceExecResult'' [(''result'', False)]
     [PField ''success'' (KMessage md_ReadMcpResourceSuccess) False (Some ''result''),
      PField ''error'' (KMessage md_ReadMcpResourceError) False (Some ''result''),
      PField ''rejected'' (KMessage md_ReadMcpResourceRejected) False (Some ''result''),
      PField ''not_found'' (KMessageRef ''ReadMcpResourceNotFound'') False (Some ''result'')]"

definition md_ReadMcpResourceToolCall :: mdesc where
  "md_ReadMcpResourceToolCall = MD ''ReadMcpResourceToolCall'' []
     [PField ''args'' (KMessageRef ''ReadMcpResourceExecArgs'') False None,
      PField ''result'' (KMessage md_ReadMcpResourceExecResult) False None]"

definition md_ApplyAgentDiffSuccess :: mdesc where
  "md_ApplyAgentDiffSuccess = MD ''ApplyAgentDiffSuccess'' []
     [PField ''applied_changes'' (KMessageRef ''AppliedAgentChange'') True None]"

definition md_ApplyAgentDiffResult :: mdesc where
  "md_ApplyAgentDiffResult = MD ''ApplyAgentDiffResult'' [(''result'', False)]
     [PField ''success'' (KMessage md_ApplyAgentDiffSuccess) False (Some ''result''),
      PField ''error'' (KMessageRef ''ApplyAgentDiffError'') False (Some ''result'')]"

definition md_ApplyAgentDiffToolCall :: mdesc where
  "md_ApplyAgentDiffToolCall = MD ''ApplyAgentDiffToolCall'' []
     [PField ''args'' (KMessageRef ''ApplyAgentDiffArgs'') False None,
      PField ''result'' (KMessage md_ApplyAgentDiffResult) False None]"

definition md_AskQuestionSuccess :: mdesc where
  "md_AskQuestionSuccess = MD ''AskQuestionSuccess'' []
     [PField ''answers'' (KMessageRef ''AskQuestionSuccess_Answer'') True None]"

definition md_AskQuestionResult :: mdesc where
  "md_AskQuestionResult = MD ''AskQuestionResult'' [(''result'', False)]
     [PField ''success'' (KMessage md_AskQuestionSuccess) False (Some ''result''),
      PField ''error'' (KMessageRef ''AskQuestionError'') False (Some ''result''),
      PField ''rejected'' (KMessageRef ''AskQuestionRejected'') False (Some ''result''),
      PField ''async'' (KMessageRef ''AskQuestionAsync'') False (Some ''result'')]"

definition md_AskQuestionToolCall :: mdesc where
  "md_AskQuestionToolCall = MD ''AskQuestionToolCall'' []
     [PField ''args'' (KMessageRef ''AskQuestionArgs'') False None,
      PField ''result'' (KMessage md_AskQuestionResult) False None]"

definition md_FetchSuccess :: mdesc where
  "md_FetchSuccess = MD ''FetchSuccess'' []
     [PField ''url'' KString False None,
      PField ''content'' KString False None,
      PField ''status_code'' (KScalar ''int32'') False None,
      PField ''content_type'' KString False None]"

definition md_FetchError :: mdesc where
  "md_FetchError = MD ''FetchError'' []
     [PField ''url'' KString False None,
      PField ''error'' KString False None]"

definition md_FetchResult :: mdesc where
  "md_FetchResult = MD ''FetchResult'' [(''result'', False)]
     [PField ''success'' (KMessage md_FetchSuccess) False (Some ''result''),
      PField ''error'' (KMessage md_FetchError) False (Some ''result'')]"

definition md_FetchToolCall :: mdesc where
  "md_FetchToolCall = MD ''FetchToolCall'' []
     [PField ''args'' (KMessageRef ''FetchArgs'') False None,
      PField ''result'' (KMessage md_FetchResult) False None]"

definition md_SwitchModeSuccess :: mdesc where
  "md_SwitchModeSuccess = MD ''SwitchModeSuccess'' []
     [PField ''from_mode_id'' KString False None,
      PField ''to_mode_id'' KString False None]"

definition md_SwitchModeResult :: mdesc where
  "md_SwitchModeResult = MD ''SwitchModeResult'' [(''result'', False)]
     [PField ''success'' (KMessage md_SwitchModeSuccess) False (Some ''result''),
      PField ''error'' (KMessageRef ''SwitchModeError'') False (Some ''result''),
      PField ''rejected'' (KMessageRef ''SwitchModeRejected'') False (Some ''result'')]"

definition md_SwitchModeToolCall :: mdesc where
  "md_SwitchModeToolCall = MD ''SwitchModeToolCall'' []
     [PField ''args'' (KMessageRef ''SwitchModeArgs'') False None,
      PField ''result'' (KMessage md_SwitchModeResult) False None]"

definition md_ExaSearchSuccess :: mdesc where
  "md_ExaSearchSuccess = MD ''ExaSearchSuccess'' []
     [PField ''references'' (KMessageRef ''ExaSearchReference'') True None]"

definition md_ExaSearchResult :: mdesc where
  "md_ExaSearchResult = MD ''ExaSearchResult'' [(''result'', False)]
     [PField ''success'' (KMessage md_ExaSearchSuccess) False (Some ''result''),
      PField ''error'' (KMessageRef ''ExaSearchError'') False (Some ''result''),
      PField ''rejected'' (KMessageRef ''ExaSearchRejected'') False (Some ''result'')]"

definition md_ExaSearchToolCall :: mdesc where
  "md_ExaSearchToolCall = MD ''ExaSearchToolCall'' []
     [PField ''args'' (KMessageRef ''ExaSearchArgs'') False None,
      PField ''result'' (KMessage md_ExaSearchResult) False None]"

definition md_ExaFetchSuccess :: mdesc where
  "md_ExaFetchSuccess = MD ''ExaFetchSuccess'' []
     [PField ''contents'' (KMessageRef ''ExaFetchContent'') True None]"

definition md_ExaFetchResult :: mdesc where
  "md_ExaFetchResult = MD ''ExaFetchResult'' [(''result'', False)]
     [PField ''success'' (KMessage md_ExaFetchSuccess) False (Some ''result''),
      PField ''error'' (KMessageRef ''ExaFetchError'') False (Some ''result''),
      PField ''rejected'' (KMessageRef ''ExaFetchRejected'') False (Some ''result'')]"

definition md_ExaFetchToolCall :: mdesc where
  "md_ExaFetchToolCall = MD ''ExaFetchToolCall'' []
     [PField ''args'' (KMessageRef ''ExaFetchArgs'') False None,
      PField ''result'' (KMessage md_ExaFetchResult) False None]"

definition md_GenerateImageSuccess :: mdesc where
  "md_GenerateImageSuccess = MD ''GenerateImageSuccess'' []
     [PField ''file_path'' KString False None,
      PField ''image_data'' KString False None]"

definition md_GenerateImageResult :: mdesc where
  "md_GenerateImageResult = MD ''GenerateImageResult'' [(''result'', False)]
     [PField ''success'' (KMessage md_GenerateImageSuccess) False (Some ''result''),
      PField ''error'' (KMessageRef ''GenerateImageError'') False (Some ''result'')]"

definition md_GenerateImageToolCall :: mdesc where
  "md_GenerateImageToolCall = MD ''GenerateImageToolCall'' []
     [PField ''args'' (KMessageRef ''GenerateImageArgs'') False None,
      PField ''result'' (KMessage md_GenerateImageResult) False None]"

definition md_RecordScreenStartSuccess :: mdesc where
  "md_RecordScreenStartSuccess = MD ''RecordScreenStartSuccess'' []
     [PField ''was_prior_recording_cancelled'' (KScalar ''bool'') False None,
      PField ''was_save_as_filename_ignored'' (KScalar ''bool'') False None]"

definition md_RecordScreenFailure :: mdesc where
  "md_RecordScreenFailure = MD ''RecordScreenFailure'' []
     [PField ''error'' KString False None]"

definition md_RecordScreenResult :: mdesc where
  "md_RecordScreenResult = MD ''RecordScreenResult'' [(''result'', False)]
     [PField ''start_success'' (KMessage md_RecordScreenStartSuccess) False (Some ''result''),
      PField ''save_success'' (KMessageRef ''RecordScreenSaveSuccess'') False (Some ''result''),
      PField ''discard_success'' (KMessageRef ''RecordScreenDiscardSuccess'') False (Some ''result''),
      PField ''failure'' (KMessage md_RecordScreenFailure) False (Some ''result'')]"

definition md_RecordScreenToolCall :: mdesc where
  "md_RecordScreenToolCall = MD ''RecordScreenToolCall'' []
     [PField ''args'' (KMessageRef ''RecordScreenArgs'') False None,
      PField ''result'' (KMessage md_RecordScreenResult) False None]"

definition md_ComputerUseSuccess :: mdesc where
  "md_ComputerUseSuccess = MD ''ComputerUseSuccess'' [(''_screenshot'', True), (''_log'', True), (''_screenshot_path'', True), (''_cursor_position'', True)]
     [PField ''action_count'' (KScalar ''int32'') False None,
      PField ''duration_ms'' (KScalar ''int32'') False None,
      PField ''screenshot'' KString False (Some ''_screenshot''),
      PField ''log'' KString False (Some ''_log''),
      PField ''screenshot_path'' KString False (Some ''_screenshot_path''),
      PField ''cursor_position'' (KMessageRef ''Coordinate'') False (Some ''_cursor_position'')]"

definition md_ComputerUseError :: mdesc where
  "md_ComputerUseError = MD ''ComputerUseError'' [(''_log'', True), (''_screenshot'', True), (''_screenshot_path'', True)]
     [PField ''error'' KString False None,
      PField ''action_count'' (KScalar ''int32'') False None,
      PField ''duration_ms'' (KScalar ''int32'') False None,
      PField ''log'' KString False (Some ''_log''),
      PField ''screenshot'' KString False (Some ''_screenshot''),
      PField ''screenshot_path'' KString False (Some ''_screenshot_path'')]"

definition md_ComputerUseResult :: mdesc where
  "md_ComputerUseResult = MD ''ComputerUseResult'' [(''result'', False)]
     [PField ''success'' (KMessage md_ComputerUseSuccess) False (Some ''result''),
      PField ''error'' (KMessage md_ComputerUseError) False (Some ''result'')]"

definition md_ComputerUseToolCall :: mdesc where
  "md_ComputerUseToolCall = MD ''ComputerUseToolCall'' []
     [PField ''args'' (KMessageRef ''ComputerUseArgs'') False None,
      PField ''result'' (KMessage md_ComputerUseResult) False None]"

definition md_WriteShellStdinSuccess :: mdesc where
  "md_WriteShellStdinSuccess = MD ''WriteShellStdinSuccess'' []
     [PField ''shell_id'' (KScalar ''uint32'') False None,
      PField ''terminal_file_length_before_input_written'' (KScalar ''uint32'') False None]"

definition md_WriteShellStdinError :: mdesc where
  "md_WriteShellStdinError = MD ''WriteShellStdinError'' []
     [PField ''error'' KString False None]"

definition md_WriteShellStdinResult :: mdesc where
  "md_WriteShellStdinResult = MD ''WriteShellStdinResult'' [(''result'', False)]
     [PField ''success'' (KMessage md_WriteShellStdinSuccess) False (Some ''result''),
      PField ''error'' (KMessage md_WriteShellStdinError) False (Some ''result'')]"

definition md_WriteShellStdinToolCall :: mdesc where
  "md_WriteShellStdinToolCall = MD ''WriteShellStdinToolCall'' []
     [PField ''args'' (KMessageRef ''WriteShellStdinArgs'') False None,
      PField ''result'' (KMessage md_WriteShellStdinResult) False None]"

definition md_ReflectSuccess :: mdesc where
  "md_ReflectSuccess = MD ''ReflectSuccess'' [] []"

definition md_ReflectResult :: mdesc where
  "md_ReflectResult = MD ''ReflectResult'' [(''result'', False)]
     [PField ''success'' (KMessage md_ReflectSuccess) False (Some ''result''),
      PField ''error'' (KMessageRef ''ReflectError'') False (Some ''result'')]"

definition md_ReflectToolCall :: mdesc where
  "md_ReflectToolCall = MD ''ReflectToolCall'' []
     [PField ''args'' (KMessageRef ''ReflectArgs'') False None,
      PField ''result'' (KMessage md_ReflectResult) False None]"

definition md_SetupVmEnvironmentSuccess :: mdesc where
  "md_SetupVmEnvironmentSuccess = MD ''SetupVmEnvironmentSuccess'' [] []"

definition md_SetupVmEnvironmentResult :: mdesc where
  "md_SetupVmEnvironmentResult = MD ''SetupVmEnvironmentResult'' [(''result'', False)]
     [PField ''success'' (KMessage md_SetupVmEnvironmentSuccess) False (Some ''result'')]"

definition md_SetupVmEnvironmentToolCall :: mdesc where
  "md_SetupVmEnvironmentToolCall = MD ''SetupVmEnvironmentToolCall'' []
     [PField ''args'' (KMessageRef ''SetupVmEnvironmentArgs'') False None,
      PField ''result'' (KMessage md_SetupVmEnvironmentResult) False None]"

definition md_TruncatedToolCallSuccess :: mdesc where
  "md_TruncatedToolCallSuccess = MD ''TruncatedToolCallSuccess'' [] []"

definition md_TruncatedToolCallResult :: mdesc where
  "md_TruncatedToolCallResult = MD ''TruncatedToolCallResult'' [(''result'', False)]
     [PField ''success'' (KMessage md_TruncatedToolCallSuccess) False (Some ''result''),
      PField ''error'' (KMessageRef ''TruncatedToolCallError'') False (Some ''result'')]"

definition md_TruncatedToolCall :: mdesc where
  "md_TruncatedToolCall = MD ''TruncatedToolCall'' []
     [PField ''original_step_blob_id'' KBytes False None,
      PField ''args'' (KMessageRef ''TruncatedToolCallArgs'') False None,
      PField ''result'' (KMessage md_TruncatedToolCallResult) False None]"

definition md_StartGrindExecutionSuccess :: mdesc where
  "md_StartGrindExecutionSuccess = MD ''StartGrindExecutionSuccess'' [] []"

definition md_StartGrindExecutionResult :: mdesc where
  "md_StartGrindExecutionResult = MD ''StartGrindExecutionResult'' [(''result'', False)]
     [PField ''success'' (KMessage md_StartGrindExecutionSuccess) False (Some ''result''),
      PField ''error'' (KMessageRef ''StartGrindExecutionError'') False (Some ''result'')]"

definition md_StartGrindExecutionToolCall :: mdesc where
  "md_StartGrindExecutionToolCall = MD ''StartGrindExecutionToolCall'' []
     [PField ''args'' (KMessageRef ''StartGrindExecutionArgs'') False None,
      PField ''result'' (KMessage md_StartGrindExecutionResult) False None]"

definition md_StartGrindPlanningSuccess :: mdesc where
  "md_StartGrindPlanningSuccess = MD ''StartGrindPlanningSuccess'' [] []"

definition md_StartGrindPlanningResult :: mdesc where
  "md_StartGrindPlanningResult = MD ''StartGrindPlanningResult'' [(''result'', False)]
     [PField ''success'' (KMessage md_StartGrindPlanningSuccess) False (Some ''result''),
      PField ''error'' (KMessageRef ''StartGrindPlanningError'') False (Some ''result'')]"

definition md_StartGrindPlanningToolCall :: mdesc where
  "md_StartGrindPlanningToolCall = MD ''StartGrindPlanningToolCall'' []
     [PField ''args'' (KMessageRef ''StartGrindPlanningArgs'') False None,
      PField ''result'' (KMessage md_StartGrindPlanningResult) False None]"

definition md_ToolCall :: mdesc where
  "md_ToolCall = MD ''ToolCall'' [(''tool'', False)]
     [PField ''shell_tool_call'' (KMessage md_ShellToolCall) False (Some ''tool''),
      PField ''delete_tool_call'' (KMessage md_DeleteToolCall) False (Some ''tool''),
      PField ''glob_tool_call'' (KMessage md_GlobToolCall) False (Some ''tool''),
      PField ''grep_tool_call'' (KMessage md_GrepToolCall) False (Some ''tool''),
      PField ''read_tool_call'' (KMessage md_ReadToolCall) False (Some ''tool''),
      PField ''update_todos_tool_call'' (KMessage md_UpdateTodosToolCall) False (Some ''tool''),
      PField ''read_todos_tool_call'' (KMessage md_ReadTodosToolCall) False (Some ''tool''),
      PField ''edit_tool_call'' (KMessage md_EditToolCall) False (Some ''tool''),
      PField ''ls_tool_call'' (KMessage md_LsToolCall) False (Some ''tool''),
      PField ''read_lints_tool_call'' (KMessage md_ReadLintsToolCall) False (Some ''tool''),
      PField ''mcp_tool_call'' (KMessage md_McpToolCall) False (Some ''tool''),
      PField ''sem_search_tool_call'' (KMessage md_SemSearchToolCall) False (Some ''tool''),
      PField ''create_plan_tool_call'' (KMessage md_CreatePlanToolCall) False (Some ''tool''),
      PField ''web_search_tool_call'' (KMessage md_WebSearchToolCall) False (Some ''tool''),
      PField ''task_tool_call'' (KMessage md_TaskToolCall) False (Some ''tool''),
      PField ''list_mcp_resources_tool_call'' (KMessage md_ListMcpResourcesToolCall) False (Some ''tool''),
      PField ''read_mcp_resource_tool_call'' (KMessage md_ReadMcpResourceToolCall) False (Some ''tool''),
      PField ''apply_agent_diff_tool_call'' (KMessage md_ApplyAgentDiffToolCall) False (Some ''tool''),
      PField ''ask_question_tool_call'' (KMessage md_AskQuestionToolCall) False (Some ''tool''),
      PField ''fetch_tool_call'' (KMessage md_FetchToolCall) False (Some ''tool''),
      PField ''switch_mode_tool_call'' (KMessage md_SwitchModeToolCall) False (Some ''tool''),
      PField ''exa_search_tool_call'' (KMessage md_ExaSearchToolCall) False (Some ''tool''),
      PField ''exa_fetch_tool_call'' (KMessage md_ExaFetchToolCall) False (Some ''tool''),
      PField ''generate_image_tool_call'' (KMessage md_GenerateImageToolCall) False (Some ''tool''),
      PField ''record_screen_tool_call'' (KMessage md_RecordScreenToolCall) False (Some ''tool''),
      PField ''computer_use_tool_call'' (KMessage md_ComputerUseToolCall) False (Some ''tool''),
      PField ''write_shell_stdin_tool_call'' (KMessage md_WriteShellStdinToolCall) False (Some ''tool''),
      PField ''reflect_tool_call'' (KMessage md_ReflectToolCall) False (Some ''tool''),
      PField ''setup_vm_environment_tool_call'' (KMessage md_SetupVmEnvironmentToolCall) False (Some ''tool''),
      PField ''truncated_tool_call'' (KMessage md_TruncatedToolCall) False (Some ''tool''),
      PField ''start_grind_execution_tool_call'' (KMessage md_StartGrindExecutionToolCall) False (Some ''tool''),
      PField ''start_grind_planning_tool_call'' (KMessage md_StartGrindPlanningToolCall) False (Some ''tool'')]"

definition md_WriteError :: mdesc where
  "md_WriteError = MD ''WriteError'' []
     [PField ''path'' KString False None,
      PField ''error'' KString False None]"

definition md_WriteRejected :: mdesc where
  "md_WriteRejected = MD ''WriteRejected'' []
     [PField ''path'' KString False None,
      PField ''reason'' KString False None]"

definition md_WriteResult :: mdesc where
  "md_WriteResult = MD ''WriteResult'' [(''result'', False)]
     [PField ''success'' (KMessageRef ''WriteSuccess'') False (Some ''result''),
      PField ''permission_denied'' (KMessageRef ''WritePermissionDenied'') False (Some ''result''),
      PField ''no_space'' (KMessageRef ''WriteNoSpace'') False (Some ''result''),
      PField ''error'' (KMessage md_WriteError) False (Some ''result''),
      PField ''rejected'' (KMessage md_WriteRejected) False (Some ''result'')]"

definition md_ReadError :: mdesc where
  "md_ReadError = MD ''ReadError'' []
     [PField ''path'' KString False None,
      PField ''error'' KString False None]"

definition md_ReadRejected :: mdesc where
  "md_ReadRejected = MD ''ReadRejected'' []
     [PField ''path'' KString False None,
      PField ''reason'' KString False None]"

definition md_ReadResult :: mdesc where
  "md_ReadResult = MD ''ReadResult'' [(''result'', False)]
     [PField ''success'' (KMessageRef ''ReadSuccess'') False (Some ''result''),
      PField ''error'' (KMessage md_ReadError) False (Some ''result''),
      PField ''rejected'' (KMessage md_ReadRejected) False (Some ''result''),
      PField ''file_not_found'' (KMessageRef ''ReadFileNotFound'') False (Some ''result''),
      PField ''permission_denied'' (KMessageRef ''ReadPermissionDenied'') False (Some ''result''),
      PField ''invalid_file'' (KMessageRef ''ReadInvalidFile'') False (Some ''result'')]"

definition md_DiagnosticsError :: mdesc where
  "md_DiagnosticsError = MD ''DiagnosticsError'' []
     [PField ''path'' KString False None,
      PField ''error'' KString False None]"

definition md_DiagnosticsRejected :: mdesc where
  "md_DiagnosticsRejected = MD ''DiagnosticsRejected'' []
     [PField ''path'' KString False None,
      PField ''reason'' KString False None]"

definition md_DiagnosticsResult :: mdesc where
  "md_DiagnosticsResult = MD ''DiagnosticsResult'' [(''result'', False)]
     [PField ''success'' (KMessageRef ''DiagnosticsSuccess'') False (Some ''result''),
      PField ''error'' (KMessage md_DiagnosticsError) False (Some ''result''),
      PField ''rejected'' (KMessage md_DiagnosticsRejected) False (Some ''result''),
      PField ''file_not_found'' (KMessageRef ''DiagnosticsFileNotFound'') False (Some ''result''),
      PField ''permission_denied'' (KMessageRef ''DiagnosticsPermissionDenied'') False (Some ''result'')]"

definition md_RequestContextError :: mdesc where
  "md_RequestContextError = MD ''RequestContextError'' []
     [PField ''error'' KString False None]"

definition md_RequestContextRejected :: mdesc where
  "md_RequestContextRejected = MD ''RequestContextRejected'' []
     [PField ''reason'' KString False None]"

definition md_RequestContextResult :: mdesc where
  "md_RequestContextResult = MD ''RequestContextResult'' [(''result'', False)]
     [PField ''success'' (KMessageRef ''RequestContextSuccess'') False (Some ''result''),
      PField ''error'' (KMessage md_RequestContextError) False (Some ''result''),
      PField ''rejected'' (KMessage md_RequestContextRejected) False (Some ''result'')]"

definition md_McpError :: mdesc where
  "md_McpError = MD ''McpError'' []
     [PField ''error'' KString False None]"

definition md_McpRejected :: mdesc where
  "md_McpRejected = MD ''McpRejected'' []
     [PField ''reason'' KString False None,
      PField ''is_readonly'' (KScalar ''bool'') False None]"

definition md_McpResult :: mdesc where
  "md_McpResult = MD ''McpResult'' [(''result'', False)]
     [PField ''success'' (KMessageRef ''McpSuccess'') False (Some ''result''),
      PField ''error'' (KMessage md_McpError) False (Some ''result''),
      PField ''rejected'' (KMessage md_McpRejected) False (Some ''result''),
      PField ''permission_denied'' (KMessageRef ''McpPermissionDenied'') False (Some ''result''),
      PField ''tool_not_found'' (KMessageRef ''McpToolNotFound'') False (Some ''result'')]"

definition md_ShellStream :: mdesc where
  "md_ShellStream = MD ''ShellStream'' [(''event'', False)]
     [PField ''stdout'' (KMessageRef ''ShellStreamStdout'') False (Some ''event''),
      PField ''stderr'' (KMessageRef ''ShellStreamStderr'') False (Some ''event''),
      PField ''exit'' (KMessageRef ''ShellStreamExit'') False (Some ''event''),
      PField ''start'' (KMessageRef ''ShellStreamStart'') False (Some ''event''),
      PField ''rejected'' (KMessage md_ShellRejected) False (Some ''event''),
      PField ''permission_denied'' (KMessageRef ''ShellPermissionDenied'') False (Some ''event''),
      PField ''backgrounded'' (KMessageRef ''ShellStreamBackgrounded'') False (Some ''event'')]"

definition md_BackgroundShellSpawnError :: mdesc where
  "md_BackgroundShellSpawnError = MD ''BackgroundShellSpawnError'' []
     [PField ''command'' KString False None,
      PField ''working_directory'' KString False None,
      PField ''error'' KString False None]"

definition md_BackgroundShellSpawnResult :: mdesc where
  "md_BackgroundShellSpawnResult = MD ''BackgroundShellSpawnResult'' [(''result'', False)]
     [PField ''success'' (KMessageRef ''BackgroundShellSpawnSuccess'') False (Some ''result''),
      PField ''error'' (KMessage md_BackgroundShellSpawnError) False (Some ''result''),
      PField ''rejected'' (KMessage md_ShellRejected) False (Some ''result''),
      PField ''permission_denied'' (KMessageRef ''ShellPermissionDenied'') False (Some ''result'')]"

definition md_ExecClientMessage :: mdesc where
  "md_ExecClientMessage = MD ''ExecClientMessage'' [(''message'', False)]
     [PField ''id'' (KScalar ''uint32'') False None,
      PField ''exec_id'' KString False None,
      PField ''shell_result'' (KMessage md_ShellResult) False (Some ''message''),
      PField ''write_result'' (KMessage md_WriteResult) False (Some ''message''),
      PField ''delete_result'' (KMessage md_DeleteResult) False (Some ''message''),
      PField ''grep_result'' (KMessage md_GrepResult) False (Some ''message''),
      PField ''read_result'' (KMessage md_ReadResult) False (Some ''message''),
      PField ''ls_result'' (KMessage md_LsResult) False (Some ''message''),
      PField ''diagnostics_result'' (KMessage md_DiagnosticsResult) False (Some ''message''),
      PField ''request_context_result'' (KMessage md_RequestContextResult) False (Some ''message''),
      PField ''mcp_result'' (KMessage md_McpResult) False (Some ''message''),
      PField ''shell_stream'' (KMessage md_ShellStream) False (Some ''message''),
      PField ''background_shell_spawn_result'' (KMessage md_BackgroundShellSpawnResult) False (Some ''message''),
      PField ''list_mcp_resources_exec_result'' (KMessage md_ListMcpResourcesExecResult) False (Some ''message''),
      PField ''read_mcp_resource_exec_result'' (KMessage md_ReadMcpResourceExecResult) False (Some ''message''),
      PField ''fetch_result'' (KMessage md_FetchResult) False (Some ''message''),
      PField ''record_screen_result'' (KMessage md_RecordScreenResult) False (Some ''message''),
      PField ''computer_use_result'' (KMessage md_ComputerUseResult) False (Some ''message''),
      PField ''write_shell_stdin_result'' (KMessage md_WriteShellStdinResult) False (Some ''message'')]"

definition md_ExecServerMessage :: mdesc where
  "md_ExecServerMessage = MD ''ExecServerMessage'' [(''message'', False), (''_span_context'', True)]
     [PField ''id'' (KScalar ''uint32'') False None,
      PField ''exec_id'' KString False None,
      PField ''span_context'' (KMessageRef ''SpanContext'') False (Some ''_span_context''),
      PField ''shell_args'' (KMessageRef ''ShellArgs'') False (Some ''message''),
      PField ''write_args'' (KMessageRef ''WriteArgs'') False (Some ''message''),
      PField ''delete_args'' (KMessageRef ''DeleteArgs'') False (Some ''message''),
      PField ''grep_args'' (KMessageRef ''GrepArgs'') False (Some ''message''),
      PField ''read_args'' (KMessageRef ''ReadArgs'') False (Some ''message''),
      PField ''ls_args'' (KMessageRef ''LsArgs'') False (Some ''message''),
      PField ''diagnostics_args'' (KMessageRef ''DiagnosticsArgs'') False (Some ''message''),
      PField ''request_context_args'' (KMessageRef ''RequestContextArgs'') False (Some ''message''),
      PField ''mcp_args'' (KMessageRef ''McpArgs'') False (Some ''message''),
      PField ''shell_stream_args'' (KMessageRef ''ShellArgs'') False (Some ''message''),
      PField ''background_shell_spawn_args'' (KMessageRef ''BackgroundShellSpawnArgs'') False (Some ''message''),
      PField ''list_mcp_resources_exec_args'' (KMessageRef ''ListMcpResourcesExecArgs'') False (Some ''message''),
      PField ''read_mcp_resource_exec_args'' (KMessageRef ''ReadMcpResourceExecArgs'') False (Some ''message''),
      PField ''fetch_args'' (KMessageRef ''FetchArgs'') False (Some ''message''),
      PField ''record_screen_args'' (KMessageRef ''RecordScreenArgs'') False (Some ''message''),
      PField ''computer_use_args'' (KMessageRef ''ComputerUseArgs'') False (Some ''message''),
      PField ''write_shell_stdin_args'' (KMessageRef ''WriteShellStdinArgs'') False (Some ''message'')]"

end
