(* ===== verification/Reflect.thy ===== *)
theory Reflect
  imports Schema
begin

section \<open>Dynamic messages: the part of protoreflect the plugin uses\<close>

text \<open>
  A message that the plugin handles through \<open>protoreflect\<close> is the list of its populated fields,
  by name, together with its descriptor from \<open>Schema\<close>. \<open>pm_set\<close> is \<open>Message.Set\<close>: setting a
  member of a oneof clears its siblings, setting a plain string field to the empty string leaves it
  unpopulated, and setting a repeated field to a single value panics. \<open>VNil\<close> is an invalid
  (typed nil) message value.
\<close>

subsection \<open>Messages and descriptors\<close>

datatype pval =
    VString string
  | VBytes bytes
  | VScalar string
  | VList "pval list"
  | VMap "(string \<times> pval) list"
  | VMsg "(string \<times> pval) list"
  | VNil

type_synonym pmsg = "(string \<times> pval) list"

definition pm_get :: "pmsg \<Rightarrow> string \<Rightarrow> pval option" where
  "pm_get m k = map_of m k"

definition pm_has :: "pmsg \<Rightarrow> string \<Rightarrow> bool" where
  "pm_has m k = (pm_get m k \<noteq> None)"

definition fields_by_name :: "pfield list \<Rightarrow> string \<Rightarrow> pfield option" where
  "fields_by_name fs n = find (\<lambda>f. pf_name f = n) fs"

definition oneof_fields :: "mdesc \<Rightarrow> string \<Rightarrow> pfield list" where
  "oneof_fields md oo = filter (\<lambda>f. pf_oneof f = Some oo) (md_fields md)"

fun kind_is_message :: "pkind \<Rightarrow> bool" where
  "kind_is_message (KMessage md) = True"
| "kind_is_message (KMessageRef n) = True"
| "kind_is_message k = False"

definition is_message_field :: "pfield \<Rightarrow> bool" where
  "is_message_field f = kind_is_message (pf_kind f)"

definition is_string_field :: "pfield \<Rightarrow> bool" where
  "is_string_field f = (case pf_kind f of KString \<Rightarrow> True | _ \<Rightarrow> False)"

fun kind_desc :: "pkind \<Rightarrow> mdesc option" where
  "kind_desc (KMessage md) = Some md"
| "kind_desc k = None"

fun kind_name :: "pkind \<Rightarrow> string" where
  "kind_name (KMessage md) = md_name md"
| "kind_name (KMessageRef n) = n"
| "kind_name k = []"

text \<open>The descriptor of the message a field holds; its fields are outside the model for a \<open>KMessageRef\<close>.\<close>

definition field_desc :: "pfield \<Rightarrow> mdesc go_result" where
  "field_desc f =
     (if pf_repeated f then Panic ''protoreflect: list field has no message value''
      else case kind_desc (pf_kind f) of
             Some md \<Rightarrow> Ok md
           | None \<Rightarrow> Panic ''message descriptor outside the modelled schema'')"

subsection \<open>Setting fields\<close>

definition same_oneof :: "mdesc \<Rightarrow> pfield \<Rightarrow> string \<Rightarrow> bool" where
  "same_oneof md f n =
     (case pf_oneof f of
        None \<Rightarrow> False
      | Some oo \<Rightarrow> (\<exists>g \<in> set (oneof_fields md oo). pf_name g = n))"

definition pm_clear :: "(string \<Rightarrow> bool) \<Rightarrow> pmsg \<Rightarrow> pmsg" where
  "pm_clear p m = filter (\<lambda>(k, v). \<not> p k) m"

definition pm_set :: "mdesc \<Rightarrow> pfield \<Rightarrow> pval \<Rightarrow> pmsg \<Rightarrow> pmsg go_result" where
  "pm_set md f v m =
     (if pf_repeated f then Panic ''protoreflect: invalid type for list field''
      else let m' = pm_clear (\<lambda>n. n = pf_name f \<or> same_oneof md f n) m
           in if v = VString [] \<and> pf_oneof f = None then Ok m' else Ok ((pf_name f, v) # m'))"

subsection \<open>Reading what a message says\<close>

text \<open>Every string that occurs in a value.\<close>

fun pv_strings :: "pval \<Rightarrow> string list" where
  "pv_strings (VString s) = [s]"
| "pv_strings (VList vs) = concat (map pv_strings vs)"
| "pv_strings (VMap kvs) = concat (map (\<lambda>(k, v). pv_strings v) kvs)"
| "pv_strings (VMsg kvs) = concat (map (\<lambda>(k, v). pv_strings v) kvs)"
| "pv_strings v = []"

definition pm_strings :: "pmsg \<Rightarrow> string list" where
  "pm_strings m = pv_strings (VMsg m)"

text \<open>The populated member of a oneof.\<close>

definition which_oneof :: "mdesc \<Rightarrow> string \<Rightarrow> pmsg \<Rightarrow> string option" where
  "which_oneof md oo m =
     map_option pf_name (find (\<lambda>f. pm_has m (pf_name f)) (oneof_fields md oo))"

subsection \<open>Facts\<close>

lemma pm_get_Nil [simp]: "pm_get [] k = None"
  by (simp add: pm_get_def)

lemma pm_get_Cons [simp]: "pm_get ((k, v) # m) k' = (if k' = k then Some v else pm_get m k')"
  by (simp add: pm_get_def)

lemma pm_get_clear: "pm_get (pm_clear p m) k = (if p k then None else pm_get m k)"
  by (induction m) (auto simp: pm_clear_def pm_get_def)

lemma pm_set_Ok_iff: "is_ok (pm_set md f v m) \<longleftrightarrow> \<not> pf_repeated f"
  by (simp add: pm_set_def Let_def)

lemma pm_set_get:
  assumes "pm_set md f v m = Ok m'" and "v \<noteq> VString []"
  shows "pm_get m' (pf_name f) = Some v"
    and "same_oneof md f n \<Longrightarrow> n \<noteq> pf_name f \<Longrightarrow> pm_get m' n = None"
    and "\<not> same_oneof md f n \<Longrightarrow> n \<noteq> pf_name f \<Longrightarrow> pm_get m' n = pm_get m n"
  using assms by (auto simp: pm_set_def Let_def pm_get_clear split: if_splits)

lemma fields_by_name_Some: "fields_by_name fs n = Some f \<Longrightarrow> f \<in> set fs \<and> pf_name f = n"
  by (auto simp: fields_by_name_def find_Some_iff)

lemma pm_strings_Nil [simp]: "pm_strings [] = []"
  by (simp add: pm_strings_def)

lemma pm_strings_Cons [simp]: "pm_strings ((k, v) # m) = pv_strings v @ pm_strings m"
  by (simp add: pm_strings_def)

end
