(* ===== verification/Messages.thy ===== *)
theory Messages
  imports Go_Decode Reflect
begin

section \<open>The protocol messages and the library that puts them on the wire\<close>

text \<open>
  The messages of Cursor's \<open>agent.v1\<close> protocol that the plugin builds or reads through generated
  Go structs (\<open>internal/cursorpb/gen/agent.pb.go\<close>), with the fields it touches. Messages it handles
  by reflection are dynamic (\<open>pmsg\<close> of \<open>Reflect\<close>).

  The protobuf runtime (\<open>proto\<close>, \<open>protojson\<close>, \<open>structpb\<close>) is third-party code: the record
  \<open>proto_lib\<close> collects the functions of it that the plugin calls, and every definition that reaches
  one takes such a record as its argument.
\<close>

subsection \<open>The conversation a run request carries\<close>

datatype conversation_step = AssistantMessage string | StepToolCall pmsg

record conversation_state =
  cs_turns :: "bytes list"
  cs_root_prompt_messages_json :: "bytes list"
  cs_other :: pmsg

record mcp_tool_definition =
  mtd_name :: string
  mtd_description :: string
  mtd_provider_identifier :: string
  mtd_tool_name :: string
  mtd_input_schema :: bytes

datatype conversation_action = UserMessageAction string string | ResumeAction

record agent_run_request =
  arr_conversation_state :: conversation_state
  arr_action :: conversation_action
  arr_model_id :: string
  arr_mcp_tools :: "mcp_tool_definition list option"
  arr_conversation_id :: "string option"

subsection \<open>What the server sends\<close>

text \<open>A populated oneof member: its field's name and its value.\<close>

type_synonym oneof_value = "(string \<times> pval) option"

datatype interaction_update =
    TextDelta "string option"
  | ToolCallCompleted "oneof_value option option"
  | TokenDelta "32 word option"
  | TurnEnded
  | OtherUpdate string
  | NoUpdate

datatype kv_request = GetBlobArgs bytes | SetBlobArgs bytes bytes

record kv_server_message =
  ksm_id :: "32 word"
  ksm_message :: "kv_request option"

record exec_server_message =
  esm_id :: "32 word"
  esm_exec_id :: string
  esm_message :: oneof_value

datatype server_message =
    ServerInteractionUpdate "interaction_update option"
  | ServerKv kv_server_message
  | ServerExec exec_server_message
  | ServerCheckpoint "conversation_state option"
  | ServerOther

subsection \<open>What the client sends\<close>

datatype kv_response = GetBlobResult "bytes option" | SetBlobResult

record kv_client_message =
  kcm_id :: "32 word"
  kcm_message :: kv_response

record exec_client_message =
  ecm_id :: "32 word"
  ecm_exec_id :: string
  ecm_message :: "string \<times> pmsg"

datatype client_message =
    RunRequest agent_run_request
  | KvClientMessage kv_client_message
  | ExecClientMessage exec_client_message
  | ClientHeartbeat

subsection \<open>The protobuf runtime\<close>

datatype pb_message =
    PB_UserMessage string string
  | PB_ConversationStep conversation_step
  | PB_AgentConversationTurn bytes "bytes list"
  | PB_Value json
  | PB_ClientMessage client_message

text \<open>
  \<open>pb_marshal\<close> and \<open>pb_unmarshal_server\<close> are \<open>proto.Marshal\<close> and \<open>proto.Unmarshal\<close>;
  \<open>pb_unmarshal_value\<close> is the decoding of a \<open>google.protobuf.Value\<close>, \<open>None\<close> when it fails or the
  value has no kind. \<open>sp_new_value\<close> is \<open>structpb.NewValue\<close>. \<open>pj_marshal\<close> is \<open>protojson.Marshal\<close> of
  a message of the named type and \<open>pj_unmarshal\<close> is \<open>protojson\<close>'s \<open>Unmarshal\<close> with
  \<open>DiscardUnknown\<close>, which fills the message as far as it gets and returns its error, if any.
\<close>

record proto_lib =
  pb_marshal :: "pb_message \<Rightarrow> bytes go_result"
  pb_unmarshal_server :: "bytes \<Rightarrow> server_message go_result"
  pb_unmarshal_value :: "bytes \<Rightarrow> json option"
  sp_new_value :: "json \<Rightarrow> json go_result"
  pj_marshal_value :: "json \<Rightarrow> string go_result"
  pj_marshal :: "string \<Rightarrow> pmsg \<Rightarrow> string go_result"
  pj_unmarshal :: "string \<Rightarrow> string \<Rightarrow> pmsg \<times> string option"

text \<open>A Go library function returns; it does not panic on the plugin's inputs.\<close>

definition marshal_returns :: "proto_lib \<Rightarrow> bool" where
  "marshal_returns pl =
     ((\<forall>m. \<not> is_panic (pb_marshal pl m)) \<and> (\<forall>v. \<not> is_panic (sp_new_value pl v)))"

lemma marshal_returnsD:
  "marshal_returns pl \<Longrightarrow> \<not> is_panic (pb_marshal pl m)"
  "marshal_returns pl \<Longrightarrow> \<not> is_panic (sp_new_value pl v)"
  by (simp_all add: marshal_returns_def)

end
