(* ===== verification/Conversation.thy ===== *)
theory Conversation
  imports Blob_Store Chat_Format Messages
begin

section \<open>The conversation cache and conversation ids\<close>

text \<open>
  \<open>internal/executor/conversation.go\<close>: a cache of per-conversation state, bounded by age and by
  number, and the derivation of a conversation's id from its opening messages.

  Blob stores are shared by reference: an entry holds the address of its store in the heap
  \<open>cc_heap\<close>, so a run keeps its store even when the cache drops the entry. A \<open>range\<close> over a
  Go map visits its entries in no fixed order: the parameter \<open>ord\<close> is the order of a visit.
\<close>

subsection \<open>State\<close>

definition conversation_ttl :: time where
  "conversation_ttl = 30 * 60 * second"

definition max_cached_conversations :: nat where
  "max_cached_conversations = 64"

record conversation_entry =
  ce_blobs :: nat
  ce_checkpoint :: "conversation_state option"
  ce_last_access :: time

type_synonym entries = "(string \<times> conversation_entry) list"

record conversation_cache =
  cc_entries :: entries
  cc_heap :: "nat \<Rightarrow> blob_store"
  cc_next :: nat

definition new_conversation_cache :: conversation_cache where
  "new_conversation_cache = \<lparr>cc_entries = [], cc_heap = (\<lambda>_. new_blob_store), cc_next = 0\<rparr>"

definition entry_del :: "string \<Rightarrow> entries \<Rightarrow> entries" where
  "entry_del k es = filter (\<lambda>(k', e). k' \<noteq> k) es"

subsection \<open>acquire\<close>

text \<open>The first loop: drop the entries idle for longer than the TTL.\<close>

fun drop_stale :: "string \<Rightarrow> time \<Rightarrow> entries \<Rightarrow> entries \<Rightarrow> entries" where
  "drop_stale i now [] es = es"
| "drop_stale i now ((k, e) # visit) es =
     drop_stale i now visit
       (if k \<noteq> i \<and> now - ce_last_access e > conversation_ttl then entry_del k es else es)"

text \<open>The search for the least recently used entry other than \<open>i\<close>; \<open>(key, time)\<close> start empty and zero.\<close>

fun find_oldest :: "string \<Rightarrow> string \<times> time \<Rightarrow> entries \<Rightarrow> string \<times> time" where
  "find_oldest i best [] = best"
| "find_oldest i (bk, bt) ((k, e) # visit) =
     (if k = i then find_oldest i (bk, bt) visit
      else if bt = 0 \<or> ce_last_access e < bt then find_oldest i (k, ce_last_access e) visit
      else find_oldest i (bk, bt) visit)"

text \<open>
  The second loop: each round deletes an entry of the map, or breaks. (A visit yields keys of the
  map, so the deletion shrinks it; the test of the lengths only makes that known to the recursion.)
\<close>

function drop_overflow :: "(entries \<Rightarrow> entries) \<Rightarrow> string \<Rightarrow> entries \<Rightarrow> entries" where
  "drop_overflow ord i es =
     (if length es \<le> max_cached_conversations then es
      else let oldest = fst (find_oldest i ([], 0) (ord es)) in
           if oldest = [] \<or> length (entry_del oldest es) \<ge> length es then es
           else drop_overflow ord i (entry_del oldest es))"
  by pat_completeness auto
termination
  by (relation "measure (\<lambda>(ord, i, es). length es)") auto

declare drop_overflow.simps [simp del]

definition acquire ::
  "(entries \<Rightarrow> entries) \<Rightarrow> time \<Rightarrow> string \<Rightarrow> conversation_cache \<Rightarrow> conversation_entry \<times> conversation_cache" where
  "acquire ord now i c =
     (let es = drop_stale i now (ord (cc_entries c)) (cc_entries c);
          (e, heap, next) =
            (case map_of es i of
               Some e \<Rightarrow> (e, cc_heap c, cc_next c)
             | None \<Rightarrow> (\<lparr>ce_blobs = cc_next c, ce_checkpoint = None, ce_last_access = 0\<rparr>,
                        (cc_heap c)(cc_next c := new_blob_store), Suc (cc_next c)));
          e' = e\<lparr>ce_last_access := now\<rparr>
      in (e', \<lparr>cc_entries = drop_overflow ord i ((i, e') # entry_del i es),
               cc_heap = heap, cc_next = next\<rparr>))"

subsection \<open>storeCheckpoint and the run's view of its blob store\<close>

definition store_checkpoint ::
  "time \<Rightarrow> string \<Rightarrow> conversation_state option \<Rightarrow> conversation_cache \<Rightarrow> conversation_cache" where
  "store_checkpoint now i cp c =
     (case cp of None \<Rightarrow> c
      | Some s \<Rightarrow>
          (case map_of (cc_entries c) i of None \<Rightarrow> c
           | Some e \<Rightarrow> c\<lparr>cc_entries :=
               map (\<lambda>(k, x). if k = i then (k, e\<lparr>ce_checkpoint := Some s, ce_last_access := now\<rparr>) else (k, x))
                 (cc_entries c)\<rparr>))"

definition deref_blobs :: "conversation_cache \<Rightarrow> conversation_entry \<Rightarrow> blob_store" where
  "deref_blobs c e = cc_heap c (ce_blobs e)"

definition write_blobs :: "conversation_entry \<Rightarrow> blob_store \<Rightarrow> conversation_cache \<Rightarrow> conversation_cache" where
  "write_blobs e b c = c\<lparr>cc_heap := (cc_heap c)(ce_blobs e := b)\<rparr>"

subsection \<open>newMessageID and conversationIDFor\<close>

definition new_message_id :: "entropy \<Rightarrow> string go_result \<times> entropy" where
  "new_message_id en = (let (r, en') = rand_read 16 en in (go_bind r (\<lambda>b. Ok (hex_encode b)), en'))"

text \<open>The first message of a role that has content.\<close>

fun first_of_role :: "string \<Rightarrow> chat_message list \<Rightarrow> string option" where
  "first_of_role role [] = None"
| "first_of_role role (m # ms) =
     (if cm_role m \<noteq> role \<or> cm_content m = [] then first_of_role role ms else Some (cm_content m))"

definition opening_part :: "string \<Rightarrow> chat_message list \<Rightarrow> string" where
  "opening_part role ms =
     (case first_of_role role ms of None \<Rightarrow> [] | Some c \<Rightarrow> role @ [CHR 0x00] @ c)"

definition conversation_id_for :: "chat_message list \<Rightarrow> entropy \<Rightarrow> string \<times> entropy" where
  "conversation_id_for ms en =
     (if first_of_role ''system'' ms = None \<and> first_of_role ''user'' ms = None then
        (case new_message_id en of
           (Ok g, en') \<Rightarrow> (''cursor-conversation-'' @ g, en')
         | (_, en') \<Rightarrow> (''cursor-conversation-fallback'', en'))
      else (''cursor-conversation-''
              @ hex_encode (take 16 (sha256 (to_bytes (opening_part ''system'' ms @ opening_part ''user'' ms)))), en))"

subsection \<open>The cache's invariant\<close>

definition valid_order :: "(entries \<Rightarrow> entries) \<Rightarrow> bool" where
  "valid_order ord = (\<forall>es. set (ord es) = set es)"

text \<open>
  Keys are distinct, conversation ids are not empty, every entry has been accessed, and entries hold
  distinct allocated blob stores.
\<close>

definition entries_ok :: "entries \<Rightarrow> bool" where
  "entries_ok es = (distinct (map fst es) \<and> (\<forall>(k, e) \<in> set es. k \<noteq> [] \<and> 0 < ce_last_access e))"

definition cache_ok :: "conversation_cache \<Rightarrow> bool" where
  "cache_ok c = (entries_ok (cc_entries c) \<and> length (cc_entries c) \<le> max_cached_conversations
     \<and> distinct (map (ce_blobs \<circ> snd) (cc_entries c))
     \<and> (\<forall>(k, e) \<in> set (cc_entries c). ce_blobs e < cc_next c))"

lemma set_entry_del [simp]: "set (entry_del k es) = {p \<in> set es. fst p \<noteq> k}"
  by (auto simp: entry_del_def)

lemma map_of_entry_del [simp]: "map_of (entry_del k es) i = (if i = k then None else map_of es i)"
  by (induction es) (auto simp: entry_del_def)

lemma distinct_map_entry_del: "distinct (map f es) \<Longrightarrow> distinct (map f (entry_del k es))"
  by (simp add: entry_del_def distinct_map_filter)

lemma entries_ok_del [inv_intros]: "entries_ok es \<Longrightarrow> entries_ok (entry_del k es)"
  by (auto simp: entries_ok_def distinct_map_entry_del)

lemma length_entry_del: "distinct (map fst es) \<Longrightarrow> k \<in> fst ` set es \<Longrightarrow> Suc (length (entry_del k es)) = length es"
proof (induction es)
  case (Cons p es)
  show ?case
  proof (cases "fst p = k")
    case True
    then have "k \<notin> fst ` set es" using Cons.prems by auto
    then have "entry_del k es = es" by (force simp: entry_del_def filter_id_conv)
    then show ?thesis using True by (simp add: entry_del_def case_prod_unfold)
  next
    case False
    then show ?thesis using Cons by (auto simp: entry_del_def case_prod_unfold)
  qed
qed simp

lemma entry_del_shorter: "k \<in> fst ` set es \<Longrightarrow> length (entry_del k es) < length es"
  by (auto simp: entry_del_def intro: length_filter_less)

text \<open>What either loop keeps: a sublist, \<open>i\<close>'s entry, and the distinctness of keys and blob stores.\<close>

definition shrinks :: "string \<Rightarrow> entries \<Rightarrow> entries \<Rightarrow> bool" where
  "shrinks i es es' = (set es' \<subseteq> set es \<and> length es' \<le> length es \<and> map_of es' i = map_of es i
     \<and> (distinct (map fst es) \<longrightarrow> distinct (map fst es'))
     \<and> (distinct (map (ce_blobs \<circ> snd) es) \<longrightarrow> distinct (map (ce_blobs \<circ> snd) es')))"

lemma shrinks_refl [simp]: "shrinks i es es"
  by (simp add: shrinks_def)

lemma shrinks_trans: "shrinks i a b \<Longrightarrow> shrinks i b c \<Longrightarrow> shrinks i a c"
  by (auto simp: shrinks_def)

lemma shrinks_del: "k \<noteq> i \<Longrightarrow> shrinks i es (entry_del k es)"
  by (auto simp: shrinks_def distinct_map_entry_del) (simp add: entry_del_def)

lemma shrinks_ok: "shrinks i es es' \<Longrightarrow> entries_ok es \<Longrightarrow> entries_ok es'"
  by (auto simp: shrinks_def entries_ok_def)

lemma drop_stale_shrinks: "shrinks i es (drop_stale i now visit es)"
proof (induction i now visit es rule: drop_stale.induct)
  case (2 i now k e visit es)
  then show ?case by (auto intro: shrinks_trans shrinks_del)
qed simp

lemma find_oldest_cases:
  assumes "\<forall>(k, e) \<in> set visit. k \<noteq> [] \<and> 0 < ce_last_access e" and "bk = [] \<longleftrightarrow> bt = 0" and "0 \<le> bt"
  shows "(find_oldest i (bk, bt) visit = (bk, bt) \<or>
          (\<exists>(k, e) \<in> set visit. k \<noteq> i \<and> find_oldest i (bk, bt) visit = (k, ce_last_access e)))
       \<and> (bk \<noteq> [] \<longrightarrow> snd (find_oldest i (bk, bt) visit) \<le> bt)
       \<and> (\<forall>(k, e) \<in> set visit. k \<noteq> i \<longrightarrow> fst (find_oldest i (bk, bt) visit) \<noteq> []
              \<and> snd (find_oldest i (bk, bt) visit) \<le> ce_last_access e)"
  using assms
proof (induction visit arbitrary: bk bt)
  case (Cons p visit)
  obtain k e where p: "p = (k, e)" by (cases p)
  consider "k = i" | "k \<noteq> i" "bt = 0 \<or> ce_last_access e < bt" | "k \<noteq> i" "bt \<noteq> 0" "bt \<le> ce_last_access e"
    by linarith
  then show ?case
  proof cases
    case 1
    then show ?thesis using Cons.IH [of bk bt] Cons.prems by (auto simp: p)
  next
    case 2
    then show ?thesis using Cons.IH [of k "ce_last_access e"] Cons.prems by (auto simp: p)
  next
    case 3
    then show ?thesis using Cons.IH [of bk bt] Cons.prems by (fastforce simp: p)
  qed
qed simp

lemma find_oldest_entry:
  assumes ord: "valid_order ord" and ok: "entries_ok es" and len: "1 < length es"
  obtains k e where "(k, e) \<in> set es" "k \<noteq> i" "k \<noteq> []" "find_oldest i ([], 0) (ord es) = (k, ce_last_access e)"
    "\<And>k' e'. (k', e') \<in> set es \<Longrightarrow> k' \<noteq> i \<Longrightarrow> ce_last_access e \<le> ce_last_access e'"
proof -
  have set_ord: "set (ord es) = set es" using ord by (simp add: valid_order_def)
  have "\<not> set es \<subseteq> {p. fst p = i}"
  proof
    assume "set es \<subseteq> {p. fst p = i}"
    then have "fst ` set es \<subseteq> {i}" by auto
    then have "card (set (map fst es)) \<le> 1" using card_mono [of "{i}"] by simp
    moreover have "card (set (map fst es)) = length es"
      using ok distinct_card [of "map fst es"] by (simp add: entries_ok_def)
    ultimately show False using len by simp
  qed
  then obtain p where "p \<in> set es" "fst p \<noteq> i" by blast
  then have p0: "(fst p, snd p) \<in> set es" "fst p \<noteq> i" by simp_all
  have "\<forall>(k, e) \<in> set (ord es). k \<noteq> [] \<and> 0 < ce_last_access e"
    using ok by (simp add: entries_ok_def set_ord)
  from find_oldest_cases [OF this, of "[]" 0 i] set_ord
  have found: "find_oldest i ([], 0) (ord es) = ([], 0) \<or>
      (\<exists>(k, e) \<in> set es. k \<noteq> i \<and> find_oldest i ([], 0) (ord es) = (k, ce_last_access e))"
    and least: "\<And>k e. (k, e) \<in> set es \<Longrightarrow> k \<noteq> i \<Longrightarrow> fst (find_oldest i ([], 0) (ord es)) \<noteq> []
        \<and> snd (find_oldest i ([], 0) (ord es)) \<le> ce_last_access e"
    by auto
  from found least [OF p0] obtain k e where "(k, e) \<in> set es" "k \<noteq> i"
      "find_oldest i ([], 0) (ord es) = (k, ce_last_access e)"
    by auto
  with least show thesis by (intro that [of k e]) auto
qed

definition lru :: "string \<Rightarrow> entries \<Rightarrow> entries \<Rightarrow> bool" where
  "lru i es es' = (\<forall>p \<in> set es - set es'. \<forall>q \<in> set es'. fst q \<noteq> i \<longrightarrow>
     ce_last_access (snd p) \<le> ce_last_access (snd q))"

lemma lru_del:
  assumes "lru i (entry_del k es) es'" and "set es' \<subseteq> set es"
    and least: "\<And>k' e'. (k', e') \<in> set es \<Longrightarrow> k' \<noteq> i \<Longrightarrow> la \<le> ce_last_access e'"
    and only: "\<And>e1. (k, e1) \<in> set es \<Longrightarrow> ce_last_access e1 = la"
  shows "lru i es es'"
  unfolding lru_def
proof (intro ballI impI)
  fix p q assume p: "p \<in> set es - set es'" and q: "q \<in> set es'" "fst q \<noteq> i"
  show "ce_last_access (snd p) \<le> ce_last_access (snd q)"
  proof (cases "fst p = k")
    case True
    then have "(k, snd p) \<in> set es" using p by auto
    moreover have "(fst q, snd q) \<in> set es" using q assms(2) by auto
    ultimately show ?thesis using only least q(2) by metis
  next
    case False
    then show ?thesis using assms(1) p q by (simp add: lru_def)
  qed
qed

lemma drop_overflow_spec:
  assumes "valid_order ord" and "entries_ok es"
  shows "shrinks i es (drop_overflow ord i es) \<and> length (drop_overflow ord i es) \<le> max_cached_conversations
    \<and> lru i es (drop_overflow ord i es)
    \<and> (max_cached_conversations \<le> length es \<longrightarrow> length (drop_overflow ord i es) = max_cached_conversations)"
  using assms
proof (induction ord i es rule: drop_overflow.induct)
  case (1 ord i es)
  show ?case
  proof (cases "length es \<le> max_cached_conversations")
    case True
    then show ?thesis by (auto simp: drop_overflow.simps [of ord i es] lru_def)
  next
    case False
    then have "1 < length es" by (simp add: max_cached_conversations_def)
    then obtain k e where k: "(k, e) \<in> set es" "k \<noteq> i" "k \<noteq> []"
        "find_oldest i ([], 0) (ord es) = (k, ce_last_access e)"
        "\<And>k' e'. (k', e') \<in> set es \<Longrightarrow> k' \<noteq> i \<Longrightarrow> ce_last_access e \<le> ce_last_access e'"
      using find_oldest_entry [OF "1.prems"] by blast
    have "Suc (length (entry_del k es)) = length es"
      using k(1) "1.prems"(2) by (intro length_entry_del) (auto simp: entries_ok_def intro: rev_image_eqI)
    then have short: "length (entry_del k es) < length es" "max_cached_conversations \<le> length (entry_del k es)"
      using False by simp_all
    have step: "drop_overflow ord i es = drop_overflow ord i (entry_del k es)"
      using False k short by (simp add: drop_overflow.simps [of ord i es])
    have same: "ce_last_access e1 = ce_last_access e" if "(k, e1) \<in> set es" for e1
      using that k(1) "1.prems"(2) by (auto simp: entries_ok_def dest: eq_key_imp_eq_value)
    have rec: "shrinks i (entry_del k es) (drop_overflow ord i es)
      \<and> length (drop_overflow ord i es) \<le> max_cached_conversations \<and> lru i (entry_del k es) (drop_overflow ord i es)
      \<and> length (drop_overflow ord i es) = max_cached_conversations"
      unfolding step using "1.IH" [OF False refl] short k(3,4) "1.prems" by (simp add: entries_ok_del)
    then have shr: "shrinks i es (drop_overflow ord i es)"
      using k(2) shrinks_del shrinks_trans by blast
    then have "lru i es (drop_overflow ord i es)"
      using rec k(5) same by (intro lru_del [of i k es]) (auto simp: shrinks_def)
    with rec shr show ?thesis by blast
  qed
qed

lemma drop_overflow_small: "length es \<le> max_cached_conversations \<Longrightarrow> drop_overflow ord i es = es"
  by (simp add: drop_overflow.simps)

lemma drop_stale_fresh:
  assumes "(k, e) \<in> set (drop_stale i now visit es)" and "k \<noteq> i" and "(k, e) \<in> set visit"
  shows "now - ce_last_access e \<le> conversation_ttl"
  using assms
proof (induction i now visit es rule: drop_stale.induct)
  case (2 i now k' e' visit es)
  have "set (drop_stale i now visit (entry_del k' es)) \<subseteq> set (entry_del k' es)"
    using drop_stale_shrinks [of i "entry_del k' es" now visit] by (simp add: shrinks_def)
  with 2 show ?case by (auto split: if_splits)
qed simp

lemma drop_stale_keeps:
  assumes "(k, e) \<in> set es" and "\<And>e'. (k, e') \<in> set visit \<Longrightarrow> now - ce_last_access e' \<le> conversation_ttl"
  shows "(k, e) \<in> set (drop_stale i now visit es)"
  using assms
proof (induction i now visit es rule: drop_stale.induct)
  case (2 i now k' e' visit es)
  show ?case
  proof (cases "k' = k")
    case True
    then have "now - ce_last_access e' \<le> conversation_ttl" using "2.prems"(2) by simp
    then have "drop_stale i now ((k', e') # visit) es = drop_stale i now visit es" by simp
    then show ?thesis using 2 \<open>now - ce_last_access e' \<le> conversation_ttl\<close> by simp
  next
    case False
    then show ?thesis using 2 by simp
  qed
qed simp

subsection \<open>acquire\<close>

text \<open>What \<open>acquire\<close> returns and keeps; \<open>es\<close> are the entries that outlived the TTL.\<close>

lemma acquire_cases:
  assumes ok: "cache_ok c" and ord: "valid_order ord" and i: "i \<noteq> []" and now: "0 < now"
    and acq: "acquire ord now i c = (e, c')"
  obtains es where "es = drop_stale i now (ord (cc_entries c)) (cc_entries c)"
    and "shrinks i (cc_entries c) es" and "entries_ok ((i, e) # entry_del i es)"
    and "cc_entries c' = drop_overflow ord i ((i, e) # entry_del i es)"
    and "ce_last_access e = now"
    and "distinct (map (ce_blobs \<circ> snd) ((i, e) # entry_del i es))"
    and "\<And>k x. (k, x) \<in> set ((i, e) # entry_del i es) \<Longrightarrow> ce_blobs x < cc_next c'"
    and "case map_of (cc_entries c) i of
           Some e0 \<Rightarrow> ce_blobs e = ce_blobs e0 \<and> ce_checkpoint e = ce_checkpoint e0 \<and> cc_heap c' = cc_heap c
         | None \<Rightarrow> ce_blobs e = cc_next c \<and> ce_checkpoint e = None \<and> cc_heap c' = (cc_heap c)(cc_next c := new_blob_store)"
proof -
  define es where "es = drop_stale i now (ord (cc_entries c)) (cc_entries c)"
  have shr: "shrinks i (cc_entries c) es" by (simp add: es_def drop_stale_shrinks)
  have es_ok: "entries_ok es" using shr ok by (auto simp: cache_ok_def intro: shrinks_ok)
  have refs: "\<And>k x. (k, x) \<in> set es \<Longrightarrow> ce_blobs x < cc_next c" and dist: "distinct (map (ce_blobs \<circ> snd) es)"
    using shr ok by (auto simp: cache_ok_def shrinks_def)
  have same: "map_of es i = map_of (cc_entries c) i" using shr by (simp add: shrinks_def)
  have e_ok: "entries_ok ((i, x) # entry_del i es)" if "ce_last_access x = now" for x
    using entries_ok_del [OF es_ok, of i] i now that by (auto simp: entries_ok_def)
  show thesis
  proof (cases "map_of (cc_entries c) i")
    case None
    have "distinct (map (ce_blobs \<circ> snd) (entry_del i es))" using dist by (rule distinct_map_entry_del)
    with acq None show thesis
      by (intro that [OF es_def shr e_ok])
         (use refs in \<open>force simp: acquire_def es_def [symmetric] same Let_def\<close>)+
  next
    case (Some e0)
    then have mem: "(i, e0) \<in> set es" using same by (auto dest: map_of_SomeD)
    have "\<forall>p \<in> set (entry_del i es). ce_blobs (snd p) \<noteq> ce_blobs e0"
      using dist mem by (force simp: distinct_map inj_on_def)
    moreover have "distinct (map (ce_blobs \<circ> snd) (entry_del i es))" using dist by (rule distinct_map_entry_del)
    ultimately show thesis using acq Some mem
      by (intro that [OF es_def shr e_ok])
         (use refs in \<open>force simp: acquire_def es_def [symmetric] same Let_def\<close>)+
  qed
qed

lemma map_of_shrinks:
  assumes "shrinks i es es'" and "distinct (map fst es)"
  shows "map_of es' k = map_of es k \<or> map_of es' k = None"
proof (cases "map_of es' k")
  case (Some x)
  then have "(k, x) \<in> set es" using assms(1) by (auto simp: shrinks_def dest: map_of_SomeD)
  then show ?thesis using Some assms(2) by simp
qed simp

lemma cache_ok_keys: "cache_ok c \<Longrightarrow> distinct (map fst (cc_entries c))"
  by (simp add: cache_ok_def entries_ok_def)

lemma acquire_facts:
  assumes "cache_ok c" and "valid_order ord" and "i \<noteq> []" and "0 < now"
    and acq: "acquire ord now i c = (e, c')"
  shows "cache_ok c' \<and> length (cc_entries c') \<le> 64 \<and> map_of (cc_entries c') i = Some e
    \<and> ce_last_access e = now
    \<and> deref_blobs c' e = (case map_of (cc_entries c) i of None \<Rightarrow> new_blob_store | Some e0 \<Rightarrow> deref_blobs c e0)
    \<and> ce_checkpoint e = (case map_of (cc_entries c) i of None \<Rightarrow> None | Some e0 \<Rightarrow> ce_checkpoint e0)
    \<and> (\<forall>k. k \<noteq> i \<longrightarrow> map_of (cc_entries c') k = map_of (cc_entries c) k \<or> map_of (cc_entries c') k = None)"
proof -
  obtain es where "es = drop_stale i now (ord (cc_entries c)) (cc_entries c)"
    and shr: "shrinks i (cc_entries c) es" and ok: "entries_ok ((i, e) # entry_del i es)"
    and c': "cc_entries c' = drop_overflow ord i ((i, e) # entry_del i es)" and la: "ce_last_access e = now"
    and dist: "distinct (map (ce_blobs \<circ> snd) ((i, e) # entry_del i es))"
    and refs: "\<And>k x. (k, x) \<in> set ((i, e) # entry_del i es) \<Longrightarrow> ce_blobs x < cc_next c'"
    and heap: "case map_of (cc_entries c) i of
           Some e0 \<Rightarrow> ce_blobs e = ce_blobs e0 \<and> ce_checkpoint e = ce_checkpoint e0 \<and> cc_heap c' = cc_heap c
         | None \<Rightarrow> ce_blobs e = cc_next c \<and> ce_checkpoint e = None \<and> cc_heap c' = (cc_heap c)(cc_next c := new_blob_store)"
    by (rule acquire_cases [OF assms(1-4) acq]) (rule that)
  define L where "L = (i, e) # entry_del i es"
  note facts = ok [folded L_def] c' [folded L_def] dist [folded L_def] refs [folded L_def]
  have spec: "shrinks i L (cc_entries c')" and len: "length (cc_entries c') \<le> max_cached_conversations"
    using drop_overflow_spec [OF assms(2) facts(1), of i, folded facts(2)] by simp_all
  have "distinct (map (ce_blobs \<circ> snd) (cc_entries c'))" and sub: "set (cc_entries c') \<subseteq> set L"
    using spec facts(3) by (simp_all add: shrinks_def)
  then have "cache_ok c'"
    using len shrinks_ok [OF spec facts(1)] facts(4) by (auto simp: cache_ok_def)
  moreover have at_i: "map_of (cc_entries c') i = Some e" using spec by (simp add: shrinks_def L_def)
  moreover have "map_of (cc_entries c') k = map_of (cc_entries c) k \<or> map_of (cc_entries c') k = None" if "k \<noteq> i" for k
  proof -
    have "distinct (map fst L)" using facts(1) by (simp add: entries_ok_def)
    from map_of_shrinks [OF spec this, of k] map_of_shrinks [OF shr cache_ok_keys [OF assms(1)], of k] that
    show ?thesis by (auto simp: L_def)
  qed
  moreover have "deref_blobs c' e = (case map_of (cc_entries c) i of None \<Rightarrow> new_blob_store | Some e0 \<Rightarrow> deref_blobs c e0)"
    and "ce_checkpoint e = (case map_of (cc_entries c) i of None \<Rightarrow> None | Some e0 \<Rightarrow> ce_checkpoint e0)"
    using heap by (simp_all add: deref_blobs_def split: option.splits)
  ultimately show ?thesis
    using la len by (simp add: max_cached_conversations_def)
qed

text \<open>
  \<open>acquire\<close> keeps the cache's invariant, with at most 64 entries, returns the entry the cache now
  holds for the conversation with the blob store and checkpoint it had before (a fresh store and no
  checkpoint for a new conversation), and leaves any other entry alone or drops it.
\<close>

theorem acquire_ok:
  assumes "cache_ok c" and "valid_order ord" and "i \<noteq> []" and "0 < now"
    and acq: "acquire ord now i c = (e, c')"
  shows "cache_ok c' \<and> length (cc_entries c') \<le> 64 \<and> map_of (cc_entries c') i = Some e
    \<and> ce_last_access e = now
    \<and> deref_blobs c' e = (case map_of (cc_entries c) i of None \<Rightarrow> new_blob_store | Some e0 \<Rightarrow> deref_blobs c e0)
    \<and> ce_checkpoint e = (case map_of (cc_entries c) i of None \<Rightarrow> None | Some e0 \<Rightarrow> ce_checkpoint e0)
    \<and> (\<forall>k. k \<noteq> i \<longrightarrow> map_of (cc_entries c') k = map_of (cc_entries c) k \<or> map_of (cc_entries c') k = None)"
  using acquire_facts [OF assms] .

lemma acquire_ok_witness:
  "cache_ok (snd (acquire (\<lambda>es. es) 1 ''a'' new_conversation_cache))"
  using acquire_ok [of new_conversation_cache "\<lambda>es. es" "''a''" 1 "fst (acquire (\<lambda>es. es) 1 ''a'' new_conversation_cache)"
      "snd (acquire (\<lambda>es. es) 1 ''a'' new_conversation_cache)"]
  by (simp add: cache_ok_def entries_ok_def new_conversation_cache_def valid_order_def)

text \<open>
  C35: a conversation that is dropped although it was used within the TTL is dropped because the
  cache is full, and is a least recently used one: every entry that stays, the acquired one apart,
  was used no earlier.
\<close>

theorem acquire_evicts_lru:
  assumes "cache_ok c" and "valid_order ord" and "i \<noteq> []" and "0 < now"
    and acq: "acquire ord now i c = (e, c')"
    and mem: "(k, x) \<in> set (cc_entries c)" and other: "k \<noteq> i"
    and fresh: "now - ce_last_access x \<le> conversation_ttl" and gone: "map_of (cc_entries c') k = None"
  shows "length (cc_entries c') = max_cached_conversations
    \<and> (\<forall>(k', x') \<in> set (cc_entries c'). k' \<noteq> i \<longrightarrow> ce_last_access x \<le> ce_last_access x')"
proof -
  obtain es where es: "es = drop_stale i now (ord (cc_entries c)) (cc_entries c)"
    and ok: "entries_ok ((i, e) # entry_del i es)"
    and c': "cc_entries c' = drop_overflow ord i ((i, e) # entry_del i es)"
    using acquire_cases [OF assms(1-4) acq] by metis
  have "\<And>e'. (k, e') \<in> set (ord (cc_entries c)) \<Longrightarrow> now - ce_last_access e' \<le> conversation_ttl"
    using assms(2) mem fresh cache_ok_keys [OF assms(1)] by (auto simp: valid_order_def dest: eq_key_imp_eq_value)
  then have kept: "(k, x) \<in> set ((i, e) # entry_del i es)"
    using drop_stale_keeps [OF mem] other by (simp add: es)
  define L where "L = (i, e) # entry_del i es"
  note facts = ok [folded L_def] c' [folded L_def] kept [folded L_def]
  have lost: "(k, x) \<notin> set (cc_entries c')"
    using gone by (auto simp: map_of_eq_None_iff intro: rev_image_eqI)
  then have "\<not> length L \<le> max_cached_conversations"
    using facts drop_overflow_small by metis
  then have len: "length (cc_entries c') = max_cached_conversations" and lru: "lru i L (cc_entries c')"
    using drop_overflow_spec [OF assms(2) facts(1), of i, folded facts(2)] by simp_all
  have "\<forall>q \<in> set (cc_entries c'). fst q \<noteq> i \<longrightarrow> ce_last_access (snd (k, x)) \<le> ce_last_access (snd q)"
    using lru facts(3) lost unfolding lru_def by blast
  then show ?thesis using len by auto
qed

text \<open>A full cache, 64 conversations last used at times 1 to 64.\<close>

definition full_cache :: conversation_cache where
  "full_cache = \<lparr>cc_entries = map (\<lambda>n. (replicate (Suc n) CHR ''a'', \<lparr>ce_blobs = n, ce_checkpoint = None, ce_last_access = int n + 1\<rparr>)) [0..<64],
                 cc_heap = (\<lambda>_. new_blob_store), cc_next = 64\<rparr>"

lemma full_cache_ok: "cache_ok full_cache"
  by (auto simp: full_cache_def cache_ok_def entries_ok_def max_cached_conversations_def distinct_map inj_on_def comp_def)

lemma find_oldest_keeps:
  "\<forall>(k', e) \<in> set visit. t \<le> ce_last_access e \<Longrightarrow> 0 < t \<Longrightarrow> find_oldest i (k, t) visit = (k, t)"
  by (induction visit) auto

lemma full_cache_acquire:
  "map_of (cc_entries (snd (acquire (\<lambda>es. es) 65 ''new'' full_cache))) ''a'' = None"
proof -
  define tl where "tl = map (\<lambda>n. (replicate (Suc n) CHR ''a'', \<lparr>ce_blobs = n, ce_checkpoint = None, ce_last_access = int n + 1\<rparr>)) [1..<64]"
  define fc where "fc = (''a'', \<lparr>ce_blobs = 0, ce_checkpoint = None, ce_last_access = 1\<rparr>) # tl"
  have fc: "cc_entries full_cache = fc"
    by (simp add: full_cache_def fc_def tl_def upt_conv_Cons)
  have mem: "\<forall>(k, e) \<in> set fc. k \<noteq> ''new'' \<and> 1 \<le> ce_last_access e \<and> ce_last_access e \<le> 64"
    by (auto simp: fc_def tl_def Cons_replicate_eq)
  have "drop_stale ''new'' 65 visit fc = fc" if "set visit \<subseteq> set fc" for visit
    using that
  proof (induction visit)
    case (Cons p visit)
    then have "65 - ce_last_access (snd p) \<le> conversation_ttl"
      using mem by (auto simp: conversation_ttl_def second_def)
    then show ?case using Cons by (cases p) simp
  qed simp
  then have stale: "drop_stale ''new'' 65 fc fc = fc" by simp
  have new: "map_of fc ''new'' = None" "entry_del ''new'' fc = fc"
    using mem by (auto simp: map_of_eq_None_iff entry_del_def filter_id_conv)
  define e where "e = \<lparr>ce_blobs = 64, ce_checkpoint = None, ce_last_access = 65\<rparr>"
  have "\<forall>(k, x) \<in> set tl. 1 \<le> ce_last_access x" by (auto simp: tl_def)
  then have old: "find_oldest ''new'' ([], 0) ((''new'', e) # fc) = (''a'', 1)"
    by (simp add: fc_def find_oldest_keeps)
  have len: "length fc = 64" by (simp add: fc_def tl_def)
  have tl: "entry_del ''a'' tl = tl" by (auto simp: entry_del_def filter_id_conv tl_def)
  then have del: "entry_del ''a'' ((''new'', e) # fc) = (''new'', e) # tl" by (simp add: fc_def entry_del_def)
  have "drop_overflow (\<lambda>es. es) ''new'' ((''new'', e) # fc) = (''new'', e) # tl"
    using len old del by (subst drop_overflow.simps) (simp add: max_cached_conversations_def fc_def drop_overflow_small)
  then have "cc_entries (snd (acquire (\<lambda>es. es) 65 ''new'' full_cache)) = (''new'', e) # tl"
    by (simp add: acquire_def fc stale new e_def) (simp add: full_cache_def Let_def)
  then show ?thesis by (auto simp: map_of_eq_None_iff tl_def)
qed

lemma acquire_evicts_lru_witness:
  "length (cc_entries (snd (acquire (\<lambda>es. es) 65 ''new'' full_cache))) = max_cached_conversations"
proof -
  have "(''a'', \<lparr>ce_blobs = 0, ce_checkpoint = None, ce_last_access = 1\<rparr>) \<in> set (cc_entries full_cache)"
    by (auto simp: full_cache_def image_def)
  then show ?thesis
    using acquire_evicts_lru [OF full_cache_ok, of "\<lambda>es. es" "''new''" 65 _ _ "''a''"
        "\<lparr>ce_blobs = 0, ce_checkpoint = None, ce_last_access = 1\<rparr>"] full_cache_acquire
    by (simp add: valid_order_def conversation_ttl_def second_def) (metis prod.collapse)
qed

subsection \<open>storeCheckpoint and the heap\<close>

lemma map_of_store_checkpoint:
  "map_of (cc_entries (store_checkpoint now i cp c)) k =
     (if k = i \<and> cp \<noteq> None then map_option (\<lambda>e. e\<lparr>ce_checkpoint := cp, ce_last_access := now\<rparr>) (map_of (cc_entries c) i)
      else map_of (cc_entries c) k)"
proof -
  have "map_of (map (\<lambda>(k, x). if k = i then (k, y) else (k, x)) es) k =
      (if k = i then map_option (\<lambda>_. y) (map_of es i) else map_of es k)" for es :: entries and y
    by (induction es) auto
  then show ?thesis
    by (auto simp: store_checkpoint_def split: option.split)
qed

lemma cache_ok_store_checkpoint [inv_intros]:
  assumes "cache_ok c" and "0 < now" shows "cache_ok (store_checkpoint now i cp c)"
proof (cases "cp = None \<or> map_of (cc_entries c) i = None")
  case True
  then show ?thesis using assms by (auto simp: store_checkpoint_def split: option.splits)
next
  case False
  then obtain s e where "cp = Some s" and e: "map_of (cc_entries c) i = Some e" by auto
  let ?f = "\<lambda>(k, x). if k = i then (k, e\<lparr>ce_checkpoint := Some s, ce_last_access := now\<rparr>) else (k, x)"
  have c': "store_checkpoint now i cp c = c\<lparr>cc_entries := map ?f (cc_entries c)\<rparr>"
    using e \<open>cp = Some s\<close> by (simp add: store_checkpoint_def)
  have ref: "ce_blobs (snd (?f p)) = ce_blobs (snd p)" if "p \<in> set (cc_entries c)" for p
  proof (cases "fst p = i")
    case True
    then have "map_of (cc_entries c) i = Some (snd p)"
      using that cache_ok_keys [OF assms(1)] by (intro map_of_is_SomeI) auto
    then show ?thesis using e True by (simp add: case_prod_unfold)
  qed (simp add: case_prod_unfold)
  define es' where "es' = map ?f (cc_entries c)"
  have "map fst es' = map fst (cc_entries c)" by (auto simp: es'_def)
  moreover have "map (ce_blobs \<circ> snd) es' = map (ce_blobs \<circ> snd) (cc_entries c)"
    using ref by (simp add: es'_def)
  moreover have "length es' = length (cc_entries c)" by (simp add: es'_def)
  moreover have "\<forall>p \<in> set es'. fst p \<noteq> [] \<and> 0 < ce_last_access (snd p) \<and> ce_blobs (snd p) < cc_next c"
  proof
    fix p assume "p \<in> set es'"
    then obtain q where q: "q \<in> set (cc_entries c)" "p = ?f q" unfolding es'_def set_map by (rule imageE)
    have "fst q \<noteq> [] \<and> 0 < ce_last_access (snd q) \<and> ce_blobs (snd q) < cc_next c"
      using assms(1) q(1) by (auto simp: cache_ok_def entries_ok_def)
    moreover have "fst p = fst q" using q(2) by (simp add: case_prod_unfold)
    moreover have "ce_last_access (snd p) = now \<or> snd p = snd q" using q(2) by (simp add: case_prod_unfold)
    moreover have "ce_blobs (snd p) = ce_blobs (snd q)" using q ref by simp
    ultimately show "fst p \<noteq> [] \<and> 0 < ce_last_access (snd p) \<and> ce_blobs (snd p) < cc_next c"
      using assms(2) by auto
  qed
  ultimately show ?thesis
    using assms(1) unfolding c' es'_def [symmetric] cache_ok_def entries_ok_def by (simp add: case_prod_unfold del: map_map)
qed

lemma cache_ok_write_blobs [inv_intros, simp]: "cache_ok (write_blobs e b c) = cache_ok c"
  by (simp add: cache_ok_def write_blobs_def)

lemma cache_ok_new [simp]: "cache_ok new_conversation_cache"
  by (simp add: cache_ok_def entries_ok_def new_conversation_cache_def)

text \<open>
  C10: what a run leaves for the next turn. After \<open>acquire\<close>, writes to the entry's blob store and
  \<open>storeCheckpoint\<close>, a later \<open>acquire\<close> of the same conversation hands out the store with those writes and that
  checkpoint; no other conversation's store has changed.
\<close>

theorem next_turn_sees_this_turn:
  assumes "cache_ok c" and "valid_order ord" and "i \<noteq> []" and "0 < now" and "0 < t" and "0 < now'"
    and acq: "acquire ord now i c = (e, c1)"
    and c2: "c2 = store_checkpoint t i (Some cp) (write_blobs e b c1)"
    and again: "acquire ord now' i c2 = (e', c3)"
  shows "deref_blobs c3 e' = b \<and> ce_checkpoint e' = Some cp
    \<and> (\<forall>k x. k \<noteq> i \<longrightarrow> map_of (cc_entries c1) k = Some x \<longrightarrow> deref_blobs c2 x = deref_blobs c1 x)"
proof -
  have c1: "cache_ok c1" and e: "map_of (cc_entries c1) i = Some e"
    using acquire_facts [OF assms(1-4) acq] by auto
  have c2_ok: "cache_ok c2" using c1 \<open>0 < t\<close> by (simp add: c2 cache_ok_store_checkpoint)
  have e2: "map_of (cc_entries c2) i = Some (e\<lparr>ce_checkpoint := Some cp, ce_last_access := t\<rparr>)"
    using e by (simp add: c2 map_of_store_checkpoint write_blobs_def)
  have heap: "cc_heap c2 = (cc_heap c1)(ce_blobs e := b)"
    by (simp add: c2 store_checkpoint_def write_blobs_def split: option.split)
  have "ce_blobs x \<noteq> ce_blobs e" if "k \<noteq> i" "map_of (cc_entries c1) k = Some x" for k x
  proof
    assume eq: "ce_blobs x = ce_blobs e"
    have "(k, x) \<in> set (cc_entries c1)" "(i, e) \<in> set (cc_entries c1)"
      using that e by (auto dest: map_of_SomeD)
    then have "(k, x) = (i, e)"
      using c1 eq unfolding cache_ok_def distinct_map inj_on_def comp_def by fastforce
    then show False using that by simp
  qed
  then show ?thesis
    using acquire_facts [OF c2_ok assms(2,3,6) again] e2 heap by (auto simp: deref_blobs_def)
qed

lemma next_turn_sees_this_turn_witness:
  "\<forall>b cp. let (e, c1) = acquire (\<lambda>es. es) 1 ''a'' new_conversation_cache;
            (e', c3) = acquire (\<lambda>es. es) 3 ''a'' (store_checkpoint 2 ''a'' (Some cp) (write_blobs e b c1))
        in deref_blobs c3 e' = b"
proof (intro allI, clarsimp split: prod.split)
  fix b cp e c1 e' c3
  assume "acquire (\<lambda>es. es) 1 ''a'' new_conversation_cache = (e, c1)"
    and "acquire (\<lambda>es. es) 3 ''a'' (store_checkpoint 2 ''a'' (Some cp) (write_blobs e b c1)) = (e', c3)"
  then show "deref_blobs c3 e' = b"
    using next_turn_sees_this_turn [OF cache_ok_new, of "\<lambda>es. es" "''a''" 1 2 3 e c1 _ cp b e' c3]
    by (simp add: valid_order_def)
qed

subsection \<open>Conversation ids\<close>

lemma first_of_role_append:
  "first_of_role r (ms @ later) = (case first_of_role r ms of None \<Rightarrow> first_of_role r later | Some c \<Rightarrow> Some c)"
  by (induction r ms rule: first_of_role.induct) auto

lemma new_message_id_Ok: "new_message_id en = (Ok i, en') \<Longrightarrow> length i = 32 \<and> (\<forall>c \<in> set i. is_hex_char c)"
  by (auto simp: new_message_id_def go_simps hex_encode_is_hex split: prod.splits dest: rand_read_length)

lemma new_message_id_no_panic: "\<not> is_panic (fst (new_message_id en))"
  by (auto simp: new_message_id_def is_panic_go_bind split: prod.splits dest: rand_read_no_panic)

text \<open>
  the id of a conversation does not change as its history grows: once there is a user message
  with content, and a system message with content unless none ever comes, appending messages leaves the id
  as it was, whatever the state of the random source.
\<close>

theorem conversation_id_stable:
  assumes "first_of_role ''user'' ms \<noteq> None"
    and "first_of_role ''system'' ms \<noteq> None \<or> first_of_role ''system'' later = None"
  shows "fst (conversation_id_for (ms @ later) en) = fst (conversation_id_for ms en')"
  using assms by (auto simp: conversation_id_for_def opening_part_def first_of_role_append split: option.splits)

lemma conversation_id_stable_witness:
  "fst (conversation_id_for ([zero_message\<lparr>cm_role := ''user'', cm_content := ''hi''\<rparr>]
       @ [zero_message\<lparr>cm_role := ''assistant'', cm_content := ''hello''\<rparr>]) (\<lambda>_. None))
   = fst (conversation_id_for [zero_message\<lparr>cm_role := ''user'', cm_content := ''hi''\<rparr>] (\<lambda>_. None))"
  by (rule conversation_id_stable) (simp_all add: zero_message_def)

lemma conversation_id_nonempty: "fst (conversation_id_for ms en) \<noteq> []"
  by (auto simp: conversation_id_for_def split: go_result.splits prod.splits)

text \<open>
  C39: the preimage of the id does not delimit the two texts: a conversation that opens with a system
  message containing a NUL byte has the id of an unrelated one that opens with a system and a user message.
\<close>

theorem conversation_id_collision:
  assumes "a \<noteq> []" and "b \<noteq> []"
  shows "fst (conversation_id_for [zero_message\<lparr>cm_role := ''system'', cm_content := a @ ''user'' @ [CHR 0x00] @ b\<rparr>] en)
    = fst (conversation_id_for [zero_message\<lparr>cm_role := ''system'', cm_content := a\<rparr>,
                                zero_message\<lparr>cm_role := ''user'', cm_content := b\<rparr>] en')"
  using assms by (simp add: conversation_id_for_def opening_part_def zero_message_def)

lemma conversation_id_collision_witness:
  "fst (conversation_id_for [zero_message\<lparr>cm_role := ''system'', cm_content := ''A'' @ ''user'' @ [CHR 0x00] @ ''B''\<rparr>] (\<lambda>_. None))
    = fst (conversation_id_for [zero_message\<lparr>cm_role := ''system'', cm_content := ''A''\<rparr>,
                                zero_message\<lparr>cm_role := ''user'', cm_content := ''B''\<rparr>] (\<lambda>_. None))"
  by (rule conversation_id_collision) simp_all

end
