(* ===== verification/Tool_Map.thy ===== *)
theory Tool_Map
  imports Chat_Format Reflect
begin

section \<open>Mapping Cursor's native tools onto the client's\<close>

text \<open>
  \<open>internal/executor/toolmap.go\<close>: the index of the tools the client declared, the resolution of a
  Cursor tool to one of them and of a client tool back to a variant of Cursor's \<open>ToolCall\<close>. The
  table of aliases is a Go map, so the reverse search visits it in an arbitrary order: it is
  the argument \<open>visit\<close> of \<open>resolve_cursor_tool_field\<close>.
\<close>

subsection \<open>Names\<close>

text \<open>
  \<open>strings.ToLower\<close> followed by the selection of \<open>a-z\<close> and \<open>0-9\<close>. Beyond ASCII, the Kelvin sign and
  the capital I with dot above are the runes that lower to an ASCII letter.
\<close>

definition lower_char :: "char \<Rightarrow> char" where
  "lower_char c = (if 65 \<le> code c \<and> code c \<le> 90 then char_of (code c + 32) else c)"

definition tool_char :: "char \<Rightarrow> bool" where
  "tool_char c = (97 \<le> code c \<and> code c \<le> 122 \<or> 48 \<le> code c \<and> code c \<le> 57)"

fun normalize_tool_name :: "string \<Rightarrow> string" where
  "normalize_tool_name [] = []"
| "normalize_tool_name (c # cs) =
     (if tool_char (lower_char c) then lower_char c # normalize_tool_name cs
      else if c = CHR 0xC4 \<and> take 1 cs = [CHR 0xB0] then CHR ''i'' # normalize_tool_name (drop 1 cs)
      else if c = CHR 0xE2 \<and> take 2 cs = [CHR 0x84, CHR 0xAA] then CHR ''k'' # normalize_tool_name (drop 2 cs)
      else normalize_tool_name cs)"

definition cursor_tool_suffixes :: "string list" where
  "cursor_tool_suffixes = [''_tool_call'', ''_exec_args'', ''_args'', ''_call'']"

definition cursor_tool_base_name :: "string \<Rightarrow> string" where
  "cursor_tool_base_name field =
     (case find (\<lambda>suf. has_suffix field suf) cursor_tool_suffixes of
        Some suf \<Rightarrow> trim_suffix field suf | None \<Rightarrow> field)"

type_synonym alias_table = "(string \<times> string list) list"

definition native_tool_aliases :: alias_table where
  "native_tool_aliases =
    [(''shell'', [''bash'', ''shell'', ''exec'', ''run'', ''terminal'', ''command'', ''run_command'',
        ''execute_command'', ''run_terminal_cmd'']),
     (''shell_stream'', [''bash'', ''shell'', ''exec'', ''run'', ''terminal'', ''command'']),
     (''read'', [''read'', ''read_file'', ''cat'', ''view'', ''view_file'', ''open_file'', ''get_file'']),
     (''write'', [''write'', ''write_file'', ''create_file'', ''create'', ''put_file'']),
     (''edit'', [''edit'', ''edit_file'', ''apply_patch'', ''str_replace'', ''str_replace_editor'', ''patch'',
        ''modify_file'']),
     (''glob'', [''glob'', ''find'', ''file_search'', ''find_files'', ''fd'', ''list_files'']),
     (''grep'', [''grep'', ''search'', ''search_files'', ''ripgrep'', ''rg'', ''code_search'', ''text_search'']),
     (''ls'', [''ls'', ''list_dir'', ''list_directory'', ''list_files'', ''dir'', ''tree'']),
     (''delete'', [''delete'', ''rm'', ''remove'', ''remove_file'', ''delete_file'']),
     (''fetch'', [''fetch'', ''web_fetch'', ''http_fetch'', ''curl'', ''open_url'', ''read_url'']),
     (''web_search'', [''web_search'', ''search_web'', ''google'', ''browse'']),
     (''sem_search'', [''codebase_search'', ''semantic_search'', ''sem_search'', ''search'']),
     (''read_lints'', [''read_lints'', ''diagnostics'', ''lints'', ''get_diagnostics'']),
     (''task'', [''task'', ''subagent'', ''spawn_agent'']),
     (''update_todos'', [''update_todos'', ''todo_write'', ''set_todos'']),
     (''read_todos'', [''read_todos'', ''todo_read'', ''get_todos''])]"

subsection \<open>From Cursor's tools to the client's\<close>

record client_tool_index =
  cti_declared :: "string \<Rightarrow> string option"

definition index_add :: "client_tool_index \<Rightarrow> chat_tool_definition \<Rightarrow> client_tool_index" where
  "index_add idx t =
     (let name = tdf_name (td_function t) in
      if name = [] then idx
      else idx\<lparr>cti_declared := (cti_declared idx)(normalize_tool_name name \<mapsto> name)\<rparr>)"

definition new_client_tool_index :: "chat_tool_definition list \<Rightarrow> client_tool_index" where
  "new_client_tool_index tools = foldl index_add \<lparr>cti_declared = Map.empty\<rparr> tools"

fun first_declared :: "client_tool_index \<Rightarrow> string list \<Rightarrow> string option" where
  "first_declared idx [] = None"
| "first_declared idx (a # as) =
     (case cti_declared idx (normalize_tool_name a) of Some n \<Rightarrow> Some n | None \<Rightarrow> first_declared idx as)"

definition aliases_of :: "string \<Rightarrow> string list" where
  "aliases_of base = (case map_of native_tool_aliases base of Some as \<Rightarrow> as | None \<Rightarrow> [])"

text \<open>The code returns early for an index with no tools; no lookup in one succeeds anyway.\<close>

definition resolve_client_tool :: "client_tool_index \<Rightarrow> string \<Rightarrow> string option" where
  "resolve_client_tool idx field =
     (let base = cursor_tool_base_name field in
      if base = [] then None else first_declared idx (base # aliases_of base))"

subsection \<open>From the client's tools to Cursor's\<close>

definition tool_call_oneof_has_field :: "string \<Rightarrow> bool" where
  "tool_call_oneof_has_field field = (fields_by_name (oneof_fields md_ToolCall ''tool'') field \<noteq> None)"

text \<open>The names of the variants, as \<open>agent.pb.go\<close> declares them.\<close>

definition tool_variants :: "string list" where
  "tool_variants = [''shell_tool_call'',
     ''delete_tool_call'',
     ''glob_tool_call'',
     ''grep_tool_call'',
     ''read_tool_call'',
     ''update_todos_tool_call'',
     ''read_todos_tool_call'',
     ''edit_tool_call'',
     ''ls_tool_call'',
     ''read_lints_tool_call'',
     ''mcp_tool_call'',
     ''sem_search_tool_call'',
     ''create_plan_tool_call'',
     ''web_search_tool_call'',
     ''task_tool_call'',
     ''list_mcp_resources_tool_call'',
     ''read_mcp_resource_tool_call'',
     ''apply_agent_diff_tool_call'',
     ''ask_question_tool_call'',
     ''fetch_tool_call'',
     ''switch_mode_tool_call'',
     ''exa_search_tool_call'',
     ''exa_fetch_tool_call'',
     ''generate_image_tool_call'',
     ''record_screen_tool_call'',
     ''computer_use_tool_call'',
     ''write_shell_stdin_tool_call'',
     ''reflect_tool_call'',
     ''setup_vm_environment_tool_call'',
     ''truncated_tool_call'',
     ''start_grind_execution_tool_call'',
     ''start_grind_planning_tool_call'']"

lemma tool_variants: "map pf_name (oneof_fields md_ToolCall ''tool'') = tool_variants"
  by (simp add: oneof_fields_def md_ToolCall_def tool_variants_def)

lemma tool_call_oneof_has_field_code [code]: "tool_call_oneof_has_field f = list_ex (\<lambda>v. v = f) tool_variants"
  by (auto simp: tool_call_oneof_has_field_def fields_by_name_def find_None_iff list_ex_iff
      tool_variants [symmetric])

definition alias_match :: "string \<Rightarrow> string \<times> string list \<Rightarrow> bool" where
  "alias_match normalized entry =
     (normalize_tool_name (fst entry) = normalized
      \<or> list_ex (\<lambda>alias. normalize_tool_name alias = normalized) (snd entry))"

fun visit_aliases :: "string \<Rightarrow> alias_table \<Rightarrow> string option" where
  "visit_aliases normalized [] = None"
| "visit_aliases normalized (entry # visit) =
     (if alias_match normalized entry \<and> tool_call_oneof_has_field (fst entry @ ''_tool_call'')
      then Some (fst entry @ ''_tool_call'') else visit_aliases normalized visit)"

definition resolve_cursor_tool_field :: "alias_table \<Rightarrow> string \<Rightarrow> string option" where
  "resolve_cursor_tool_field visit clientTool =
     (let normalized = normalize_tool_name clientTool in
      if normalized = [] then None else visit_aliases normalized visit)"

text \<open>A visit of the table: each entry once.\<close>

definition visits_table :: "alias_table \<Rightarrow> bool" where
  "visits_table visit = (set visit = set native_tool_aliases)"

subsection \<open>Facts\<close>

lemma index_declared:
  "cti_declared (foldl index_add idx tools) n = Some name \<Longrightarrow>
   cti_declared idx n = Some name
   \<or> (name \<noteq> [] \<and> normalize_tool_name name = n \<and> (\<exists>t \<in> set tools. tdf_name (td_function t) = name))"
proof (induction tools arbitrary: idx)
  case (Cons t tools)
  then have "cti_declared (foldl index_add (index_add idx t) tools) n = Some name" by simp
  from Cons.IH [OF this] show ?case by (auto simp: index_add_def Let_def split: if_splits)
qed simp

lemma first_declared_Some:
  "first_declared idx as = Some n \<Longrightarrow> \<exists>a \<in> set as. cti_declared idx (normalize_tool_name a) = Some n"
  by (induction idx as rule: first_declared.induct) (auto split: option.splits)

lemma first_declared_None:
  "first_declared idx as = None \<longleftrightarrow> (\<forall>a \<in> set as. cti_declared idx (normalize_tool_name a) = None)"
  by (induction idx as rule: first_declared.induct) (auto split: option.splits)

lemma visit_aliases_Some:
  "visit_aliases m visit = Some f \<Longrightarrow>
   \<exists>entry \<in> set visit. alias_match m entry \<and> tool_call_oneof_has_field f \<and> f = fst entry @ ''_tool_call''"
  by (induction m visit rule: visit_aliases.induct) (auto split: if_splits)

lemma visit_aliases_None:
  "visit_aliases m visit = None \<longleftrightarrow>
   (\<forall>entry \<in> set visit. alias_match m entry \<longrightarrow> \<not> tool_call_oneof_has_field (fst entry @ ''_tool_call''))"
  by (induction m visit rule: visit_aliases.induct) auto

text \<open>The table restricted to variants that exist, with its names normalized.\<close>

definition group :: "string \<times> string list \<Rightarrow> string list" where
  "group entry = map normalize_tool_name (fst entry # snd entry)"

lemma alias_match_group: "alias_match m entry \<longleftrightarrow> m \<in> set (group entry)"
  by (auto simp: alias_match_def group_def list_ex_iff)

definition live_entries :: alias_table where
  "live_entries = filter (\<lambda>e. tool_call_oneof_has_field (fst e @ ''_tool_call'')) native_tool_aliases"

text \<open>The groups, computed; and no name but two is in more than one of them.\<close>

definition live_groups :: alias_table where
  "live_groups = [(''shell'', [''shell'', ''bash'', ''shell'', ''exec'', ''run'', ''terminal'', ''command'', ''runcommand'', ''executecommand'', ''runterminalcmd'']),
     (''read'', [''read'', ''read'', ''readfile'', ''cat'', ''view'', ''viewfile'', ''openfile'', ''getfile'']),
     (''edit'', [''edit'', ''edit'', ''editfile'', ''applypatch'', ''strreplace'', ''strreplaceeditor'', ''patch'', ''modifyfile'']),
     (''glob'', [''glob'', ''glob'', ''find'', ''filesearch'', ''findfiles'', ''fd'', ''listfiles'']),
     (''grep'', [''grep'', ''grep'', ''search'', ''searchfiles'', ''ripgrep'', ''rg'', ''codesearch'', ''textsearch'']),
     (''ls'', [''ls'', ''ls'', ''listdir'', ''listdirectory'', ''listfiles'', ''dir'', ''tree'']),
     (''delete'', [''delete'', ''delete'', ''rm'', ''remove'', ''removefile'', ''deletefile'']),
     (''fetch'', [''fetch'', ''fetch'', ''webfetch'', ''httpfetch'', ''curl'', ''openurl'', ''readurl'']),
     (''web_search'', [''websearch'', ''websearch'', ''searchweb'', ''google'', ''browse'']),
     (''sem_search'', [''semsearch'', ''codebasesearch'', ''semanticsearch'', ''semsearch'', ''search'']),
     (''read_lints'', [''readlints'', ''readlints'', ''diagnostics'', ''lints'', ''getdiagnostics'']),
     (''task'', [''task'', ''task'', ''subagent'', ''spawnagent'']),
     (''update_todos'', [''updatetodos'', ''updatetodos'', ''todowrite'', ''settodos'']),
     (''read_todos'', [''readtodos'', ''readtodos'', ''todoread'', ''gettodos''])]"

lemma live_groups: "map (\<lambda>e. (fst e, group e)) live_entries = live_groups"
  by code_simp

definition overlap_ok :: "string \<times> string list \<Rightarrow> string \<times> string list \<Rightarrow> bool" where
  "overlap_ok a b = (fst a = fst b \<or>
     list_all (\<lambda>m. m = ''search'' \<or> m = ''listfiles'' \<or> \<not> list_ex (\<lambda>x. x = m) (snd b)) (snd a))"

lemma live_overlap: "list_all (\<lambda>a. list_all (overlap_ok a) live_groups) live_groups"
  by code_simp

lemma live_group:
  assumes "a \<in> set live_entries" and "b \<in> set live_entries" and "m \<in> set (group a)" and "m \<in> set (group b)"
    and "m \<noteq> ''search''" and "m \<noteq> ''listfiles''"
  shows "fst a = fst b"
proof -
  have "(fst a, group a) \<in> set live_groups" "(fst b, group b) \<in> set live_groups"
    using assms(1,2) by (auto simp: live_groups [symmetric])
  then have "overlap_ok (fst a, group a) (fst b, group b)"
    using live_overlap by (simp add: list_all_iff)
  then show ?thesis using assms(3-6) by (auto simp: overlap_ok_def list_all_iff list_ex_iff)
qed

text \<open>Visits in the table's own order and backwards, through the computed groups.\<close>

lemma visit_aliases_find:
  "visit_aliases m visit = map_option (\<lambda>e. fst e @ ''_tool_call'')
     (find (\<lambda>e. m \<in> set (group e)) (filter (\<lambda>e. tool_call_oneof_has_field (fst e @ ''_tool_call'')) visit))"
  by (induction m visit rule: visit_aliases.induct) (auto simp: alias_match_group)

lemma find_map: "find P (map f xs) = map_option f (find (\<lambda>x. P (f x)) xs)"
  by (induction xs) auto

definition find_group :: "string \<Rightarrow> alias_table \<Rightarrow> string option" where
  "find_group m groups = map_option (\<lambda>g. fst g @ ''_tool_call'') (find (\<lambda>g. list_ex (\<lambda>x. x = m) (snd g)) groups)"

lemma resolve_by_groups:
  assumes "normalize_tool_name n = m" and "m \<noteq> []"
  shows "resolve_cursor_tool_field native_tool_aliases n = find_group m live_groups"
    and "resolve_cursor_tool_field (rev native_tool_aliases) n = find_group m (rev live_groups)"
  using assms
  by (simp_all add: resolve_cursor_tool_field_def find_group_def visit_aliases_find live_groups [symmetric]
      rev_map find_map live_entries_def [symmetric] rev_filter [symmetric] list_ex_iff option.map_comp comp_def)

lemma resolve_cursor_tool_field_Some:
  assumes "visits_table visit" and "resolve_cursor_tool_field visit n = Some f"
  obtains e where "e \<in> set live_entries" "normalize_tool_name n \<in> set (group e)" "f = fst e @ ''_tool_call''"
proof -
  obtain e where "e \<in> set visit" "alias_match (normalize_tool_name n) e" "tool_call_oneof_has_field f" "f = fst e @ ''_tool_call''"
    using assms(2) visit_aliases_Some [of "normalize_tool_name n" visit f]
    by (auto simp: resolve_cursor_tool_field_def Let_def split: if_splits)
  with assms(1) show thesis by (intro that [of e]) (auto simp: live_entries_def visits_table_def alias_match_group)
qed

lemma resolve_cursor_tool_field_None:
  assumes "visits_table visit"
  shows "resolve_cursor_tool_field visit n = None \<longleftrightarrow>
    normalize_tool_name n = [] \<or> (\<forall>e \<in> set live_entries. normalize_tool_name n \<notin> set (group e))"
  using assms by (auto simp: resolve_cursor_tool_field_def Let_def visit_aliases_None visits_table_def
      live_entries_def alias_match_group)

subsection \<open>Properties\<close>

lemma resolve_client_tool_Some:
  assumes "resolve_client_tool (new_client_tool_index tools) field = Some n"
  shows "n \<noteq> [] \<and> (\<exists>t \<in> set tools. tdf_name (td_function t) = n)
    \<and> (\<exists>a \<in> set (cursor_tool_base_name field # aliases_of (cursor_tool_base_name field)).
          normalize_tool_name n = normalize_tool_name a)"
proof -
  have "first_declared (new_client_tool_index tools) (cursor_tool_base_name field # aliases_of (cursor_tool_base_name field)) = Some n"
    using assms unfolding resolve_client_tool_def Let_def by (simp only: option.distinct split: if_splits)
  from first_declared_Some [OF this]
  obtain a where a: "a \<in> set (cursor_tool_base_name field # aliases_of (cursor_tool_base_name field))"
    and d: "cti_declared (new_client_tool_index tools) (normalize_tool_name a) = Some n"
    by blast
  from index_declared [OF d [unfolded new_client_tool_index_def]] a show ?thesis by auto
qed

text \<open>
  no invention: a Cursor tool is surfaced only under a name the client declared, exactly as
  declared, and only if that name is the tool's base name or one of its aliases, up to case and punctuation.
\<close>

theorem resolve_client_tool_declared:
  assumes "resolve_client_tool (new_client_tool_index tools) field = Some n"
  shows "n \<noteq> [] \<and> (\<exists>t \<in> set tools. tdf_name (td_function t) = n)
    \<and> (\<exists>a \<in> set (cursor_tool_base_name field # aliases_of (cursor_tool_base_name field)).
          normalize_tool_name n = normalize_tool_name a)"
  using resolve_client_tool_Some [OF assms] .

lemma resolve_client_tool_declared_witness:
  "\<exists>t \<in> set [zero_tool_definition\<lparr>td_function := zero_tool_definition_func\<lparr>tdf_name := ''Read-File''\<rparr>\<rparr>].
     tdf_name (td_function t) = ''Read-File''"
proof -
  have "resolve_client_tool (new_client_tool_index
      [zero_tool_definition\<lparr>td_function := zero_tool_definition_func\<lparr>tdf_name := ''Read-File''\<rparr>\<rparr>]) ''read_args''
      = Some ''Read-File''"
    by code_simp
  from resolve_client_tool_declared [OF this] show ?thesis by blast
qed

text \<open>
  the reverse mapping does not depend on the order in which the Go map of aliases is visited,
  for every client tool name other than \<open>search\<close> and \<open>list_files\<close> (up to case and punctuation).
\<close>

theorem resolve_cursor_tool_field_deterministic:
  assumes "visits_table v" and "visits_table w"
    and "normalize_tool_name n \<noteq> ''search''" and "normalize_tool_name n \<noteq> ''listfiles''"
  shows "resolve_cursor_tool_field v n = resolve_cursor_tool_field w n"
proof (cases "resolve_cursor_tool_field v n")
  case None
  then show ?thesis using assms resolve_cursor_tool_field_None by metis
next
  case (Some f)
  then have "resolve_cursor_tool_field w n \<noteq> None" using assms resolve_cursor_tool_field_None by (metis option.distinct(1))
  then obtain g where g: "resolve_cursor_tool_field w n = Some g" by auto
  from resolve_cursor_tool_field_Some [OF assms(1) Some] resolve_cursor_tool_field_Some [OF assms(2) g]
  have "f = g" using live_group assms(3,4) by metis
  then show ?thesis using Some g by simp
qed

lemma visits_table_rev: "visits_table native_tool_aliases" "visits_table (rev native_tool_aliases)"
  by (simp_all add: visits_table_def)

lemma resolve_cursor_tool_field_deterministic_witness:
  "resolve_cursor_tool_field native_tool_aliases ''bash'' = resolve_cursor_tool_field (rev native_tool_aliases) ''bash''"
proof -
  have "normalize_tool_name ''bash'' = ''bash''" by code_simp
  then show ?thesis by (intro resolve_cursor_tool_field_deterministic visits_table_rev) simp_all
qed

text \<open>
  for \<open>search\<close> and \<open>list_files\<close> it does depend on it: two visits of the same table send
  the result of the same tool to different Cursor variants.
\<close>

theorem resolve_cursor_tool_field_ambiguous:
  "\<exists>v w. visits_table v \<and> visits_table w
     \<and> resolve_cursor_tool_field v ''search'' = Some ''grep_tool_call''
     \<and> resolve_cursor_tool_field w ''search'' = Some ''sem_search_tool_call''
     \<and> resolve_cursor_tool_field v ''list_files'' = Some ''glob_tool_call''
     \<and> resolve_cursor_tool_field w ''list_files'' = Some ''ls_tool_call''"
proof -
  have names: "normalize_tool_name ''search'' = ''search''" "normalize_tool_name ''list_files'' = ''listfiles''"
    by code_simp+
  have "find_group ''search'' live_groups = Some ''grep_tool_call''"
    "find_group ''search'' (rev live_groups) = Some ''sem_search_tool_call''"
    "find_group ''listfiles'' live_groups = Some ''glob_tool_call''"
    "find_group ''listfiles'' (rev live_groups) = Some ''ls_tool_call''"
    by code_simp+
  then have "resolve_cursor_tool_field native_tool_aliases ''search'' = Some ''grep_tool_call''"
    "resolve_cursor_tool_field (rev native_tool_aliases) ''search'' = Some ''sem_search_tool_call''"
    "resolve_cursor_tool_field native_tool_aliases ''list_files'' = Some ''glob_tool_call''"
    "resolve_cursor_tool_field (rev native_tool_aliases) ''list_files'' = Some ''ls_tool_call''"
    by (simp_all add: resolve_by_groups [OF names(1)] resolve_by_groups [OF names(2)])
  then show ?thesis using visits_table_rev by blast
qed

text \<open>
  round trip: when a native tool of the table with a \<open>ToolCall\<close> variant was surfaced under a
  client tool's name, a result the client sends back under that name lands on the same tool's variant
  (for names other than \<open>search\<close> and \<open>list_files\<close>).
\<close>

theorem client_tool_round_trip:
  assumes "resolve_client_tool (new_client_tool_index tools) field = Some n"
    and "visits_table visit" and base: "(cursor_tool_base_name field, as) \<in> set live_entries"
    and "normalize_tool_name n \<noteq> []"
    and "normalize_tool_name n \<noteq> ''search''" and "normalize_tool_name n \<noteq> ''listfiles''"
  shows "resolve_cursor_tool_field visit n = Some (cursor_tool_base_name field @ ''_tool_call'')"
proof -
  have tab: "(cursor_tool_base_name field, as) \<in> set native_tool_aliases" using base by (simp add: live_entries_def)
  have "distinct (map fst native_tool_aliases)" by code_simp
  then have "aliases_of (cursor_tool_base_name field) = as" using tab by (simp add: aliases_of_def)
  then have m: "normalize_tool_name n \<in> set (group (cursor_tool_base_name field, as))"
    using resolve_client_tool_Some [OF assms(1)] by (auto simp: group_def)
  then have "resolve_cursor_tool_field visit n \<noteq> None"
    using base assms(4) by (auto simp: resolve_cursor_tool_field_None [OF assms(2)])
  then obtain f where f: "resolve_cursor_tool_field visit n = Some f" by auto
  from resolve_cursor_tool_field_Some [OF assms(2) f] obtain e where
    "e \<in> set live_entries" "normalize_tool_name n \<in> set (group e)" "f = fst e @ ''_tool_call''" by metis
  with live_group [OF _ base _ m] assms(5,6) f show ?thesis by auto
qed

lemma client_tool_round_trip_witness:
  "resolve_cursor_tool_field (rev native_tool_aliases) ''Bash'' = Some ''shell_tool_call''"
proof -
  let ?tools = "[zero_tool_definition\<lparr>td_function := zero_tool_definition_func\<lparr>tdf_name := ''Bash''\<rparr>\<rparr>]"
  have "resolve_client_tool (new_client_tool_index ?tools) ''shell_args'' = Some ''Bash''" by code_simp
  moreover have base: "cursor_tool_base_name ''shell_args'' = ''shell''" by code_simp
  moreover have "(''shell'', aliases_of ''shell'') \<in> set live_entries"
  proof -
    have "tool_call_oneof_has_field ''shell_tool_call''" by code_simp
    then show ?thesis by (simp add: live_entries_def native_tool_aliases_def aliases_of_def)
  qed
  moreover have "normalize_tool_name ''Bash'' = ''bash''" by code_simp
  ultimately show ?thesis
    using client_tool_round_trip [of ?tools "''shell_args''" "''Bash''" "rev native_tool_aliases" "aliases_of ''shell''"]
      visits_table_rev(2)
    by (simp del: normalize_tool_name.simps)
qed

end
