(* ===== verification/Result_Fields.thy ===== *)
theory Result_Fields
  imports Reflect
begin

section \<open>Writing a result text into a message by reflection\<close>

text \<open>
  The reflective walk of \<open>internal/executor/translate_request.go\<close> that puts a tool's result text into a
  Cursor message: \<open>setGenericResultField\<close>, \<open>populateResultMessage\<close>, \<open>firstRealOneof\<close> and
  \<open>setFirstStringField\<close>. \<open>execmessage.go\<close> uses the last two for its decline messages.
\<close>

subsection \<open>The walk\<close>

definition max_result_descend_depth :: nat where
  "max_result_descend_depth = 4"

definition preferred_result_field_names :: "string list" where
  "preferred_result_field_names = [''stdout'', ''output'', ''content'', ''text'', ''result'', ''message'', ''body'']"

definition first_real_oneof :: "mdesc \<Rightarrow> string option" where
  "first_real_oneof md = map_option fst (find (\<lambda>(n, synthetic). \<not> synthetic) (md_oneofs md))"

text \<open>The field \<open>setFirstStringField\<close> sets: a preferred name, in their order, else the first string field.\<close>

fun first_string_field :: "string list \<Rightarrow> pfield list \<Rightarrow> pfield option" where
  "first_string_field [] fields = find is_string_field fields"
| "first_string_field (preferred # ps) fields =
     (case find (\<lambda>f. is_string_field f \<and> pf_name f = preferred) fields of
        Some f \<Rightarrow> Some f
      | None \<Rightarrow> first_string_field ps fields)"

definition set_first_string_field :: "mdesc \<Rightarrow> string \<Rightarrow> pmsg \<Rightarrow> pmsg go_result" where
  "set_first_string_field md v m =
     (case first_string_field preferred_result_field_names (md_fields md) of
        None \<Rightarrow> Ok m
      | Some f \<Rightarrow> pm_set md f (VString v) m)"

text \<open>The outcome case: \<open>success\<close> if the oneof has it, else its first field.\<close>

fun choose_case :: "pfield list \<Rightarrow> pfield option" where
  "choose_case [] = None"
| "choose_case (f # fs) = (case find (\<lambda>g. pf_name g = ''success'') (f # fs) of Some g \<Rightarrow> Some g | None \<Rightarrow> Some f)"

function populate_result_message :: "mdesc \<Rightarrow> string \<Rightarrow> nat \<Rightarrow> pmsg \<Rightarrow> pmsg go_result" where
  "populate_result_message md content depth m =
     (if depth \<ge> max_result_descend_depth then Ok m
      else case first_real_oneof md of
        None \<Rightarrow> set_first_string_field md content m
      | Some oo \<Rightarrow>
          (case choose_case (oneof_fields md oo) of
             None \<Rightarrow> Ok m
           | Some chosen \<Rightarrow>
               if \<not> is_message_field chosen then Ok m
               else go_bind (field_desc chosen) (\<lambda>cd.
                      go_bind (populate_result_message cd content (depth + 1) []) (\<lambda>c.
                        pm_set md chosen (VMsg c) m))))"
  by pat_completeness auto
termination
  by (relation "measure (\<lambda>(md, content, depth, m). max_result_descend_depth - depth)") auto

declare populate_result_message.simps [simp del]

definition set_generic_result_field :: "mdesc \<Rightarrow> string \<Rightarrow> nat \<Rightarrow> pmsg \<Rightarrow> pmsg go_result" where
  "set_generic_result_field md content depth m =
     (if depth \<ge> max_result_descend_depth then Ok m
      else case find (\<lambda>f. pf_name f = ''result'' \<and> is_message_field f) (md_fields md) of
        None \<Rightarrow> Ok m
      | Some field \<Rightarrow>
          go_bind (field_desc field) (\<lambda>rd.
            go_bind (populate_result_message rd content (depth + 1) []) (\<lambda>r.
              pm_set md field (VMsg r) m)))"

subsection \<open>Where the text lands\<close>

text \<open>
  The path of field names the walk follows, read off the descriptors alone: \<open>Ok (path, reached)\<close>,
  \<open>reached\<close> when the last field of the path takes the text.
\<close>

function populate_path :: "mdesc \<Rightarrow> nat \<Rightarrow> (string list \<times> bool) go_result" where
  "populate_path md depth =
     (if depth \<ge> max_result_descend_depth then Ok ([], False)
      else case first_real_oneof md of
        None \<Rightarrow>
          (case first_string_field preferred_result_field_names (md_fields md) of
             None \<Rightarrow> Ok ([], False)
           | Some f \<Rightarrow> if pf_repeated f then Panic ''list field'' else Ok ([pf_name f], True))
      | Some oo \<Rightarrow>
          (case choose_case (oneof_fields md oo) of
             None \<Rightarrow> Ok ([], False)
           | Some chosen \<Rightarrow>
               if \<not> is_message_field chosen then Ok ([], False)
               else go_bind (field_desc chosen) (\<lambda>cd.
                      go_bind (populate_path cd (depth + 1)) (\<lambda>(p, r).
                        if pf_repeated chosen then Panic ''list field'' else Ok (pf_name chosen # p, r)))))"
  by pat_completeness auto
termination
  by (relation "measure (\<lambda>(md, depth). max_result_descend_depth - depth)") auto

declare populate_path.simps [simp del]

definition result_path :: "mdesc \<Rightarrow> (string list \<times> bool) go_result" where
  "result_path md =
     (case find (\<lambda>f. pf_name f = ''result'' \<and> is_message_field f) (md_fields md) of
        None \<Rightarrow> Ok ([], False)
      | Some field \<Rightarrow>
          go_bind (field_desc field) (\<lambda>rd.
            go_bind (populate_path rd 1) (\<lambda>(p, r).
              if pf_repeated field then Panic ''list field'' else Ok (pf_name field # p, r))))"

fun path_value :: "string list \<Rightarrow> bool \<Rightarrow> string \<Rightarrow> pmsg" where
  "path_value [] r t = []"
| "path_value [k] True t = [(k, VString t)]"
| "path_value (k # ks) r t = [(k, VMsg (path_value ks r t))]"

lemma pm_set_empty: "v \<noteq> VString [] \<Longrightarrow> \<not> pf_repeated f \<Longrightarrow> pm_set md f v [] = Ok [(pf_name f, v)]"
  by (auto simp: pm_set_def pm_clear_def)

lemma populate_path_reached: "populate_path md d = Ok (p, r) \<Longrightarrow> r \<Longrightarrow> p \<noteq> []"
  by (subst (asm) populate_path.simps) (auto simp: go_simps split: option.splits if_splits prod.splits)

lemma populate_result_message_path:
  assumes "t \<noteq> []" and "populate_path md d = Ok (p, r)"
  shows "populate_result_message md t d [] = Ok (path_value p r t)"
  using assms
proof (induction md d arbitrary: p r rule: populate_path.induct)
  case (1 md d)
  note populate_path.simps [of md d, simp] populate_result_message.simps [of md t d "[]", simp]
  show ?case
  proof (cases "first_real_oneof md")
    case None
    then show ?thesis using 1 by (auto simp: set_first_string_field_def pm_set_empty split: option.splits if_splits)
  next
    case (Some oo)
    show ?thesis
    proof (cases "choose_case (oneof_fields md oo)")
      case None
      then show ?thesis using 1 Some by (auto split: if_splits)
    next
      case (Some chosen)
      show ?thesis
      proof (cases "max_result_descend_depth \<le> d \<or> \<not> is_message_field chosen")
        case True
        then show ?thesis using 1 Some \<open>first_real_oneof md = Some oo\<close> by (auto split: if_splits)
      next
        case False
        then obtain cd p' r' where cd: "field_desc chosen = Ok cd" and sub: "populate_path cd (d + 1) = Ok (p', r')"
          and one: "\<not> pf_repeated chosen" and p: "p = pf_name chosen # p'" "r = r'"
          using 1 Some \<open>first_real_oneof md = Some oo\<close> by (auto simp: go_simps split: if_splits)
        have "populate_result_message cd t (d + 1) [] = Ok (path_value p' r' t)"
          using "1.IH" [OF _ \<open>first_real_oneof md = Some oo\<close> Some _ "1.prems"(1) sub] False by auto
        moreover have "path_value p r t = [(pf_name chosen, VMsg (path_value p' r' t))]"
          using populate_path_reached [OF sub] p by (cases p'; cases r') auto
        ultimately show ?thesis
          using False cd one Some \<open>first_real_oneof md = Some oo\<close> by (simp add: pm_set_empty)
      qed
    qed
  qed
qed

lemma set_generic_result_field_path:
  assumes "t \<noteq> []" and "result_path md = Ok (p, r)"
  shows "set_generic_result_field md t 0 [] = Ok (path_value p r t)"
proof (cases "find (\<lambda>f. pf_name f = ''result'' \<and> is_message_field f) (md_fields md)")
  case None
  then show ?thesis using assms
    by (auto simp: result_path_def set_generic_result_field_def max_result_descend_depth_def)
next
  case (Some field)
  then obtain rd p' r' where rd: "field_desc field = Ok rd" and sub: "populate_path rd 1 = Ok (p', r')"
    and one: "\<not> pf_repeated field" and p: "p = pf_name field # p'" "r = r'"
    using assms by (auto simp: result_path_def go_simps split: if_splits)
  have "path_value p r t = [(pf_name field, VMsg (path_value p' r' t))]"
    using populate_path_reached [OF sub] p by (cases p'; cases r') auto
  then show ?thesis
    using populate_result_message_path [OF assms(1) sub] Some rd one
    by (simp add: set_generic_result_field_def max_result_descend_depth_def pm_set_empty)
qed

subsection \<open>The variants of ToolCall\<close>

text \<open>
  The string field of the outcome message that takes the text, for the variants that take it at all: what a result says
  (\<open>stdout\<close>, \<open>message\<close>, \<open>content\<close>, \<open>results\<close>) for four of them, an identifying field for the rest.
\<close>

definition text_field :: "string \<Rightarrow> string option" where
  "text_field = map_of [(''shell_tool_call'', ''stdout''), (''edit_tool_call'', ''message''), (''fetch_tool_call'', ''content''),
     (''sem_search_tool_call'', ''results''), (''delete_tool_call'', ''path''), (''glob_tool_call'', ''pattern''),
     (''grep_tool_call'', ''pattern''), (''task_tool_call'', ''agent_id''), (''switch_mode_tool_call'', ''from_mode_id''),
     (''generate_image_tool_call'', ''file_path''), (''computer_use_tool_call'', ''screenshot'')]"

definition outcome_field :: "string \<Rightarrow> string" where
  "outcome_field v = (if v = ''record_screen_tool_call'' then ''start_success'' else ''success'')"

definition delivery_as_listed :: "pfield \<Rightarrow> bool" where
  "delivery_as_listed f =
     (go_bind (field_desc f) result_path =
        Ok (case text_field (pf_name f) of
              Some k \<Rightarrow> ([''result'', outcome_field (pf_name f), k], True)
            | None \<Rightarrow> ([''result'', outcome_field (pf_name f)], False)))"

lemma tool_call_deliveries: "list_all delivery_as_listed (oneof_fields md_ToolCall ''tool'')"
  by code_simp

text \<open>
  C37: for every variant of \<open>ToolCall\<close>, writing a non-empty result text into a fresh message of that variant
  succeeds (it neither fails nor panics) and sets its result to the success outcome. For eleven variants the text is in one field
  of that outcome, named by \<open>text_field\<close>: \<open>stdout\<close> for a shell call, \<open>message\<close> for an edit, \<open>content\<close> for a fetch, but
  an identifying field such as \<open>path\<close> or \<open>pattern\<close> for others. For all other variants, \<open>read_tool_call\<close> and
  \<open>mcp_tool_call\<close> among them, the outcome is empty: the text is nowhere in the message.
\<close>

theorem result_text_delivery:
  assumes "f \<in> set (oneof_fields md_ToolCall ''tool'')" and "t \<noteq> []"
  shows "go_bind (field_desc f) (\<lambda>md. set_generic_result_field md t 0 []) =
    Ok [(''result'', VMsg [(outcome_field (pf_name f),
      VMsg (case text_field (pf_name f) of Some k \<Rightarrow> [(k, VString t)] | None \<Rightarrow> []))])]"
proof -
  let ?p = "case text_field (pf_name f) of
      Some k \<Rightarrow> ([''result'', outcome_field (pf_name f), k], True)
    | None \<Rightarrow> ([''result'', outcome_field (pf_name f)], False)"
  have "delivery_as_listed f" using assms(1) tool_call_deliveries by (simp add: list_all_iff)
  then obtain md where md: "field_desc f = Ok md" and path: "result_path md = Ok ?p"
    by (auto simp: delivery_as_listed_def go_simps)
  have "set_generic_result_field md t 0 [] = Ok (path_value (fst ?p) (snd ?p) t)"
    using set_generic_result_field_path [OF assms(2), of md "fst ?p" "snd ?p"] path by simp
  then show ?thesis using md by (simp split: option.splits)
qed

lemma result_text_delivery_witness:
  "\<exists>f g. f \<in> set (oneof_fields md_ToolCall ''tool'') \<and> pf_name f = ''shell_tool_call''
     \<and> go_bind (field_desc f) (\<lambda>md. set_generic_result_field md ''hi'' 0 [])
         = Ok [(''result'', VMsg [(''success'', VMsg [(''stdout'', VString ''hi'')])])]
     \<and> g \<in> set (oneof_fields md_ToolCall ''tool'') \<and> pf_name g = ''read_tool_call''
     \<and> go_bind (field_desc g) (\<lambda>md. set_generic_result_field md ''hi'' 0 []) = Ok [(''result'', VMsg [(''success'', VMsg [])])]"
proof -
  have "list_ex (\<lambda>f. pf_name f = ''shell_tool_call'') (oneof_fields md_ToolCall ''tool'')"
    and "list_ex (\<lambda>f. pf_name f = ''read_tool_call'') (oneof_fields md_ToolCall ''tool'')" by code_simp+
  then obtain f g where "f \<in> set (oneof_fields md_ToolCall ''tool'')" "pf_name f = ''shell_tool_call''"
    "g \<in> set (oneof_fields md_ToolCall ''tool'')" "pf_name g = ''read_tool_call''" by (auto simp: list_ex_iff)
  then show ?thesis
    using result_text_delivery [of f "''hi''"] result_text_delivery [of g "''hi''"]
    by (intro exI [of _ f] exI [of _ g]) (simp add: text_field_def outcome_field_def)
qed

end
