(* ===== verification/Translate_Request.thy ===== *)
theory Translate_Request
  imports Conversation Tool_Map Result_Fields
begin

section \<open>From a chat-completions request to a run request\<close>

text \<open>
  \<open>internal/executor/translate_request.go\<close>: the run request with its action, the history encoded twice as
  blobs (turns, root prompt), the client's tools, and the reconstruction of Cursor tool calls
  from the client's tool calls and results. Blobs go into the conversation's store, which is passed along.

  Where the code ranges over a Go map of arguments and may fail, the model visits it in one
  order; which of several errors is reported is the only thing that depends on it.
\<close>

subsection \<open>Operations on the blob store\<close>

text \<open>
  The builders write blobs and may fail midway; what they wrote stays in the store. \<open>'a blob_op\<close> is
  such an operation: a result and the store it leaves.
\<close>

type_synonym 'a blob_op = "blob_store \<Rightarrow> 'a go_result \<times> blob_store"

definition op_lift :: "'a go_result \<Rightarrow> 'a blob_op" where
  "op_lift r = (\<lambda>b. (r, b))"

definition op_bind :: "'a blob_op \<Rightarrow> ('a \<Rightarrow> 'b blob_op) \<Rightarrow> 'b blob_op" where
  "op_bind m f = (\<lambda>b. case m b of
     (Ok x, b') \<Rightarrow> f x b' | (Err e, b') \<Rightarrow> (Err e, b') | (Panic p, b') \<Rightarrow> (Panic p, b'))"

definition op_wrap :: "string \<Rightarrow> 'a blob_op \<Rightarrow> 'a blob_op" where
  "op_wrap p m = (\<lambda>b. case m b of (r, b') \<Rightarrow> (wrap_err p r, b'))"

definition op_put :: "bytes \<Rightarrow> bytes blob_op" where
  "op_put d = (\<lambda>b. case blob_put d b of (i, b') \<Rightarrow> (Ok i, b'))"

text \<open>\<open>proto.Marshal\<close> followed by \<open>blobs.put\<close>.\<close>

definition put_marshaled :: "proto_lib \<Rightarrow> pb_message \<Rightarrow> bytes blob_op" where
  "put_marshaled pl m = op_bind (op_lift (pb_marshal pl m)) op_put"

subsection \<open>Tool parameters and tool definitions\<close>

definition mcp_tools_provider_identifier :: string where
  "mcp_tools_provider_identifier = ''cliproxy-cursor-plugin''"

definition native_tools_prompt :: string where
  "native_tools_prompt = ''Every tool you call is executed by the user's client, not by you. You may use your built-in file, search and shell tools - those calls are forwarded to the user's client for execution and their results are returned to you. Tools listed explicitly for you cover capabilities the client provides beyond those. Do not attempt screen recording, image generation, or computer-use tools; those are unavailable and will be declined.''"

definition default_parameters :: json where
  "default_parameters = jobj [(''type'', jstr ''object''), (''properties'', JObj []), (''required'', JArr [])]"

definition tool_parameters_to_struct_value :: "proto_lib \<Rightarrow> json option \<Rightarrow> json go_result" where
  "tool_parameters_to_struct_value pl params =
     (case params of
        None \<Rightarrow> sp_new_value pl default_parameters
      | Some v \<Rightarrow> go_bind (dec_any v) (sp_new_value pl))"

definition build_mcp_tool ::
  "proto_lib \<Rightarrow> alias_table \<Rightarrow> chat_tool_definition \<Rightarrow> mcp_tool_definition list go_result" where
  "build_mcp_tool pl visit t =
     (let name = tdf_name (td_function t) in
      if name = [] then Ok []
      else if resolve_cursor_tool_field visit name \<noteq> None then Ok []
      else go_bind (wrap_err (''cursor: failed to parse tool '' @ name @ '' parameters'')
                     (tool_parameters_to_struct_value pl (tdf_parameters (td_function t)))) (\<lambda>schemaValue.
           go_bind (wrap_err (''cursor: failed to marshal tool '' @ name @ '' input schema'')
                     (pb_marshal pl (PB_Value schemaValue))) (\<lambda>inputSchema.
           Ok [\<lparr>mtd_name = name, mtd_description = tdf_description (td_function t),
                mtd_provider_identifier = mcp_tools_provider_identifier, mtd_tool_name = name,
                mtd_input_schema = inputSchema\<rparr>])))"

definition build_mcp_tools ::
  "proto_lib \<Rightarrow> alias_table \<Rightarrow> chat_tool_definition list \<Rightarrow> mcp_tool_definition list option go_result" where
  "build_mcp_tools pl visit tools =
     (if tools = [] then Ok None
      else go_bind (go_mapM (build_mcp_tool pl visit) tools) (\<lambda>defs.
        if concat defs = [] then Ok None else Ok (Some (concat defs))))"

subsection \<open>Rebuilding tool calls\<close>

definition apply_tool_call_args :: "proto_lib \<Rightarrow> mdesc \<Rightarrow> string \<Rightarrow> bool \<Rightarrow> pmsg go_result" where
  "apply_tool_call_args pl md argsJSON mapped =
     (let top = (case pj_unmarshal pl (md_name md) argsJSON of
                   (m, None) \<Rightarrow> Ok m
                 | (m, Some e) \<Rightarrow> if mapped then Ok m else Err e)
      in if mapped then
           (case fields_by_name (md_fields md) ''args'' of
              Some f \<Rightarrow>
                if is_message_field f then
                  (if pf_repeated f then Panic ''protoreflect: list field has no message value''
                   else case pj_unmarshal pl (kind_name (pf_kind f)) argsJSON of
                     (sub, None) \<Rightarrow> pm_set md f (VMsg sub) []
                   | (sub, Some e) \<Rightarrow> Ok [])
                else top
            | None \<Rightarrow> top)
         else top)"

definition arg_to_value :: "proto_lib \<Rightarrow> string \<Rightarrow> string \<times> json \<Rightarrow> (string \<times> pval) go_result" where
  "arg_to_value pl toolName kv =
     (case kv of (key, value) \<Rightarrow>
        go_bind (wrap_err (''cursor: failed to encode argument '' @ key @ '' for client tool '' @ toolName)
                  (tool_parameters_to_struct_value pl (Some value))) (\<lambda>structValue.
        go_bind (wrap_err (''cursor: failed to marshal argument '' @ key @ '' for client tool '' @ toolName)
                  (pb_marshal pl (PB_Value structValue))) (\<lambda>encoded.
        Ok (key, VBytes encoded))))"

text \<open>\<open>strings.TrimSpace(s) == ""\<close>: every rune of \<open>s\<close> is white space in Unicode's sense.\<close>

definition ascii_space :: "char \<Rightarrow> bool" where
  "ascii_space c = (9 \<le> code c \<and> code c \<le> 13 \<or> code c = 32)"

fun wide_space :: "string \<Rightarrow> nat" where
  "wide_space (a # b # s) =
     (if code a = 0xC2 \<and> (code b = 0x85 \<or> code b = 0xA0) then 2
      else case s of [] \<Rightarrow> 0
        | c # _ \<Rightarrow>
            if code a = 0xE1 \<and> code b = 0x9A \<and> code c = 0x80
             \<or> code a = 0xE2 \<and> code b = 0x80 \<and> (0x80 \<le> code c \<and> code c \<le> 0x8A \<or> code c = 0xA8 \<or> code c = 0xA9 \<or> code c = 0xAF)
             \<or> code a = 0xE2 \<and> code b = 0x81 \<and> code c = 0x9F
             \<or> code a = 0xE3 \<and> code b = 0x80 \<and> code c = 0x80 then 3 else 0)"
| "wide_space s = 0"

fun is_blank :: "string \<Rightarrow> bool" where
  "is_blank [] = True"
| "is_blank (c # cs) =
     (if ascii_space c then is_blank cs
      else let w = wide_space (c # cs) in w \<noteq> 0 \<and> is_blank (drop (w - 1) cs))"

definition mcp_args_message :: "proto_lib \<Rightarrow> string \<Rightarrow> string \<Rightarrow> pmsg go_result" where
  "mcp_args_message pl toolName argsJSON =
     (let name = (if toolName = [] then [] else [(''name'', VString toolName)]) in
      if is_blank argsJSON then Ok name
      else go_bind (wrap_err (''cursor: failed to decode arguments for client tool '' @ toolName)
                     (go_bind (json_unmarshal argsJSON) dec_raw_map)) (\<lambda>decoded.
           if decoded = [] then Ok name
           else go_bind (go_mapM (arg_to_value pl toolName) decoded) (\<lambda>args. Ok (name @ [(''args'', VMap args)]))))"

definition build_mcp_tool_call_from_name_and_args ::
  "proto_lib \<Rightarrow> string \<Rightarrow> string \<Rightarrow> string \<Rightarrow> pmsg go_result" where
  "build_mcp_tool_call_from_name_and_args pl toolName argsJSON resultContent =
     go_bind (mcp_args_message pl toolName argsJSON) (\<lambda>mcpArgs.
     go_bind (if resultContent = [] then Ok [(''args'', VMsg mcpArgs)]
              else wrap_err (''cursor: failed to set tool result for client tool '' @ toolName)
                     (set_generic_result_field md_McpToolCall resultContent 0 [(''args'', VMsg mcpArgs)]))
       (\<lambda>mcpToolCall. Ok [(''mcp_tool_call'', VMsg mcpToolCall)]))"

definition tool_field :: "string \<Rightarrow> pfield option" where
  "tool_field name = fields_by_name (oneof_fields md_ToolCall ''tool'') name"

text \<open>The variant a tool name selects, and whether it was mapped from a client tool.\<close>

definition select_variant :: "alias_table \<Rightarrow> string \<Rightarrow> (pfield \<times> bool) option" where
  "select_variant visit fieldName =
     (case tool_field fieldName of
        Some f \<Rightarrow> Some (f, False)
      | None \<Rightarrow>
          (case resolve_cursor_tool_field visit fieldName of
             Some nativeField \<Rightarrow>
               (case tool_field nativeField of
                  Some f \<Rightarrow> if is_message_field f then Some (f, True) else None
                | None \<Rightarrow> None)
           | None \<Rightarrow> None))"

definition build_tool_call_from_name_and_args ::
  "proto_lib \<Rightarrow> alias_table \<Rightarrow> string \<Rightarrow> string \<Rightarrow> string \<Rightarrow> pmsg go_result" where
  "build_tool_call_from_name_and_args pl visit fieldName argsJSON resultContent =
     (case select_variant visit fieldName of
        None \<Rightarrow> build_mcp_tool_call_from_name_and_args pl fieldName argsJSON resultContent
      | Some (f, mapped) \<Rightarrow>
          if \<not> is_message_field f
          then Err (''cursor: tool call variant '' @ fieldName @ '' is not a message field'')
          else go_bind (field_desc f) (\<lambda>md.
            go_bind (if argsJSON = [] then Ok []
                     else wrap_err (''cursor: failed to unmarshal tool call arguments for '' @ fieldName)
                            (apply_tool_call_args pl md argsJSON mapped)) (\<lambda>concrete.
            go_bind (if resultContent = [] then Ok concrete
                     else wrap_err (''cursor: failed to set tool result for '' @ fieldName)
                            (set_generic_result_field md resultContent 0 concrete)) (\<lambda>m.
            pm_set md_ToolCall f (VMsg m) []))))"

definition chat_tool_call_to_tool_call :: "proto_lib \<Rightarrow> alias_table \<Rightarrow> chat_tool_call \<Rightarrow> pmsg go_result" where
  "chat_tool_call_to_tool_call pl visit tc =
     build_tool_call_from_name_and_args pl visit (tcf_name (tc_function tc)) (tcf_arguments (tc_function tc)) []"

definition chat_tool_call_to_tool_call_with_result ::
  "proto_lib \<Rightarrow> alias_table \<Rightarrow> chat_tool_call \<Rightarrow> string \<Rightarrow> pmsg go_result" where
  "chat_tool_call_to_tool_call_with_result pl visit tc resultContent =
     build_tool_call_from_name_and_args pl visit (tcf_name (tc_function tc)) (tcf_arguments (tc_function tc))
       resultContent"

subsection \<open>History: turns\<close>

definition opens_turn :: "string \<Rightarrow> bool" where
  "opens_turn role = (role = ''user'' \<or> role = ''system'')"

type_synonym pending_calls = "string \<Rightarrow> chat_tool_call option"

text \<open>The tool calls of one assistant message.\<close>

fun tool_call_steps ::
  "proto_lib \<Rightarrow> alias_table \<Rightarrow> chat_tool_call list \<Rightarrow> pending_calls \<Rightarrow> (bytes list \<times> pending_calls) blob_op" where
  "tool_call_steps pl visit [] pending = op_lift (Ok ([], pending))"
| "tool_call_steps pl visit (tc # tcs) pending =
     op_bind (op_lift (chat_tool_call_to_tool_call pl visit tc)) (\<lambda>toolCallMsg.
     op_bind (put_marshaled pl (PB_ConversationStep (StepToolCall toolCallMsg))) (\<lambda>i.
     op_bind (tool_call_steps pl visit tcs (pending(tc_id tc \<mapsto> tc))) (\<lambda>(ids, pending').
     op_lift (Ok (i # ids, pending')))))"

definition assistant_steps ::
  "proto_lib \<Rightarrow> alias_table \<Rightarrow> chat_message \<Rightarrow> pending_calls \<Rightarrow> (bytes list \<times> pending_calls) blob_op" where
  "assistant_steps pl visit step pending =
     op_bind (if cm_content step = [] then op_lift (Ok [])
              else op_bind (put_marshaled pl (PB_ConversationStep (AssistantMessage (cm_content step))))
                     (\<lambda>i. op_lift (Ok [i]))) (\<lambda>ids.
     op_bind (tool_call_steps pl visit (cm_tool_calls step) pending) (\<lambda>(ids', pending').
     op_lift (Ok (ids @ ids', pending'))))"

definition tool_result_prefix :: string where
  "tool_result_prefix = ''[Tool Result]'' @ [CHR 0x0A]"

definition tool_step ::
  "proto_lib \<Rightarrow> alias_table \<Rightarrow> chat_message \<Rightarrow> pending_calls \<Rightarrow> (bytes list \<times> pending_calls) blob_op" where
  "tool_step pl visit step pending =
     (case pending (cm_tool_call_id step) of
        None \<Rightarrow>
          op_bind (put_marshaled pl (PB_ConversationStep (AssistantMessage (tool_result_prefix @ cm_content step))))
            (\<lambda>i. op_lift (Ok ([i], pending)))
      | Some original \<Rightarrow>
          op_bind (op_lift (chat_tool_call_to_tool_call_with_result pl visit original (cm_content step))) (\<lambda>toolCall.
          op_bind (put_marshaled pl (PB_ConversationStep (StepToolCall toolCall))) (\<lambda>i.
          op_lift (Ok ([i], pending(cm_tool_call_id step := None))))))"

fun turn_steps ::
  "proto_lib \<Rightarrow> alias_table \<Rightarrow> chat_message list \<Rightarrow> pending_calls \<Rightarrow> (bytes list \<times> pending_calls) blob_op" where
  "turn_steps pl visit [] pending = op_lift (Ok ([], pending))"
| "turn_steps pl visit (step # steps) pending =
     op_bind (if cm_role step = ''assistant'' then assistant_steps pl visit step pending
              else if cm_role step = ''tool'' then tool_step pl visit step pending
              else op_lift (Ok ([], pending))) (\<lambda>(ids, pending').
     op_bind (turn_steps pl visit steps pending') (\<lambda>(ids', pending'').
     op_lift (Ok (ids @ ids', pending''))))"

definition turn_structure_blob_id :: "proto_lib \<Rightarrow> bytes \<Rightarrow> bytes list \<Rightarrow> bytes blob_op" where
  "turn_structure_blob_id pl userMessage steps =
     op_bind (op_lift (wrap_err ''cursor: failed to marshal conversation turn''
                (pb_marshal pl (PB_AgentConversationTurn userMessage steps)))) op_put"

definition user_turn_blob_id :: "proto_lib \<Rightarrow> string \<Rightarrow> bytes blob_op" where
  "user_turn_blob_id pl text =
     op_bind (op_wrap ''cursor: failed to marshal user message'' (put_marshaled pl (PB_UserMessage text [])))
       (\<lambda>i. turn_structure_blob_id pl i [])"

definition steps_turn_blob_id :: "proto_lib \<Rightarrow> bytes list \<Rightarrow> bytes blob_op" where
  "steps_turn_blob_id pl stepBlobIDs = turn_structure_blob_id pl [] stepBlobIDs"

definition turn_text :: "chat_message \<Rightarrow> string" where
  "turn_text m = (if cm_role m = ''system'' then ''[system] '' @ cm_content m else cm_content m)"

definition is_step :: "chat_message \<Rightarrow> bool" where
  "is_step m = (\<not> opens_turn (cm_role m))"

function history_turns ::
  "proto_lib \<Rightarrow> alias_table \<Rightarrow> chat_message list \<Rightarrow> pending_calls \<Rightarrow> bytes list blob_op" where
  "history_turns pl visit [] pending = op_lift (Ok [])"
| "history_turns pl visit (msg # ms) pending =
     (if is_step msg \<or> turn_text msg = [] then history_turns pl visit ms pending
      else
        op_bind (op_wrap ''cursor: failed to marshal user message'' (put_marshaled pl (PB_UserMessage (turn_text msg) [])))
          (\<lambda>userBlobID.
        op_bind (turn_steps pl visit (takeWhile is_step ms) pending) (\<lambda>(stepBlobIDs, pending').
        op_bind (turn_structure_blob_id pl userBlobID stepBlobIDs) (\<lambda>turnBlobID.
        op_bind (history_turns pl visit (dropWhile is_step ms) pending') (\<lambda>turns.
        op_lift (Ok (turnBlobID # turns)))))))"
  by pat_completeness auto
termination
  by (relation "measure (\<lambda>(pl, visit, ms, pending). length ms)") (auto simp: less_Suc_eq_le length_dropWhile_le)

definition build_history_turn_blob_ids ::
  "proto_lib \<Rightarrow> alias_table \<Rightarrow> chat_message list \<Rightarrow> bytes list blob_op" where
  "build_history_turn_blob_ids pl visit ms = history_turns pl visit ms Map.empty"

subsection \<open>History: the root prompt\<close>

definition root_prompt_entry_json :: "string \<Rightarrow> string \<Rightarrow> json" where
  "root_prompt_entry_json role text =
     jobj [(''role'', jstr role), (''content'', JArr [jobj [(''type'', jstr ''text''), (''text'', jstr text)]])]"

definition system_prefix :: string where
  "system_prefix = ''[System]'' @ [CHR 0x0A]"

definition root_prompt_entry :: "chat_message \<Rightarrow> (string \<times> string) option" where
  "root_prompt_entry m =
     (if cm_content m = [] then None
      else if cm_role m = ''system'' then Some (''user'', system_prefix @ cm_content m)
      else if cm_role m = ''user'' then Some (''user'', cm_content m)
      else if cm_role m = ''assistant'' then Some (''assistant'', cm_content m)
      else if cm_role m = ''tool'' then Some (''user'', tool_result_prefix @ cm_content m)
      else None)"

definition put_entry :: "string \<times> string \<Rightarrow> bytes blob_op" where
  "put_entry e = op_put (to_bytes (json_print (root_prompt_entry_json (fst e) (snd e))))"

fun root_prompt_loop :: "chat_message list \<Rightarrow> bool \<Rightarrow> (bytes list \<times> bool) blob_op" where
  "root_prompt_loop [] has = op_lift (Ok ([], has))"
| "root_prompt_loop (m # ms) has =
     (case root_prompt_entry m of
        None \<Rightarrow> root_prompt_loop ms has
      | Some e \<Rightarrow>
          op_bind (put_entry e) (\<lambda>i.
          op_bind (root_prompt_loop ms (has \<or> cm_role m = ''system'' \<and> contains (cm_content m) native_tools_prompt))
            (\<lambda>(ids, has'). op_lift (Ok (i # ids, has')))))"

definition build_root_prompt_message_blob_ids ::
  "chat_message list \<Rightarrow> chat_tool_definition list \<Rightarrow> bytes list blob_op" where
  "build_root_prompt_message_blob_ids ms tools =
     op_bind (root_prompt_loop ms False) (\<lambda>(ids, has).
       if tools \<noteq> [] \<and> \<not> has
       then op_bind (put_entry (''user'', system_prefix @ native_tools_prompt)) (\<lambda>i. op_lift (Ok (ids @ [i])))
       else op_lift (Ok ids))"

subsection \<open>buildAgentRunRequest\<close>

definition empty_state :: conversation_state where
  "empty_state = \<lparr>cs_turns = [], cs_root_prompt_messages_json = [], cs_other = []\<rparr>"

text \<open>The action and the history: a final user message is the action, anything else resumes.\<close>

definition split_action ::
  "chat_message list \<Rightarrow> entropy \<Rightarrow> (conversation_action \<times> chat_message list) go_result \<times> entropy" where
  "split_action ms en =
     (if cm_role (last ms) = ''user'' \<and> cm_content (last ms) \<noteq> []
      then (let (r, en') = new_message_id en
            in (go_bind r (\<lambda>i. Ok (UserMessageAction (cm_content (last ms)) i, butlast ms)), en'))
      else (Ok (ResumeAction, ms), en))"

definition build_agent_run_request ::
  "proto_lib \<Rightarrow> alias_table \<Rightarrow> chat_completions_request \<Rightarrow> string \<Rightarrow> conversation_state option
    \<Rightarrow> entropy \<Rightarrow> blob_store \<Rightarrow> agent_run_request go_result \<times> blob_store \<times> entropy" where
  "build_agent_run_request pl visit req conversationID base en blobs =
     (if cr_messages req = [] then (Err ''cursor: at least one message is required'', blobs, en)
      else
        let (r, en') = split_action (cr_messages req) en;
            (result, blobs') =
              op_bind (op_lift r) (\<lambda>(action, history).
              op_bind (op_wrap ''cursor: failed to encode conversation history turns''
                        (build_history_turn_blob_ids pl visit history)) (\<lambda>turns.
              op_bind (op_wrap ''cursor: failed to encode root prompt messages''
                        (build_root_prompt_message_blob_ids history (cr_tools req))) (\<lambda>rootPromptIDs.
              op_bind (op_lift (wrap_err ''cursor: failed to encode client tool definitions''
                        (build_mcp_tools pl visit (cr_tools req)))) (\<lambda>mcpTools.
              op_lift (Ok \<lparr>arr_conversation_state =
                    (case base of Some s \<Rightarrow> s | None \<Rightarrow> empty_state)
                      \<lparr>cs_turns := turns, cs_root_prompt_messages_json := rootPromptIDs\<rparr>,
                  arr_action = action, arr_model_id = cr_model req, arr_mcp_tools = mcpTools,
                  arr_conversation_id = (if conversationID = [] then None else Some conversationID)\<rparr>))))) blobs
        in (result, blobs', en'))"

end
