(* ===== verification/History_Laws.thy ===== *)
theory History_Laws
  imports Translate_Request
begin

section \<open>What the encoded history says\<close>

text \<open>
  An abstract reading of the history, without blobs: the turns with their user texts and steps, and the
  root prompt's entries. The builders of \<open>Translate_Request\<close> refine it: the ids they return are the
  content addresses of the abstract history, and every blob an id refers to is in the store.
\<close>

subsection \<open>Blob operations\<close>

lemma op_bind_Ok_iff [go_simps]:
  "op_bind m f b = (Ok y, b'') \<longleftrightarrow> (\<exists>x b'. m b = (Ok x, b') \<and> f x b' = (Ok y, b''))"
  by (auto simp: op_bind_def split: prod.splits go_result.splits)

lemma op_lift_Ok_iff [go_simps]: "op_lift r b = (Ok y, b') \<longleftrightarrow> r = Ok y \<and> b' = b"
  by (auto simp: op_lift_def)

lemma op_wrap_Ok_iff [go_simps]: "op_wrap p m b = (Ok y, b') \<longleftrightarrow> m b = (Ok y, b')"
  by (auto simp: op_wrap_def split: prod.splits)

text \<open>The content address of a message, and what it means that the store has it.\<close>

definition blob_id :: "proto_lib \<Rightarrow> pb_message \<Rightarrow> bytes" where
  "blob_id pl m = (case pb_marshal pl m of Ok raw \<Rightarrow> sha256 raw | _ \<Rightarrow> [])"

definition stored :: "proto_lib \<Rightarrow> blob_store \<Rightarrow> pb_message \<Rightarrow> bool" where
  "stored pl b m = (is_ok (pb_marshal pl m) \<and> resolves b (blob_id pl m))"

lemma stored_mono: "stored pl b m \<Longrightarrow> extends b b' \<Longrightarrow> stored pl b' m"
  by (simp add: stored_def extendsD)

lemma op_put_Ok: "op_put d b = (Ok i, b') \<Longrightarrow> i = sha256 d \<and> extends b b' \<and> resolves b' i"
  by (auto simp: op_put_def dest: blob_put_extends split: prod.splits)

lemma put_marshaled_Ok:
  "put_marshaled pl m b = (Ok i, b') \<Longrightarrow> i = blob_id pl m \<and> extends b b' \<and> stored pl b' m"
  by (auto simp: put_marshaled_def go_simps blob_id_def stored_def dest: op_put_Ok)

lemma turn_structure_Ok:
  "turn_structure_blob_id pl u ss b = (Ok i, b') \<Longrightarrow>
   i = blob_id pl (PB_AgentConversationTurn u ss) \<and> extends b b' \<and> stored pl b' (PB_AgentConversationTurn u ss)"
  by (auto simp: turn_structure_blob_id_def go_simps blob_id_def stored_def dest: op_put_Ok)

text \<open>What a builder does to the store, whatever its result: a sequence of puts, so it keeps what the store has.\<close>

definition op_puts :: "'a blob_op \<Rightarrow> bool" where
  "op_puts m = (\<forall>b. \<exists>ds. snd (m b) = blobs.put_all (puts ds) b)"

lemma op_putsD: "op_puts m \<Longrightarrow> m b = (r, b') \<Longrightarrow> \<exists>ds. b' = blobs.put_all (puts ds) b"
  unfolding op_puts_def by (metis snd_conv)

lemma op_puts_extends: "op_puts m \<Longrightarrow> m b = (r, b') \<Longrightarrow> extends b b'"
  using op_putsD puts_extends by blast

lemma puts_trans:
  assumes "\<exists>ds. b1 = blobs.put_all (puts ds) b" and "\<exists>ds. b2 = blobs.put_all (puts ds) b1"
  shows "\<exists>ds. b2 = blobs.put_all (puts ds) b"
proof -
  obtain ds1 ds2 where "b1 = blobs.put_all (puts ds1) b" and "b2 = blobs.put_all (puts ds2) b1" using assms by blast
  then have "b2 = blobs.put_all (puts (ds1 @ ds2)) b" by (simp add: puts_def put_all_append)
  then show ?thesis by blast
qed

lemma op_puts_lift [inv_intros]: "op_puts (op_lift r)"
  unfolding op_puts_def op_lift_def using put_all_puts_Nil by auto

lemma op_puts_put [inv_intros]: "op_puts (op_put d)"
proof -
  have "snd (op_put d b) = blobs.put_all (puts [d]) b" for b
    by (simp add: op_put_def blob_put_def puts_def Let_def)
  then show ?thesis unfolding op_puts_def by blast
qed

lemma op_puts_bind [inv_intros]:
  assumes "op_puts m" and "\<And>x. op_puts (f x)" shows "op_puts (op_bind m f)"
  unfolding op_puts_def
proof
  fix b
  obtain r b1 where m: "m b = (r, b1)" by fastforce
  then have 1: "\<exists>ds. b1 = blobs.put_all (puts ds) b" using op_putsD [OF assms(1)] by blast
  show "\<exists>ds. snd (op_bind m f b) = blobs.put_all (puts ds) b"
  proof (cases r)
    case (Ok x)
    obtain r2 b2 where f: "f x b1 = (r2, b2)" by fastforce
    then have "\<exists>ds. b2 = blobs.put_all (puts ds) b1" using op_putsD [OF assms(2)] by blast
    from puts_trans [OF 1 this] show ?thesis using m f Ok by (simp add: op_bind_def)
  qed (use 1 m in \<open>simp_all add: op_bind_def\<close>)
qed

lemma op_puts_wrap [inv_intros]: "op_puts m \<Longrightarrow> op_puts (op_wrap p m)"
  by (auto simp: op_puts_def op_wrap_def split: prod.splits) (metis snd_conv)

lemma op_puts_marshaled [inv_intros]: "op_puts (put_marshaled pl m)"
  unfolding put_marshaled_def by (intro inv_intros)

lemma op_puts_if [inv_intros]: "op_puts m \<Longrightarrow> op_puts n \<Longrightarrow> op_puts (if c then m else n)"
  by simp

lemma op_puts_case_prod [inv_intros]: "(\<And>x y. op_puts (f x y)) \<Longrightarrow> op_puts (case p of (x, y) \<Rightarrow> f x y)"
  by (cases p) simp

lemma op_puts_tool_calls [inv_intros]: "op_puts (tool_call_steps pl visit tcs pending)"
  by (induction tcs arbitrary: pending) (auto intro!: inv_intros)

lemma op_puts_tool_step [inv_intros]: "op_puts (tool_step pl visit m pending)"
  by (auto simp: tool_step_def intro!: inv_intros split: option.split)

lemma op_puts_turn_steps [inv_intros]: "op_puts (turn_steps pl visit ms pending)"
  by (induction ms arbitrary: pending) (auto simp: assistant_steps_def intro!: inv_intros)

lemma op_puts_history [inv_intros]: "op_puts (history_turns pl visit ms pending)"
  by (induction pl visit ms pending rule: history_turns.induct)
     (auto simp: turn_structure_blob_id_def intro!: inv_intros)

lemma op_puts_entry [inv_intros]: "op_puts (put_entry e)"
  unfolding put_entry_def by (intro inv_intros)

lemma op_puts_root_prompt [inv_intros]: "op_puts (root_prompt_loop ms has)"
  by (induction ms has rule: root_prompt_loop.induct) (auto intro!: inv_intros split: option.split)

lemma build_puts:
  assumes "build_agent_run_request pl visit req cid base en b = (r, b', en')"
  shows "\<exists>ds. b' = blobs.put_all (puts ds) b"
proof (cases "cr_messages req = []")
  case True
  then show ?thesis using assms put_all_puts_Nil by (auto simp: build_agent_run_request_def)
next
  case False
  obtain r0 en0 where s: "split_action (cr_messages req) en = (r0, en0)" by fastforce
  have "op_puts (op_bind (op_lift r0) (\<lambda>(action, history).
              op_bind (op_wrap ''cursor: failed to encode conversation history turns''
                        (build_history_turn_blob_ids pl visit history)) (\<lambda>turns.
              op_bind (op_wrap ''cursor: failed to encode root prompt messages''
                        (build_root_prompt_message_blob_ids history (cr_tools req))) (\<lambda>rootPromptIDs.
              op_bind (op_lift (wrap_err ''cursor: failed to encode client tool definitions''
                        (build_mcp_tools pl visit (cr_tools req)))) (\<lambda>mcpTools.
              op_lift (Ok \<lparr>arr_conversation_state =
                    (case base of Some s \<Rightarrow> s | None \<Rightarrow> empty_state)
                      \<lparr>cs_turns := turns, cs_root_prompt_messages_json := rootPromptIDs\<rparr>,
                  arr_action = action, arr_model_id = cr_model req, arr_mcp_tools = mcpTools,
                  arr_conversation_id = (if cid = [] then None else Some cid)\<rparr>))))))"
    unfolding build_history_turn_blob_ids_def build_root_prompt_message_blob_ids_def by (intro inv_intros)
  from op_putsD [OF this, of b r b'] show ?thesis
    using assms False s by (simp add: build_agent_run_request_def split: prod.splits)
qed

subsection \<open>The abstract history\<close>

fun abs_tool_calls ::
  "proto_lib \<Rightarrow> alias_table \<Rightarrow> chat_tool_call list \<Rightarrow> pending_calls \<Rightarrow> (conversation_step list \<times> pending_calls) go_result" where
  "abs_tool_calls pl visit [] pending = Ok ([], pending)"
| "abs_tool_calls pl visit (tc # tcs) pending =
     go_bind (chat_tool_call_to_tool_call pl visit tc) (\<lambda>m.
     go_bind (abs_tool_calls pl visit tcs (pending(tc_id tc \<mapsto> tc))) (\<lambda>(ss, p). Ok (StepToolCall m # ss, p)))"

definition abs_step ::
  "proto_lib \<Rightarrow> alias_table \<Rightarrow> chat_message \<Rightarrow> pending_calls \<Rightarrow> (conversation_step list \<times> pending_calls) go_result" where
  "abs_step pl visit m pending =
     (if cm_role m = ''assistant'' then
        go_bind (abs_tool_calls pl visit (cm_tool_calls m) pending) (\<lambda>(ss, p).
          Ok ((if cm_content m = [] then [] else [AssistantMessage (cm_content m)]) @ ss, p))
      else if cm_role m = ''tool'' then
        (case pending (cm_tool_call_id m) of
           None \<Rightarrow> Ok ([AssistantMessage (tool_result_prefix @ cm_content m)], pending)
         | Some tc \<Rightarrow> go_bind (chat_tool_call_to_tool_call_with_result pl visit tc (cm_content m)) (\<lambda>t.
             Ok ([StepToolCall t], pending(cm_tool_call_id m := None))))
      else Ok ([], pending))"

fun abs_steps ::
  "proto_lib \<Rightarrow> alias_table \<Rightarrow> chat_message list \<Rightarrow> pending_calls \<Rightarrow> (conversation_step list \<times> pending_calls) go_result" where
  "abs_steps pl visit [] pending = Ok ([], pending)"
| "abs_steps pl visit (m # ms) pending =
     go_bind (abs_step pl visit m pending) (\<lambda>(ss, p).
     go_bind (abs_steps pl visit ms p) (\<lambda>(ss', p'). Ok (ss @ ss', p')))"

function abs_turns ::
  "proto_lib \<Rightarrow> alias_table \<Rightarrow> chat_message list \<Rightarrow> pending_calls \<Rightarrow> (string \<times> conversation_step list) list go_result" where
  "abs_turns pl visit [] pending = Ok []"
| "abs_turns pl visit (m # ms) pending =
     (if is_step m \<or> turn_text m = [] then abs_turns pl visit ms pending
      else go_bind (abs_steps pl visit (takeWhile is_step ms) pending) (\<lambda>(ss, p).
           go_bind (abs_turns pl visit (dropWhile is_step ms) p) (\<lambda>ts. Ok ((turn_text m, ss) # ts))))"
  by pat_completeness auto
termination
  by (relation "measure (\<lambda>(pl, visit, ms, pending). length ms)") (auto simp: less_Suc_eq_le length_dropWhile_le)

subsection \<open>Refinement\<close>

definition step_msg :: "conversation_step \<Rightarrow> pb_message" where
  "step_msg s = PB_ConversationStep s"

definition turn_msg :: "proto_lib \<Rightarrow> string \<times> conversation_step list \<Rightarrow> pb_message" where
  "turn_msg pl t = PB_AgentConversationTurn (blob_id pl (PB_UserMessage (fst t) []))
     (map (\<lambda>s. blob_id pl (step_msg s)) (snd t))"

definition turn_stored :: "proto_lib \<Rightarrow> blob_store \<Rightarrow> string \<times> conversation_step list \<Rightarrow> bool" where
  "turn_stored pl b t = (stored pl b (turn_msg pl t) \<and> stored pl b (PB_UserMessage (fst t) [])
     \<and> (\<forall>s \<in> set (snd t). stored pl b (step_msg s)))"

lemma turn_stored_mono: "turn_stored pl b t \<Longrightarrow> extends b b' \<Longrightarrow> turn_stored pl b' t"
  by (auto simp: turn_stored_def intro: stored_mono)

definition steps_refine ::
  "proto_lib \<Rightarrow> blob_store \<Rightarrow> bytes list \<times> pending_calls \<Rightarrow> (conversation_step list \<times> pending_calls) go_result \<Rightarrow> bool" where
  "steps_refine pl b r a = (\<exists>ss. a = Ok (ss, snd r) \<and> fst r = map (\<lambda>s. blob_id pl (step_msg s)) ss
     \<and> (\<forall>s \<in> set ss. stored pl b (step_msg s)))"

lemma steps_refine_mono: "steps_refine pl b r a \<Longrightarrow> extends b b' \<Longrightarrow> steps_refine pl b' r a"
  by (auto simp: steps_refine_def stored_def extendsD)

lemma tool_call_steps_refine:
  "tool_call_steps pl visit tcs pending b = (Ok r, b') \<Longrightarrow> steps_refine pl b' r (abs_tool_calls pl visit tcs pending)"
proof (induction tcs arbitrary: pending b r b')
  case (Cons tc tcs)
  then obtain m i b1 ids p where m: "chat_tool_call_to_tool_call pl visit tc = Ok m"
    and put: "put_marshaled pl (PB_ConversationStep (StepToolCall m)) b = (Ok i, b1)"
    and rec: "tool_call_steps pl visit tcs (pending(tc_id tc \<mapsto> tc)) b1 = (Ok (ids, p), b')"
    and r: "r = (i # ids, p)"
    by (auto simp: go_simps)
  have "extends b1 b'" using rec op_puts_tool_calls op_puts_extends by blast
  then have "stored pl b' (step_msg (StepToolCall m))" "i = blob_id pl (step_msg (StepToolCall m))"
    using put_marshaled_Ok [OF put] stored_mono by (auto simp: step_msg_def)
  moreover obtain ss where "abs_tool_calls pl visit tcs (pending(tc_id tc \<mapsto> tc)) = Ok (ss, p)"
      "ids = map (\<lambda>s. blob_id pl (step_msg s)) ss" "\<forall>s \<in> set ss. stored pl b' (step_msg s)"
    using Cons.IH [OF rec] unfolding steps_refine_def fst_conv snd_conv by blast
  ultimately show ?case
    unfolding steps_refine_def using m r by (intro exI [of _ "StepToolCall m # ss"]) simp
qed (auto simp: go_simps steps_refine_def)

lemma assistant_steps_refine:
  assumes "cm_role m = ''assistant''" and "assistant_steps pl visit m pending b = (Ok r, b')"
  shows "steps_refine pl b' r (abs_step pl visit m pending)"
proof (cases "cm_content m = []")
  case True
  then show ?thesis
    using assms tool_call_steps_refine [of pl visit "cm_tool_calls m" pending b]
    by (fastforce simp: assistant_steps_def go_simps steps_refine_def abs_step_def)
next
  case False
  then obtain i b1 ids p where
    put: "put_marshaled pl (PB_ConversationStep (AssistantMessage (cm_content m))) b = (Ok i, b1)"
    and rec: "tool_call_steps pl visit (cm_tool_calls m) pending b1 = (Ok (ids, p), b')" and r: "r = (i # ids, p)"
    using assms(2) by (auto simp: assistant_steps_def go_simps)
  have "extends b1 b'" using rec op_puts_tool_calls op_puts_extends by blast
  then have "stored pl b' (step_msg (AssistantMessage (cm_content m)))"
      "i = blob_id pl (step_msg (AssistantMessage (cm_content m)))"
    using put_marshaled_Ok [OF put] stored_mono by (auto simp: step_msg_def)
  with tool_call_steps_refine [OF rec] show ?thesis
    using assms(1) False r by (auto simp: steps_refine_def abs_step_def)
qed

lemma tool_step_refine:
  assumes "cm_role m = ''tool''" and "tool_step pl visit m pending b = (Ok r, b')"
  shows "steps_refine pl b' r (abs_step pl visit m pending)"
  using assms put_marshaled_Ok
  by (fastforce simp: tool_step_def go_simps steps_refine_def abs_step_def step_msg_def split: option.splits)

lemma turn_steps_refine:
  "turn_steps pl visit ms pending b = (Ok r, b') \<Longrightarrow> steps_refine pl b' r (abs_steps pl visit ms pending)"
proof (induction ms arbitrary: pending b r b')
  case (Cons m ms)
  then obtain ids p b1 ids' p' where
    step: "(if cm_role m = ''assistant'' then assistant_steps pl visit m pending
            else if cm_role m = ''tool'' then tool_step pl visit m pending else op_lift (Ok ([], pending))) b
           = (Ok (ids, p), b1)"
    and rec: "turn_steps pl visit ms p b1 = (Ok (ids', p'), b')" and r: "r = (ids @ ids', p')"
    by (auto simp: go_simps)
  consider "cm_role m = ''assistant''" | "cm_role m = ''tool''" | "cm_role m \<noteq> ''assistant''" "cm_role m \<noteq> ''tool''" by blast
  then have "steps_refine pl b1 (ids, p) (abs_step pl visit m pending)"
  proof cases
    case 1
    then show ?thesis using step by (intro assistant_steps_refine [OF 1]) simp
  next
    case 2
    then show ?thesis using step by (intro tool_step_refine [OF 2]) simp
  next
    case 3
    then show ?thesis using step by (simp add: op_lift_Ok_iff steps_refine_def abs_step_def)
  qed
  then have "steps_refine pl b' (ids, p) (abs_step pl visit m pending)"
    using rec op_puts_turn_steps op_puts_extends steps_refine_mono by blast
  with Cons.IH [OF rec] show ?case using r by (auto simp: steps_refine_def)
qed (auto simp: go_simps steps_refine_def)

theorem history_turns_refine:
  "history_turns pl visit ms pending b = (Ok ids, b') \<Longrightarrow>
   \<exists>ts. abs_turns pl visit ms pending = Ok ts \<and> ids = map (\<lambda>t. blob_id pl (turn_msg pl t)) ts
     \<and> (\<forall>t \<in> set ts. turn_stored pl b' t)"
proof (induction pl visit ms pending arbitrary: b ids b' rule: history_turns.induct)
  case (2 pl visit m ms pending)
  show ?case
  proof (cases "is_step m \<or> turn_text m = []")
    case True
    then show ?thesis using 2 by simp
  next
    case False
    with "2.prems" obtain u b1 ss p b2 t b3 ts where
      put: "put_marshaled pl (PB_UserMessage (turn_text m) []) b = (Ok u, b1)"
      and steps: "turn_steps pl visit (takeWhile is_step ms) pending b1 = (Ok (ss, p), b2)"
      and turn: "turn_structure_blob_id pl u ss b2 = (Ok t, b3)"
      and rec: "history_turns pl visit (dropWhile is_step ms) p b3 = (Ok ts, b')" and ids: "ids = t # ts"
      by (auto simp: go_simps)
    have ext: "extends b1 b2" "extends b2 b3" "extends b3 b'"
      using steps turn_structure_Ok [OF turn] rec op_puts_turn_steps op_puts_history op_puts_extends by blast+
    obtain as where as: "abs_steps pl visit (takeWhile is_step ms) pending = Ok (as, p)"
        "ss = map (\<lambda>s. blob_id pl (step_msg s)) as" "\<forall>s \<in> set as. stored pl b2 (step_msg s)"
      using turn_steps_refine [OF steps] by (auto simp: steps_refine_def)
    obtain ats where ats: "abs_turns pl visit (dropWhile is_step ms) p = Ok ats"
        "ts = map (\<lambda>t. blob_id pl (turn_msg pl t)) ats" "\<forall>t \<in> set ats. turn_stored pl b' t"
      using "2.IH"(2) [OF False rec] by blast
    have u: "u = blob_id pl (PB_UserMessage (turn_text m) [])" "stored pl b3 (PB_UserMessage (turn_text m) [])"
      using put_marshaled_Ok [OF put] ext stored_mono extends_trans by blast+
    have "turn_stored pl b3 (turn_text m, as)"
      using turn_structure_Ok [OF turn] u as ext by (auto simp: turn_stored_def turn_msg_def intro: stored_mono)
    then have "turn_stored pl b' (turn_text m, as)" using ext by (auto intro: turn_stored_mono)
    moreover have "t = blob_id pl (turn_msg pl (turn_text m, as))"
      using turn_structure_Ok [OF turn] u as by (simp add: turn_msg_def)
    ultimately show ?thesis using False as ats ids by auto
  qed
qed (auto simp: go_simps)

subsection \<open>The root prompt\<close>

definition entry_id :: "string \<times> string \<Rightarrow> bytes" where
  "entry_id e = sha256 (to_bytes (json_print (root_prompt_entry_json (fst e) (snd e))))"

definition has_native_prompt :: "chat_message list \<Rightarrow> bool" where
  "has_native_prompt ms = (\<exists>m \<in> set ms. cm_role m = ''system'' \<and> contains (cm_content m) native_tools_prompt)"

definition root_entries :: "chat_message list \<Rightarrow> chat_tool_definition list \<Rightarrow> (string \<times> string) list" where
  "root_entries ms tools = List.map_filter root_prompt_entry ms
     @ (if tools \<noteq> [] \<and> \<not> has_native_prompt ms then [(''user'', system_prefix @ native_tools_prompt)] else [])"

lemma put_entry_Ok: "put_entry e b = (Ok i, b') \<Longrightarrow> i = entry_id e \<and> extends b b' \<and> resolves b' i"
  by (auto simp: put_entry_def entry_id_def dest: op_put_Ok)

lemma put_entry_never_fails: "is_ok (fst (put_entry e b))"
  by (simp add: put_entry_def op_put_def split: prod.split)

lemma contains_nonempty: "contains [] native_tools_prompt = False"
  by (simp add: native_tools_prompt_def)

lemma root_prompt_loop_spec:
  "\<exists>ids b'. root_prompt_loop ms has b = (Ok (ids, has \<or> has_native_prompt ms), b')
     \<and> ids = map entry_id (List.map_filter root_prompt_entry ms) \<and> (\<forall>i \<in> set ids. resolves b' i) \<and> extends b b'"
proof (induction ms arbitrary: has b)
  case Nil
  then show ?case by (auto simp: op_lift_def has_native_prompt_def map_filter_simps)
next
  case (Cons m ms)
  let ?has = "has \<or> cm_role m = ''system'' \<and> contains (cm_content m) native_tools_prompt"
  have has: "(?has \<or> has_native_prompt ms) = (has \<or> has_native_prompt (m # ms))"
    by (auto simp: has_native_prompt_def)
  show ?case
  proof (cases "root_prompt_entry m")
    case None
    then have "\<not> (cm_role m = ''system'' \<and> contains (cm_content m) native_tools_prompt)"
      using contains_nonempty by (auto simp: root_prompt_entry_def split: if_splits)
    then have "has_native_prompt (m # ms) = has_native_prompt ms" by (auto simp: has_native_prompt_def)
    then show ?thesis using Cons.IH [of has b] None by (simp add: map_filter_simps)
  next
    case (Some e)
    obtain i b1 where put: "put_entry e b = (Ok i, b1)"
      using put_entry_never_fails [of e b] by (cases "put_entry e b") (auto simp: is_ok_iff)
    obtain ids b' where rec: "root_prompt_loop ms ?has b1 = (Ok (ids, ?has \<or> has_native_prompt ms), b')"
        "ids = map entry_id (List.map_filter root_prompt_entry ms)" "\<forall>i \<in> set ids. resolves b' i" "extends b1 b'"
      using Cons.IH [of ?has b1] by blast
    have "root_prompt_loop (m # ms) has b = (Ok (i # ids, has \<or> has_native_prompt (m # ms)), b')"
      using put rec(1) unfolding has by (simp add: Some op_bind_def op_lift_def)
    moreover have "resolves b' i" "extends b b'"
      using put_entry_Ok [OF put] rec(4) extendsD extends_trans by blast+
    ultimately show ?thesis using rec put_entry_Ok [OF put] Some by (auto simp: map_filter_simps)
  qed
qed

lemma root_prompt_spec:
  "\<exists>b'. build_root_prompt_message_blob_ids ms tools b = (Ok (map entry_id (root_entries ms tools)), b')
     \<and> (\<forall>e \<in> set (root_entries ms tools). resolves b' (entry_id e)) \<and> extends b b'"
proof -
  let ?es = "List.map_filter root_prompt_entry ms" and ?native = "(''user'', system_prefix @ native_tools_prompt)"
  obtain b1 where loop: "root_prompt_loop ms False b = (Ok (map entry_id ?es, has_native_prompt ms), b1)"
      and es: "\<forall>i \<in> set (map entry_id ?es). resolves b1 i" "extends b b1"
    using root_prompt_loop_spec [of ms False b] by auto
  show ?thesis
  proof (cases "tools \<noteq> [] \<and> \<not> has_native_prompt ms")
    case True
    obtain i b' where put: "put_entry ?native b1 = (Ok i, b')"
      using put_entry_never_fails [of ?native b1] by (cases "put_entry ?native b1") (auto simp: is_ok_iff)
    have "build_root_prompt_message_blob_ids ms tools b = (Ok (map entry_id ?es @ [i]), b')"
      using loop put True by (simp add: build_root_prompt_message_blob_ids_def op_bind_def op_lift_def)
    then show ?thesis
      using True es put_entry_Ok [OF put] extendsD extends_trans by (auto simp: root_entries_def)
  next
    case False
    then show ?thesis
      using loop es by (auto simp: build_root_prompt_message_blob_ids_def op_bind_def op_lift_def root_entries_def)
  qed
qed

subsection \<open>Properties\<close>

text \<open>An example: a protobuf runtime, a random source and a one-message request.\<close>

definition example_lib :: proto_lib where
  "example_lib = \<lparr>pb_marshal = (\<lambda>m. Ok (case m of PB_UserMessage t i \<Rightarrow> to_bytes t | _ \<Rightarrow> [])),
     pb_unmarshal_server = (\<lambda>b. Ok ServerOther), pb_unmarshal_value = (\<lambda>b. None), sp_new_value = Ok,
     pj_marshal_value = (\<lambda>v. Ok (json_print v)), pj_marshal = (\<lambda>n m. Ok ''{}''), pj_unmarshal = (\<lambda>n s. ([], None))\<rparr>"

definition example_entropy :: entropy where
  "example_entropy = (\<lambda>k. Some (\<lambda>i. 0))"

definition example_request :: chat_completions_request where
  "example_request = \<lparr>cr_model = ''m'', cr_stream = False,
     cr_messages = [zero_message\<lparr>cm_role := ''user'', cm_content := ''hi''\<rparr>], cr_tools = []\<rparr>"

definition example_run_request :: agent_run_request where
  "example_run_request = \<lparr>arr_conversation_state = empty_state,
     arr_action = UserMessageAction ''hi'' (hex_encode (replicate 16 0)), arr_model_id = ''m'', arr_mcp_tools = None,
     arr_conversation_id = Some ''c''\<rparr>"

lemma example_run:
  "build_agent_run_request example_lib native_tool_aliases example_request ''c'' None example_entropy new_blob_store
     = (Ok example_run_request, new_blob_store, \<lambda>k. example_entropy (Suc k))"
proof -
  have "map (\<lambda>i :: nat. 0 :: byte) [0..<16] = replicate 16 0" by (simp add: map_replicate_const)
  then show ?thesis
    by (simp add: build_agent_run_request_def example_request_def zero_message_def split_action_def new_message_id_def
        rand_read_def example_entropy_def op_bind_def op_lift_def op_wrap_def build_history_turn_blob_ids_def
        build_root_prompt_message_blob_ids_def build_mcp_tools_def example_run_request_def empty_state_def)
qed

text \<open>The history a request carries: all messages, less a final user message with content.\<close>

definition history_of :: "chat_message list \<Rightarrow> chat_message list" where
  "history_of ms = (if cm_role (last ms) = ''user'' \<and> cm_content (last ms) \<noteq> [] then butlast ms else ms)"

lemma split_action_Ok:
  assumes "split_action ms en = (Ok (a, h), en')"
  shows "h = history_of ms \<and>
    (if cm_role (last ms) = ''user'' \<and> cm_content (last ms) \<noteq> []
     then \<exists>i. a = UserMessageAction (cm_content (last ms)) i \<and> length i = 32 \<and> (\<forall>c \<in> set i. is_hex_char c)
     else a = ResumeAction)"
  using assms new_message_id_Ok
  by (fastforce simp: split_action_def history_of_def go_simps split: if_splits prod.splits)

lemma build_agent_run_request_Ok:
  assumes "build_agent_run_request pl visit req cid base en blobs = (Ok rr, blobs', en')"
  obtains a b1 turns roots tools where "cr_messages req \<noteq> []"
    and "split_action (cr_messages req) en = (Ok (a, history_of (cr_messages req)), en')"
    and "build_history_turn_blob_ids pl visit (history_of (cr_messages req)) blobs = (Ok turns, b1)"
    and "build_root_prompt_message_blob_ids (history_of (cr_messages req)) (cr_tools req) b1 = (Ok roots, blobs')"
    and "build_mcp_tools pl visit (cr_tools req) = Ok tools"
    and "rr = \<lparr>arr_conversation_state = (case base of Some s \<Rightarrow> s | None \<Rightarrow> empty_state)
                 \<lparr>cs_turns := turns, cs_root_prompt_messages_json := roots\<rparr>,
               arr_action = a, arr_model_id = cr_model req, arr_mcp_tools = tools,
               arr_conversation_id = (if cid = [] then None else Some cid)\<rparr>"
proof -
  obtain r en1 where split: "split_action (cr_messages req) en = (r, en1)" by (cases "split_action (cr_messages req) en")
  from assms split obtain a h where "r = Ok (a, h)" "cr_messages req \<noteq> []" "en1 = en'"
    by (auto simp: build_agent_run_request_def Let_def go_simps split: if_splits prod.splits)
  moreover have "h = history_of (cr_messages req)"
    using split_action_Ok split \<open>r = Ok (a, h)\<close> by blast
  ultimately show thesis
    using assms split that
    by (auto simp: build_agent_run_request_def Let_def go_simps split: prod.splits)
qed

text \<open>A run request carries a history: its turns and its root prompt are those of the history.\<close>

definition carries_history ::
  "proto_lib \<Rightarrow> alias_table \<Rightarrow> chat_message list \<Rightarrow> chat_tool_definition list \<Rightarrow> agent_run_request \<Rightarrow> bool" where
  "carries_history pl visit h tools rr =
     ((\<exists>ts. abs_turns pl visit h Map.empty = Ok ts
         \<and> cs_turns (arr_conversation_state rr) = map (\<lambda>t. blob_id pl (turn_msg pl t)) ts)
      \<and> cs_root_prompt_messages_json (arr_conversation_state rr) = map entry_id (root_entries h tools))"

lemma run_request_blobs:
  assumes "build_agent_run_request pl visit req cid base en blobs = (Ok rr, blobs', en')"
  shows "\<exists>ts. abs_turns pl visit (history_of (cr_messages req)) Map.empty = Ok ts
    \<and> cs_turns (arr_conversation_state rr) = map (\<lambda>t. blob_id pl (turn_msg pl t)) ts
    \<and> (\<forall>t \<in> set ts. turn_stored pl blobs' t)
    \<and> cs_root_prompt_messages_json (arr_conversation_state rr)
        = map entry_id (root_entries (history_of (cr_messages req)) (cr_tools req))
    \<and> (\<forall>i \<in> set (cs_root_prompt_messages_json (arr_conversation_state rr)). resolves blobs' i)
    \<and> cs_other (arr_conversation_state rr) = (case base of Some cp \<Rightarrow> cs_other cp | None \<Rightarrow> [])"
proof -
  obtain a b1 turns roots tools where
    hist: "build_history_turn_blob_ids pl visit (history_of (cr_messages req)) blobs = (Ok turns, b1)"
    and root: "build_root_prompt_message_blob_ids (history_of (cr_messages req)) (cr_tools req) b1 = (Ok roots, blobs')"
    and rr: "rr = \<lparr>arr_conversation_state = (case base of Some s \<Rightarrow> s | None \<Rightarrow> empty_state)
                 \<lparr>cs_turns := turns, cs_root_prompt_messages_json := roots\<rparr>,
               arr_action = a, arr_model_id = cr_model req, arr_mcp_tools = tools,
               arr_conversation_id = (if cid = [] then None else Some cid)\<rparr>"
    by (rule build_agent_run_request_Ok [OF assms])
  obtain ts where ts: "abs_turns pl visit (history_of (cr_messages req)) Map.empty = Ok ts"
      "turns = map (\<lambda>t. blob_id pl (turn_msg pl t)) ts" "\<forall>t \<in> set ts. turn_stored pl b1 t"
    using history_turns_refine [OF hist [unfolded build_history_turn_blob_ids_def]] by blast
  have "cs_other (arr_conversation_state rr) = (case base of Some cp \<Rightarrow> cs_other cp | None \<Rightarrow> [])"
    unfolding rr by (simp add: empty_state_def split: option.split)
  then show ?thesis
    using root_prompt_spec [of "history_of (cr_messages req)" "cr_tools req" b1] root ts rr
    by (auto intro: turn_stored_mono)
qed

text \<open>
  C1: the history of a run request is served from the conversation's store: every turn id and every root prompt id in the request, and
  every id inside a turn (the user message and the steps), is in the store under its own digest before the request is
  sent, and the turns and the prompt are those of the abstract history. What else the checkpoint's state refers to is
  passed on as it is, and no blob is lost: what the store had, under whatever id, it still has, unless a blob of the same digest
  took its place.
\<close>

theorem run_request_blobs_registered:
  assumes "build_agent_run_request pl visit req cid base en blobs = (Ok rr, blobs', en')"
  shows "(\<exists>ts. abs_turns pl visit (history_of (cr_messages req)) Map.empty = Ok ts
      \<and> cs_turns (arr_conversation_state rr) = map (\<lambda>t. blob_id pl (turn_msg pl t)) ts
      \<and> (\<forall>t \<in> set ts. turn_stored pl blobs' t))
    \<and> cs_root_prompt_messages_json (arr_conversation_state rr)
        = map entry_id (root_entries (history_of (cr_messages req)) (cr_tools req))
    \<and> (\<forall>i \<in> set (cs_root_prompt_messages_json (arr_conversation_state rr)). resolves blobs' i)
    \<and> cs_other (arr_conversation_state rr) = (case base of Some cp \<Rightarrow> cs_other cp | None \<Rightarrow> [])
    \<and> (\<forall>k d. blob_get blobs k = Some d \<longrightarrow>
         blob_get blobs' k = Some d \<or> (\<exists>d'. sha256 d' = k \<and> blob_get blobs' k = Some d'))"
proof -
  obtain ds where "blobs' = blobs.put_all (puts ds) blobs" using build_puts [OF assms] by blast
  then show ?thesis using run_request_blobs [OF assms] puts_keep [of blobs _ _ ds] by blast
qed

text \<open>A request with a history, on a checkpoint and a store with a blob the server has set.\<close>

definition example_history :: "chat_message list" where
  "example_history = [zero_message\<lparr>cm_role := ''user'', cm_content := ''q''\<rparr>,
     zero_message\<lparr>cm_role := ''assistant'', cm_content := ''a''\<rparr>]"

definition example_history_request :: chat_completions_request where
  "example_history_request = \<lparr>cr_model = ''m'', cr_stream = False,
     cr_messages = example_history @ [zero_message\<lparr>cm_role := ''user'', cm_content := ''hi''\<rparr>], cr_tools = []\<rparr>"

definition example_checkpoint :: conversation_state where
  "example_checkpoint = \<lparr>cs_turns = [[9]], cs_root_prompt_messages_json = [], cs_other = [(''summary'', VBytes [7])]\<rparr>"

definition example_store :: blob_store where
  "example_store = put_known_id [7] [1, 2] new_blob_store"

lemma example_history_turns: "abs_turns pl visit example_history Map.empty = Ok [(''q'', [AssistantMessage ''a''])]"
  by (simp add: example_history_def zero_message_def is_step_def opens_turn_def turn_text_def abs_step_def)

lemma example_history_entries: "root_entries example_history [] = [(''user'', ''q''), (''assistant'', ''a'')]"
  by (simp add: root_entries_def map_filter_simps root_prompt_entry_def example_history_def zero_message_def)

lemma example_history_run:
  obtains rr b where "build_agent_run_request example_lib native_tool_aliases example_history_request ''c'' (Some example_checkpoint)
      example_entropy example_store = (Ok rr, b, \<lambda>k. example_entropy (Suc k))"
proof -
  have "\<exists>ts b. build_history_turn_blob_ids example_lib native_tool_aliases example_history bb = (Ok ts, b)" for bb
    by (simp add: build_history_turn_blob_ids_def example_history_def zero_message_def is_step_def opens_turn_def turn_text_def
        op_bind_def op_lift_def op_wrap_def op_put_def put_marshaled_def example_lib_def assistant_steps_def
        turn_structure_blob_id_def split: prod.split)
  then obtain ts b1 where turns: "build_history_turn_blob_ids example_lib native_tool_aliases example_history example_store = (Ok ts, b1)"
    by blast
  obtain roots b2 where roots: "build_root_prompt_message_blob_ids example_history [] b1 = (Ok roots, b2)"
    using root_prompt_spec [of example_history "[]" b1] by blast
  have "\<exists>i. split_action (cr_messages example_history_request) example_entropy =
      (Ok (UserMessageAction ''hi'' i, example_history), \<lambda>k. example_entropy (Suc k))"
    by (simp add: split_action_def new_message_id_def rand_read_def example_entropy_def example_history_request_def zero_message_def)
  then show thesis
    using turns roots that
    by (auto simp: build_agent_run_request_def example_history_request_def op_bind_def op_lift_def op_wrap_def build_mcp_tools_def)
qed

lemma example_history_of: "history_of (cr_messages example_history_request) = example_history"
  by (simp add: history_of_def example_history_request_def zero_message_def)

lemma run_request_blobs_registered_witness:
  "\<exists>rr b en. build_agent_run_request example_lib native_tool_aliases example_history_request ''c'' (Some example_checkpoint)
       example_entropy example_store = (Ok rr, b, en)
     \<and> length (cs_turns (arr_conversation_state rr)) = 1 \<and> turn_stored example_lib b (''q'', [AssistantMessage ''a''])
     \<and> cs_root_prompt_messages_json (arr_conversation_state rr) = [entry_id (''user'', ''q''), entry_id (''assistant'', ''a'')]
     \<and> cs_other (arr_conversation_state rr) = [(''summary'', VBytes [7])]
     \<and> blob_get b [7] = Some [1, 2]"
proof (rule example_history_run)
  fix rr b
  assume run: "build_agent_run_request example_lib native_tool_aliases example_history_request ''c'' (Some example_checkpoint)
      example_entropy example_store = (Ok rr, b, \<lambda>k. example_entropy (Suc k))"
  note facts = run_request_blobs_registered [OF run, unfolded example_history_of example_history_turns]
  have "cr_tools example_history_request = []" by (simp add: example_history_request_def)
  then have roots: "cs_root_prompt_messages_json (arr_conversation_state rr) = [entry_id (''user'', ''q''), entry_id (''assistant'', ''a'')]"
    using facts by (simp add: example_history_entries)
  have "blob_get example_store [7] = Some [1, 2]" by (simp add: example_store_def)
  moreover have "sha256 d \<noteq> [7]" for d using length_sha256 [of d] by (metis length_Cons list.size(3) numeral_eq_one_iff One_nat_def semiring_norm(85) Suc_eq_numeral)
  ultimately have "blob_get b [7] = Some [1, 2]" using facts by blast
  then show ?thesis using run facts roots by (auto simp: example_checkpoint_def)
qed

text \<open>
  C23: the action of a run request, and what stays in its history. A final user message with content becomes the action, under a
  fresh id of 32 hexadecimal digits, and the request's turns and root prompt are those of the messages before it; after anything
  else, a tool result above all, the action is to resume and the turns and the root prompt are those of all messages.
\<close>

theorem run_request_action:
  assumes "build_agent_run_request pl visit req cid base en blobs = (Ok rr, blobs', en')"
  shows "if cm_role (last (cr_messages req)) = ''user'' \<and> cm_content (last (cr_messages req)) \<noteq> []
    then (\<exists>i. arr_action rr = UserMessageAction (cm_content (last (cr_messages req))) i
            \<and> length i = 32 \<and> (\<forall>c \<in> set i. is_hex_char c))
         \<and> carries_history pl visit (butlast (cr_messages req)) (cr_tools req) rr
    else arr_action rr = ResumeAction \<and> carries_history pl visit (cr_messages req) (cr_tools req) rr"
proof -
  obtain a b1 turns roots tools where
    split: "split_action (cr_messages req) en = (Ok (a, history_of (cr_messages req)), en')" and "arr_action rr = a"
    by (rule build_agent_run_request_Ok [OF assms]) auto
  moreover have "carries_history pl visit (history_of (cr_messages req)) (cr_tools req) rr"
    using run_request_blobs [OF assms] by (auto simp: carries_history_def)
  ultimately show ?thesis using split_action_Ok [OF split] by (auto simp: history_of_def)
qed

lemma run_request_action_witness:
  "\<exists>rr b en i. build_agent_run_request example_lib native_tool_aliases example_history_request ''c'' (Some example_checkpoint)
       example_entropy example_store = (Ok rr, b, en)
     \<and> arr_action rr = UserMessageAction ''hi'' i \<and> length i = 32
     \<and> cs_root_prompt_messages_json (arr_conversation_state rr) = [entry_id (''user'', ''q''), entry_id (''assistant'', ''a'')]"
proof (rule example_history_run)
  fix rr b
  assume run: "build_agent_run_request example_lib native_tool_aliases example_history_request ''c'' (Some example_checkpoint)
      example_entropy example_store = (Ok rr, b, \<lambda>k. example_entropy (Suc k))"
  have "last (cr_messages example_history_request) = zero_message\<lparr>cm_role := ''user'', cm_content := ''hi''\<rparr>"
    "butlast (cr_messages example_history_request) = example_history" "cr_tools example_history_request = []"
    by (simp_all add: example_history_request_def)
  then show ?thesis using run_request_action [OF run] run
    by (auto simp: carries_history_def example_history_entries zero_message_def)
qed

subsection \<open>Which message opens which turn\<close>

text \<open>The messages that open a turn, each with the assistant and tool messages that follow it directly.\<close>

definition opens :: "chat_message \<Rightarrow> bool" where
  "opens m = (cm_role m = ''system'' \<or> cm_role m = ''user'' \<and> cm_content m \<noteq> [])"

definition shown_text :: "chat_message \<Rightarrow> string" where
  "shown_text m = (if cm_role m = ''system'' then ''[system] '' @ cm_content m else cm_content m)"

fun segments :: "chat_message list \<Rightarrow> (chat_message \<times> chat_message list) list" where
  "segments [] = []"
| "segments (m # ms) =
     (if opens m then [(m, takeWhile (\<lambda>m. cm_role m \<noteq> ''user'' \<and> cm_role m \<noteq> ''system'') ms)] else []) @ segments ms"

lemma is_step_iff: "is_step = (\<lambda>m. cm_role m \<noteq> ''user'' \<and> cm_role m \<noteq> ''system'')"
  by (auto simp: is_step_def opens_turn_def)

lemma opens_iff: "opens m \<longleftrightarrow> \<not> (is_step m \<or> turn_text m = [])"
  by (auto simp: opens_def is_step_iff turn_text_def)

lemma segments_dropWhile: "segments (dropWhile is_step ms) = segments ms"
  by (induction ms) (auto simp: opens_iff)

lemma map_fst_segments: "map fst (segments ms) = filter opens ms"
  by (induction ms) auto

text \<open>The calls that are pending before each turn, and after the last.\<close>

definition turns_of ::
  "proto_lib \<Rightarrow> alias_table \<Rightarrow> (chat_message \<times> chat_message list) list \<Rightarrow> pending_calls list \<Rightarrow> (string \<times> conversation_step list) list \<Rightarrow> bool" where
  "turns_of pl visit segs ps ts = (length ts = length segs \<and> length ps = Suc (length segs)
     \<and> (\<forall>k < length segs. fst (ts ! k) = shown_text (fst (segs ! k))
          \<and> abs_steps pl visit (snd (segs ! k)) (ps ! k) = Ok (snd (ts ! k), ps ! Suc k)))"

lemma turns_of_Cons:
  "abs_steps pl visit (snd sg) p = Ok (ss, hd ps) \<Longrightarrow> turns_of pl visit segs ps ts \<Longrightarrow>
   turns_of pl visit (sg # segs) (p # ps) ((shown_text (fst sg), ss) # ts)"
  unfolding turns_of_def by (cases ps) (auto simp: nth_Cons split: nat.split)

lemma abs_turns_segments:
  "abs_turns pl visit ms p = Ok ts \<Longrightarrow> \<exists>ps. hd ps = p \<and> turns_of pl visit (segments ms) ps ts"
proof (induction pl visit ms p arbitrary: ts rule: abs_turns.induct)
  case (1 pl visit p)
  then show ?case by (intro exI [of _ "[p]"]) (simp add: turns_of_def)
next
  case (2 pl visit m ms p)
  show ?case
  proof (cases "opens m")
    case False
    then show ?thesis using 2 by (simp add: opens_iff)
  next
    case True
    then obtain ss p' ts' where steps: "abs_steps pl visit (takeWhile is_step ms) p = Ok (ss, p')"
      and rec: "abs_turns pl visit (dropWhile is_step ms) p' = Ok ts'" and ts: "ts = (turn_text m, ss) # ts'"
      using "2.prems" by (auto simp: go_simps opens_iff)
    obtain ps where ps: "hd ps = p'" "turns_of pl visit (segments ms) ps ts'"
      using "2.IH"(2) [OF _ rec] True by (auto simp: opens_iff segments_dropWhile)
    have "turn_text m = shown_text m" by (simp add: turn_text_def shown_text_def)
    moreover have "segments (m # ms) = (m, takeWhile is_step ms) # segments ms" using True by (simp add: is_step_iff)
    ultimately show ?thesis
      using turns_of_Cons [OF _ ps(2), of "(m, takeWhile is_step ms)" p ss] steps ps(1) ts by (intro exI [of _ "p # ps"]) simp
  qed
qed

text \<open>
  C36: one turn per system message and per user message with content: the turns of a history are, in order, those messages, a system
  message (even an empty one) under a prefix. The steps of a turn are exactly those of the assistant and tool messages that
  follow its message directly; what tool calls are still pending passes from each turn to the next, none at first.
\<close>

theorem turns_are_user_messages:
  assumes "build_history_turn_blob_ids pl visit ms b = (Ok ids, b')"
  shows "\<exists>ts ps. ids = map (\<lambda>t. blob_id pl (turn_msg pl t)) ts \<and> hd ps = Map.empty
    \<and> map fst ts = map shown_text (filter opens ms) \<and> map fst (segments ms) = filter opens ms
    \<and> turns_of pl visit (segments ms) ps ts"
proof -
  obtain ts where ts: "abs_turns pl visit ms Map.empty = Ok ts" "ids = map (\<lambda>t. blob_id pl (turn_msg pl t)) ts"
    using history_turns_refine [OF assms [unfolded build_history_turn_blob_ids_def]] by blast
  obtain ps where ps: "hd ps = Map.empty" "turns_of pl visit (segments ms) ps ts" using abs_turns_segments [OF ts(1)] by blast
  have "map fst ts = map shown_text (map fst (segments ms))"
    using ps(2) by (auto simp: turns_of_def intro!: nth_equalityI)
  then show ?thesis using ts(2) ps map_fst_segments by metis
qed

text \<open>A user message without content: the answer after it is in no turn. An empty system message opens one.\<close>

definition example_lost :: "chat_message list" where
  "example_lost = example_history @ [zero_message\<lparr>cm_role := ''user''\<rparr>,
     zero_message\<lparr>cm_role := ''assistant'', cm_content := ''lost''\<rparr>, zero_message\<lparr>cm_role := ''system''\<rparr>]"

lemma turns_are_user_messages_witness:
  "\<exists>ids b'. build_history_turn_blob_ids example_lib native_tool_aliases example_lost new_blob_store = (Ok ids, b')
     \<and> ids = map (\<lambda>t. blob_id example_lib (turn_msg example_lib t)) [(''q'', [AssistantMessage ''a'']), (''[system] '', [])]"
proof -
  have segs: "segments example_lost = [(zero_message\<lparr>cm_role := ''user'', cm_content := ''q''\<rparr>,
      [zero_message\<lparr>cm_role := ''assistant'', cm_content := ''a''\<rparr>]), (zero_message\<lparr>cm_role := ''system''\<rparr>, [])]"
    by (simp add: example_lost_def example_history_def zero_message_def opens_def)
  obtain ids b' where run: "build_history_turn_blob_ids example_lib native_tool_aliases example_lost new_blob_store = (Ok ids, b')"
    by (auto simp: build_history_turn_blob_ids_def example_lost_def example_history_def zero_message_def is_step_def opens_turn_def
        turn_text_def op_bind_def op_lift_def op_wrap_def op_put_def put_marshaled_def example_lib_def assistant_steps_def
        turn_structure_blob_id_def blob_put_def Let_def)
  obtain ts ps where ids: "ids = map (\<lambda>t. blob_id example_lib (turn_msg example_lib t)) ts"
    and ts: "turns_of example_lib native_tool_aliases (segments example_lost) ps ts"
    using turns_are_user_messages [OF run] by blast
  have "ts = [(''q'', [AssistantMessage ''a'']), (''[system] '', [])]"
    using ts unfolding segs
    by (auto simp: turns_of_def shown_text_def zero_message_def abs_step_def All_less_Suc length_Suc_conv numeral_2_eq_2)
  then show ?thesis using run ids by blast
qed

text \<open>
  the tools declared to Cursor are, in order and under their own names, the client's named tools
  that have no native equivalent, each with the plugin's provider identifier; when there are none the
  field stays unset.
\<close>

theorem mcp_tools_exact:
  assumes "build_mcp_tools pl visit tools = Ok r"
  shows "map mtd_name (case r of None \<Rightarrow> [] | Some defs \<Rightarrow> defs)
      = filter (\<lambda>n. n \<noteq> [] \<and> resolve_cursor_tool_field visit n = None) (map (\<lambda>t. tdf_name (td_function t)) tools)
    \<and> r \<noteq> Some []
    \<and> (\<forall>d \<in> set (case r of None \<Rightarrow> [] | Some defs \<Rightarrow> defs). mtd_tool_name d = mtd_name d
          \<and> mtd_provider_identifier d = mcp_tools_provider_identifier)"
proof -
  have one: "build_mcp_tool pl visit t = Ok ds \<Longrightarrow>
      map mtd_name ds = filter (\<lambda>n. n \<noteq> [] \<and> resolve_cursor_tool_field visit n = None) [tdf_name (td_function t)]
      \<and> (\<forall>d \<in> set ds. mtd_tool_name d = mtd_name d \<and> mtd_provider_identifier d = mcp_tools_provider_identifier)" for t ds
    by (auto simp: build_mcp_tool_def Let_def go_simps split: if_splits)
  have all: "go_mapM (build_mcp_tool pl visit) ts = Ok dss \<Longrightarrow>
      map mtd_name (concat dss)
        = filter (\<lambda>n. n \<noteq> [] \<and> resolve_cursor_tool_field visit n = None) (map (\<lambda>t. tdf_name (td_function t)) ts)
      \<and> (\<forall>d \<in> set (concat dss). mtd_tool_name d = mtd_name d \<and> mtd_provider_identifier d = mcp_tools_provider_identifier)" for ts dss
  proof (induction ts arbitrary: dss)
    case (Cons t ts)
    then obtain ds dss' where "build_mcp_tool pl visit t = Ok ds" "go_mapM (build_mcp_tool pl visit) ts = Ok dss'" "dss = ds # dss'"
      by (auto simp: go_simps)
    with Cons.IH [of dss'] one [of t ds] show ?case by (auto split: if_splits)
  qed simp
  show ?thesis
  proof (cases "tools = []")
    case True
    then show ?thesis using assms by (simp add: build_mcp_tools_def)
  next
    case False
    then obtain dss where "go_mapM (build_mcp_tool pl visit) tools = Ok dss"
        "r = (if concat dss = [] then None else Some (concat dss))"
      using assms by (cases "go_mapM (build_mcp_tool pl visit) tools")
        (auto simp: build_mcp_tools_def simp del: concat_eq_Nil_conv split: if_splits)
    with all [of tools dss] show ?thesis
      by (cases "concat dss = []") (simp_all del: concat_eq_Nil_conv set_concat map_concat)
  qed
qed

definition example_tools :: "chat_tool_definition list" where
  "example_tools = map (\<lambda>n. zero_tool_definition\<lparr>td_function := zero_tool_definition_func\<lparr>tdf_name := n\<rparr>\<rparr>)
     [''weather'', ''bash'', []]"

definition example_mcp_tool :: mcp_tool_definition where
  "example_mcp_tool = \<lparr>mtd_name = ''weather'', mtd_description = [],
     mtd_provider_identifier = mcp_tools_provider_identifier, mtd_tool_name = ''weather'', mtd_input_schema = []\<rparr>"

lemma mcp_tools_exact_witness:
  "build_mcp_tools example_lib native_tool_aliases example_tools = Ok (Some [example_mcp_tool])
   \<and> map mtd_name [example_mcp_tool]
     = filter (\<lambda>n. n \<noteq> [] \<and> resolve_cursor_tool_field native_tool_aliases n = None) [''weather'', ''bash'', []]"
proof -
  have names: "normalize_tool_name ''weather'' = ''weather''" "normalize_tool_name ''bash'' = ''bash''" by code_simp+
  have "find_group ''weather'' live_groups = None" "find_group ''bash'' live_groups = Some ''shell_tool_call''" by code_simp+
  then have "resolve_cursor_tool_field native_tool_aliases ''weather'' = None"
    "resolve_cursor_tool_field native_tool_aliases ''bash'' = Some ''shell_tool_call''"
    by (simp_all add: resolve_by_groups [OF names(1)] resolve_by_groups [OF names(2)])
  then have run: "build_mcp_tools example_lib native_tool_aliases example_tools = Ok (Some [example_mcp_tool])"
    by (simp add: build_mcp_tools_def build_mcp_tool_def zero_tool_definition_def zero_tool_definition_func_def
        tool_parameters_to_struct_value_def example_lib_def Let_def example_tools_def example_mcp_tool_def)
  from mcp_tools_exact [OF run] run show ?thesis
    by (simp add: zero_tool_definition_def zero_tool_definition_func_def example_tools_def)
qed

end
