(* ===== verification/Framing.thy ===== *)
theory Framing
  imports Messages
begin

section \<open>Connect framing and the request-body writer\<close>

text \<open>
  The wire format of \<open>internal/executor/stream.go\<close>: \<open>frameConnectMessage\<close> and \<open>extractFrame\<close> with their
  32-bit length arithmetic, the end-of-stream payload, and \<open>kvWriter\<close>, through which the exchange's
  goroutines write client messages.

  A locale states what the framing promises a stream of frames; it is interpreted on the two functions.
\<close>

subsection \<open>Frames\<close>

record connect_frame =
  cf_flags :: byte
  cf_payload :: bytes

definition connect_end_stream_flag :: byte where
  "connect_end_stream_flag = 0x02"

text \<open>\<open>binary.BigEndian.PutUint32\<close> and \<open>Uint32\<close>.\<close>

definition put_uint32 :: "32 word \<Rightarrow> bytes" where
  "put_uint32 w = [ucast (drop_bit 24 w), ucast (drop_bit 16 w), ucast (drop_bit 8 w), ucast w]"

fun get_uint32 :: "bytes \<Rightarrow> 32 word" where
  "get_uint32 (a # b # c # d # _) =
     push_bit 24 (ucast a) OR push_bit 16 (ucast b) OR push_bit 8 (ucast c) OR ucast d"
| "get_uint32 _ = 0"

definition frame_connect_message :: "bytes \<Rightarrow> byte \<Rightarrow> bytes" where
  "frame_connect_message data flags = [flags] @ put_uint32 (of_nat (length data)) @ data"

text \<open>
  \<open>Ok None\<close> when the buffer does not hold a whole frame, and otherwise the frame and the rest of the
  buffer. The bound \<open>5 + msgLen\<close> is a \<open>uint32\<close>: it wraps, and then slicing panics.
\<close>

definition extract_frame :: "bytes \<Rightarrow> (connect_frame \<times> bytes) option go_result" where
  "extract_frame b =
     (if length b < 5 then Ok None
      else let msgLen = get_uint32 (drop 1 b); stop = 5 + msgLen in
        if (of_nat (length b) :: 32 word) < stop then Ok None
        else if stop < 5 then Panic ''runtime error: slice bounds out of range''
        else let src = drop 5 (take (unat stop) b); n = unat msgLen in
          Ok (Some (\<lparr>cf_flags = b ! 0, cf_payload = take n src @ replicate (n - length src) 0\<rparr>,
                    drop (unat stop) b)))"

subsection \<open>parseConnectEndStream\<close>

definition dec_connect_error :: "(string \<times> string) option \<Rightarrow> json \<Rightarrow> (string \<times> string) option go_result" where
  "dec_connect_error cur v =
     (if v = JNull then Ok None
      else let (c0, m0) = (case cur of Some p \<Rightarrow> p | None \<Rightarrow> ([], [])) in
        go_bind (dec_struct (\<lambda>ms.
          go_bind (dec_field ''code'' dec_string c0 ms) (\<lambda>c.
          go_bind (dec_field ''message'' dec_string m0 ms) (\<lambda>m. Ok (c, m)))) (c0, m0) v)
        (\<lambda>p. Ok (Some p)))"

definition parse_connect_end_stream :: "bytes \<Rightarrow> unit go_result" where
  "parse_connect_end_stream data =
     go_bind (wrap_err ''cursor: failed to parse Connect end-of-stream payload''
       (go_bind (json_unmarshal (of_bytes data))
         (dec_struct (\<lambda>ms. dec_field ''error'' dec_connect_error None ms) None)))
     (\<lambda>payload. case payload of None \<Rightarrow> Ok ()
       | Some (c, m) \<Rightarrow> Err (''cursor: connect error '' @ (if c = [] then ''unknown'' else c) @ '': ''
           @ (if m = [] then ''unknown error'' else m)))"

subsection \<open>kvWriter\<close>

text \<open>
  \<open>kw_pipe\<close> is what the writes have delivered to the request body and \<open>kw_fate\<close> the outcome of each
  later write to the pipe: \<open>None\<close> when it succeeds, otherwise the number of bytes that still went through and the error.
\<close>

record kv_writer =
  kw_closed :: bool
  kw_last_write_err :: "string option"
  kw_pipe :: bytes
  kw_fate :: "nat \<Rightarrow> (nat \<times> string) option"

definition pipe_write :: "bytes \<Rightarrow> kv_writer \<Rightarrow> string option \<times> kv_writer" where
  "pipe_write data k =
     (let k' = k\<lparr>kw_fate := \<lambda>n. kw_fate k (Suc n)\<rparr> in
      case kw_fate k 0 of
        None \<Rightarrow> (None, k'\<lparr>kw_pipe := kw_pipe k @ data\<rparr>)
      | Some (n, e) \<Rightarrow> (Some e, k'\<lparr>kw_pipe := kw_pipe k @ take n data\<rparr>))"

definition kv_write :: "proto_lib \<Rightarrow> client_message \<Rightarrow> kv_writer \<Rightarrow> unit go_result \<times> kv_writer" where
  "kv_write pl msg k =
     (case wrap_err ''cursor: failed to marshal client message'' (pb_marshal pl (PB_ClientMessage msg)) of
        Err e \<Rightarrow> (Err e, k)
      | Panic p \<Rightarrow> (Panic p, k)
      | Ok raw \<Rightarrow>
          if kw_closed k then (Err ''cursor: stream writer is closed'', k)
          else case pipe_write (frame_connect_message raw 0) k of
            (None, k') \<Rightarrow> (Ok (), k')
          | (Some e, k') \<Rightarrow> (Err e, k'\<lparr>kw_last_write_err := Some e\<rparr>))"

definition kv_close :: "kv_writer \<Rightarrow> kv_writer" where
  "kv_close k = k\<lparr>kw_closed := True\<rparr>"

definition record_write_err :: "string \<Rightarrow> kv_writer \<Rightarrow> kv_writer" where
  "record_write_err e k = k\<lparr>kw_last_write_err := Some e\<rparr>"

definition send_client_heartbeat :: "proto_lib \<Rightarrow> kv_writer \<Rightarrow> unit go_result \<times> kv_writer" where
  "send_client_heartbeat pl k = kv_write pl ClientHeartbeat k"

subsection \<open>The arithmetic of the header\<close>

lemma get_put_uint32 [decode_simps]: "get_uint32 (put_uint32 w @ r) = w"
proof -
  have "bit (push_bit 24 (ucast (ucast (drop_bit 24 w) :: byte)) OR push_bit 16 (ucast (ucast (drop_bit 16 w) :: byte))
      OR push_bit 8 (ucast (ucast (drop_bit 8 w) :: byte)) OR ucast (ucast w :: byte) :: 32 word) n = bit w n"
    if "n < 32" for n
  proof -
    consider "n < 8" | "8 \<le> n" "n < 16" | "16 \<le> n" "n < 24" | "24 \<le> n" by linarith
    then show ?thesis using that by cases (auto simp: bit_simps)
  qed
  then show ?thesis by (simp add: put_uint32_def) (rule bit_word_eqI, simp)
qed

lemma length_put_uint32 [simp]: "length (put_uint32 w) = 4"
  by (simp add: put_uint32_def)

lemma length_frame [simp]: "length (frame_connect_message d f) = 5 + length d"
  by (simp add: frame_connect_message_def)

lemma get_uint32_append: "4 \<le> length b \<Longrightarrow> get_uint32 (b @ x) = get_uint32 b"
  by (cases b rule: get_uint32.cases) auto

lemma word32_bound: "unat (w :: 32 word) < 4294967296"
  using unsigned_less [of w] by simp

lemma unat_add5: "unat (5 + w :: 32 word) = (if unat w < 4294967291 then 5 + unat w else unat w - 4294967291)"
proof -
  have "(5 + unat w) mod 4294967296 = (if unat w < 4294967291 then 5 + unat w else unat w - 4294967291)"
    using word32_bound [of w] by (auto simp: mod_if)
  then show ?thesis by (simp add: unat_word_ariths)
qed

lemma add5_wrap: "5 + w < 5 \<longleftrightarrow> 4294967291 \<le> unat (w :: 32 word)"
  using word32_bound [of w] by (auto simp: word_less_nat_alt unat_add5)

text \<open>\<open>extractFrame\<close> on a buffer below 4 GiB, without words.\<close>

definition frame_length :: "bytes \<Rightarrow> nat" where
  "frame_length b = unat (get_uint32 (drop 1 b))"

lemma extract_frame_eq:
  assumes "length b < 4294967296"
  shows "extract_frame b =
    (if length b < 5 then Ok None
     else if 4294967291 \<le> frame_length b then
       (if length b < frame_length b - 4294967291 then Ok None
        else Panic ''runtime error: slice bounds out of range'')
     else if length b < 5 + frame_length b then Ok None
     else Ok (Some (\<lparr>cf_flags = b ! 0, cf_payload = take (frame_length b) (drop 5 b)\<rparr>, drop (5 + frame_length b) b)))"
proof -
  have "unat (of_nat (length b) :: 32 word) = length b" using assms by (simp add: unat_of_nat)
  then have less: "(of_nat (length b) :: 32 word) < w \<longleftrightarrow> length b < unat w" for w
    by (simp add: word_less_nat_alt)
  show ?thesis
    using word32_bound [of "get_uint32 (drop 1 b)"]
    by (auto simp: extract_frame_def Let_def less add5_wrap unat_add5 frame_length_def drop_take)
qed

lemma frame_length_append: "5 \<le> length b \<Longrightarrow> frame_length (b @ x) = frame_length b"
  by (simp add: frame_length_def get_uint32_append)

lemma frame_length_frame [simp]:
  "length d < 4294967296 \<Longrightarrow> frame_length (frame_connect_message d f @ r) = length d"
  by (simp add: frame_length_def frame_connect_message_def get_put_uint32 unat_of_nat)

subsection \<open>The contract of the framing\<close>

text \<open>
  What a stream of frames relies on: a frame decodes to itself and leaves the rest; more bytes at the
  end change neither a decoded frame nor a failure; a decoded frame is consumed. \<open>fits\<close> bounds the
  length of a buffer.
\<close>

locale framing =
  fixes enc :: "'f \<Rightarrow> bytes" and dec :: "bytes \<Rightarrow> ('f \<times> bytes) option go_result" and fits :: "nat \<Rightarrow> bool"
  assumes dec_enc: "fits (length (enc f @ r)) \<Longrightarrow> dec (enc f @ r) = Ok (Some (f, r))"
    and dec_more: "dec b = Ok (Some (f, r)) \<Longrightarrow> fits (length (b @ x)) \<Longrightarrow> dec (b @ x) = Ok (Some (f, r @ x))"
    and dec_stuck: "\<not> is_ok (dec b) \<Longrightarrow> fits (length (b @ x)) \<Longrightarrow> \<not> is_ok (dec (b @ x))"
    and dec_consumes: "dec b = Ok (Some (f, r)) \<Longrightarrow> fits (length b) \<Longrightarrow> length r < length b"
    and dec_nil: "dec [] = Ok None"
    and fits_mono: "fits n \<Longrightarrow> m \<le> n \<Longrightarrow> fits m"
begin

fun unframe :: "nat \<Rightarrow> bytes \<Rightarrow> 'f list \<times> bytes" where
  "unframe 0 b = ([], b)"
| "unframe (Suc n) b =
     (case dec b of Ok (Some (f, r)) \<Rightarrow> (let (fs, r') = unframe n r in (f # fs, r')) | _ \<Rightarrow> ([], b))"

lemma dec_prefix:
  assumes "enc f = p @ x" and "x \<noteq> []" and "fits (length (enc f))" shows "dec p = Ok None"
proof -
  have whole: "dec (p @ x) = Ok (Some (f, []))" using dec_enc [of f "[]"] assms by simp
  show ?thesis
  proof (cases "dec p")
    case (Ok v)
    then show ?thesis
    proof (cases v)
      case (Some gr)
      obtain g r where gr: "gr = (g, r)" by (cases gr)
      have "dec (p @ x) = Ok (Some (g, r @ x))" using dec_more [of p g r x] Ok Some gr assms by simp
      with whole assms(2) show ?thesis by simp
    qed simp
  next
    case (Err e)
    then show ?thesis using dec_stuck [of p x] whole assms by simp
  next
    case (Panic e)
    then show ?thesis using dec_stuck [of p x] whole assms by simp
  qed
qed

lemma unframe_concat:
  assumes "fits (length (concat (map enc fs) @ p))" and "length fs < n" and "dec p = Ok None"
  shows "unframe n (concat (map enc fs) @ p) = (fs, p)"
  using assms
proof (induction fs arbitrary: n)
  case Nil
  then show ?case by (cases n) auto
next
  case (Cons f fs)
  obtain m where n: "n = Suc m" using Cons.prems by (cases n) auto
  have "fits (length (concat (map enc fs) @ p))"
    using Cons.prems(1) by (rule fits_mono) simp
  then have "unframe m (concat (map enc fs) @ p) = (fs, p)"
    using Cons.IH Cons.prems n by simp
  then show ?case using dec_enc [of f "concat (map enc fs) @ p"] Cons.prems n by simp
qed

end

definition frame_bytes :: "connect_frame \<Rightarrow> bytes" where
  "frame_bytes f = frame_connect_message (cf_payload f) (cf_flags f)"

lemma extract_frame_enc:
  assumes "length (frame_bytes f @ r) < 4294967296" shows "extract_frame (frame_bytes f @ r) = Ok (Some (f, r))"
  using assms by (cases f) (simp add: frame_bytes_def extract_frame_eq, simp add: frame_connect_message_def)

lemma extract_frame_more:
  assumes "length (b @ x) < 4294967296"
  shows "extract_frame b = Ok (Some (f, r)) \<Longrightarrow> extract_frame (b @ x) = Ok (Some (f, r @ x))"
    and "\<not> is_ok (extract_frame b) \<Longrightarrow> \<not> is_ok (extract_frame (b @ x))"
  using assms by (auto simp: extract_frame_eq frame_length_append nth_append split: if_splits)

lemma extract_frame_consumes:
  "length b < 4294967296 \<Longrightarrow> extract_frame b = Ok (Some (f, r)) \<Longrightarrow> length r < length b"
  by (auto simp: extract_frame_eq split: if_splits)

interpretation connect: framing frame_bytes extract_frame "\<lambda>n. n < 4294967296"
proof
  show "extract_frame [] = Ok None" by (simp add: extract_frame_def)
qed (rule extract_frame_enc extract_frame_more extract_frame_consumes le_less_trans; assumption)+

text \<open>
  C25: \<open>extractFrame\<close> undoes \<open>frameConnectMessage\<close> on a stream: after any sequence of framed
  messages and an incomplete frame, reading frames until none is complete yields exactly those messages
  with their flags and leaves the incomplete bytes in the buffer (buffers below 4 GiB).
\<close>

theorem frames_round_trip:
  assumes "length (concat (map (\<lambda>(d, f). frame_connect_message d f) msgs) @ take n (frame_connect_message d f)) < 2 ^ 32"
    and "length (frame_connect_message d f) < 2 ^ 32" and "n < length (frame_connect_message d f)"
  shows "connect.unframe (Suc (length msgs))
      (concat (map (\<lambda>(d, f). frame_connect_message d f) msgs) @ take n (frame_connect_message d f))
    = (map (\<lambda>(d, f). \<lparr>cf_flags = f, cf_payload = d\<rparr>) msgs, take n (frame_connect_message d f))"
proof -
  let ?frames = "map (\<lambda>(d, f). \<lparr>cf_flags = f, cf_payload = d\<rparr>) msgs"
  have enc: "map (\<lambda>(d, f). frame_connect_message d f) msgs = map frame_bytes ?frames"
    by (simp add: frame_bytes_def case_prod_unfold)
  have "extract_frame (take n (frame_connect_message d f)) = Ok None"
    by (rule connect.dec_prefix [of "\<lparr>cf_flags = f, cf_payload = d\<rparr>" _ "drop n (frame_connect_message d f)"])
       (use assms(2,3) in \<open>simp_all add: frame_bytes_def\<close>)
  then show ?thesis
    unfolding enc using assms(1) unfolding enc by (intro connect.unframe_concat) simp_all
qed

lemma frames_round_trip_witness:
  "connect.unframe (Suc (Suc 0)) (frame_connect_message [1, 2] 0 @ take 2 (frame_connect_message [5] 7))
    = ([\<lparr>cf_flags = 0, cf_payload = [1, 2]\<rparr>], take 2 (frame_connect_message [5] 7))"
  using frames_round_trip [of "[([1, 2], 0)]" 2 "[5]" 7] by (simp del: connect.unframe.simps)

text \<open>
  C38: \<open>extractFrame\<close> fails in one way only: on a buffer below 4 GiB it panics exactly when the header
  announces \<open>2^32 - 5\<close> bytes or more, because \<open>5 + msgLen\<close> wraps around and passes the length check.
\<close>

theorem extract_frame_panics_iff:
  assumes "length b < 2 ^ 32"
  shows "is_panic (extract_frame b) \<longleftrightarrow> 5 \<le> length b \<and> 2 ^ 32 - 5 \<le> unat (get_uint32 (drop 1 b))"
  using assms word32_bound [of "get_uint32 (drop 1 b)"]
  by (simp add: extract_frame_eq frame_length_def) linarith

lemma extract_frame_panics_iff_witness: "is_panic (extract_frame [0, 255, 255, 255, 255])"
proof -
  have "get_uint32 [255, 255, 255, 255] = 0xFFFFFFFF" by code_simp
  then show ?thesis using extract_frame_panics_iff [of "[0, 255, 255, 255, 255]"] by simp
qed

end
