(* ===== verification/Exec_Message.thy ===== *)
theory Exec_Message
  imports Framing Result_Fields
begin

section \<open>Answering execution requests\<close>

text \<open>
  \<open>internal/executor/execmessage.go\<close>: the server's requests to execute a tool are captured for the
  client and declined on the wire. The result message of a decline is built by reflection over
  \<open>ExecClientMessage\<close>'s schema.
\<close>

subsection \<open>The result of an exchange\<close>

text \<open>\<open>capturedToolRequest\<close> and \<open>runStreamResult\<close> of \<open>stream.go\<close>.\<close>

record captured_tool_request =
  ctr_field :: string
  ctr_name :: string
  ctr_args :: "(string \<times> bytes) list"
  ctr_args_json :: string

record run_stream_result =
  rsr_updates :: "interaction_update list"
  rsr_tool_requests :: "captured_tool_request list"
  rsr_checkpoint :: "conversation_state option"

definition empty_result :: run_stream_result where
  "empty_result = \<lparr>rsr_updates = [], rsr_tool_requests = [], rsr_checkpoint = None\<rparr>"

subsection \<open>Names\<close>

definition exec_args_to_result_field_name :: "string \<Rightarrow> string option" where
  "exec_args_to_result_field_name argsFieldName =
     (if argsFieldName = ''shell_stream_args'' then Some ''shell_stream''
      else if length argsFieldName \<le> length ''_args''
              \<or> drop (length argsFieldName - length ''_args'') argsFieldName \<noteq> ''_args'' then None
      else Some (take (length argsFieldName - length ''_args'') argsFieldName @ ''_result''))"

definition exec_result_field :: "string \<Rightarrow> pfield option" where
  "exec_result_field name = fields_by_name (oneof_fields md_ExecClientMessage ''message'') name"

subsection \<open>Building the decline\<close>

definition decline_text :: string where
  "decline_text = ''cursor plugin does not execute tools locally; this request was declined''"

definition decline_outcome_field_priority :: "string list" where
  "decline_outcome_field_priority = [''rejected'', ''error'', ''failure'']"

fun decline_with :: "mdesc \<Rightarrow> pfield list \<Rightarrow> string list \<Rightarrow> pmsg \<Rightarrow> pmsg go_result" where
  "decline_with md fds [] m =
     Err (''cursor: result message agent.v1.'' @ md_name md
          @ '' has an outcome oneof but none of [rejected error failure] are available to signal a decline'')"
| "decline_with md fds (name # names) m =
     (case fields_by_name fds name of
        None \<Rightarrow> decline_with md fds names m
      | Some f \<Rightarrow>
          if \<not> is_message_field f then decline_with md fds names m
          else go_bind (field_desc f) (\<lambda>fd.
            case set_first_string_field fd decline_text [] of
              Panic p \<Rightarrow> Panic p
            | Err e \<Rightarrow> pm_set md f (VMsg []) m
            | Ok inner \<Rightarrow> pm_set md f (VMsg inner) m))"

definition populate_decline_outcome :: "mdesc \<Rightarrow> pmsg \<Rightarrow> pmsg go_result" where
  "populate_decline_outcome md m =
     (case first_real_oneof md of
        None \<Rightarrow> Err (''cursor: result message agent.v1.'' @ md_name md
                  @ '' has no outcome oneof to populate a decline signal on'')
      | Some oo \<Rightarrow> decline_with md (oneof_fields md oo) decline_outcome_field_priority m)"

definition build_rejected_result :: "string \<Rightarrow> pmsg option go_result" where
  "build_rejected_result resultFieldName =
     (case exec_result_field resultFieldName of
        None \<Rightarrow> Ok None
      | Some f \<Rightarrow>
          if \<not> is_message_field f then Ok None
          else go_bind (field_desc f) (\<lambda>rd. go_bind (populate_decline_outcome rd []) (\<lambda>m. Ok (Some m))))"

definition build_minimal_request_context_result :: pmsg where
  "build_minimal_request_context_result = [(''success'', VMsg [(''request_context'', VMsg [])])]"

subsection \<open>Sending\<close>

definition send_exec_client_message ::
  "proto_lib \<Rightarrow> kv_writer \<Rightarrow> exec_server_message \<Rightarrow> string \<Rightarrow> pmsg option \<Rightarrow> unit go_result \<times> kv_writer" where
  "send_exec_client_message pl kv execMsg resultFieldName resultMsg =
     (case exec_result_field resultFieldName of
        None \<Rightarrow> (Err (''cursor: unknown ExecClientMessage result field '' @ [chr_quote] @ resultFieldName @ [chr_quote]), kv)
      | Some f \<Rightarrow>
          (case resultMsg of
             None \<Rightarrow> (Panic ''protoreflect: invalid nil message'', kv)
           | Some m \<Rightarrow> kv_write pl (ExecClientMessage
               \<lparr>ecm_id = esm_id execMsg, ecm_exec_id = esm_exec_id execMsg, ecm_message = (pf_name f, m)\<rparr>) kv))"

subsection \<open>Capturing the request\<close>

definition internal_arg_fields :: "string list" where
  "internal_arg_fields = [''toolCallId'', ''tool_call_id'', ''execId'', ''exec_id'']"

definition strip_internal_arg_fields :: "string \<Rightarrow> string" where
  "strip_internal_arg_fields raw =
     (case go_bind (json_unmarshal raw) (\<lambda>v. go_bind (dec_raw_map v) (\<lambda>obj. Ok (v, obj))) of
        Ok (v, obj) \<Rightarrow>
          if v = JNull then ''null''
          else json_print (marshal_raw_map (filter (\<lambda>(k, x). k \<notin> set internal_arg_fields) obj))
      | _ \<Rightarrow> raw)"

definition native_tool_args_json :: "proto_lib \<Rightarrow> string \<Rightarrow> pval \<Rightarrow> string option" where
  "native_tool_args_json pl field v =
     (case fields_by_name (oneof_fields md_ExecServerMessage ''message'') field of
        None \<Rightarrow> None
      | Some f \<Rightarrow>
          if \<not> is_message_field f then None
          else (case v of
            VMsg m \<Rightarrow> (case pj_marshal pl (kind_name (pf_kind f)) m of
                         Ok raw \<Rightarrow> Some (strip_internal_arg_fields raw) | _ \<Rightarrow> None)
          | _ \<Rightarrow> None))"

definition msg_string :: "pmsg \<Rightarrow> string \<Rightarrow> string" where
  "msg_string m k = (case pm_get m k of Some (VString s) \<Rightarrow> s | _ \<Rightarrow> [])"

definition msg_bytes_map :: "pmsg \<Rightarrow> string \<Rightarrow> (string \<times> bytes) list" where
  "msg_bytes_map m k =
     (case pm_get m k of
        Some (VMap kvs) \<Rightarrow> map (\<lambda>(n, v). (n, case v of VBytes b \<Rightarrow> b | _ \<Rightarrow> [])) kvs
      | _ \<Rightarrow> [])"

definition capture_request :: "proto_lib \<Rightarrow> string \<Rightarrow> pval \<Rightarrow> captured_tool_request list" where
  "capture_request pl field v =
     (if field = ''mcp_args'' then
        (case v of
           VMsg m \<Rightarrow>
             if msg_string m ''name'' \<noteq> []
             then [\<lparr>ctr_field = field, ctr_name = msg_string m ''name'',
                    ctr_args = msg_bytes_map m ''args'', ctr_args_json = []\<rparr>]
             else []
         | _ \<Rightarrow> [])
      else if field \<noteq> ''request_context_args'' then
        (case native_tool_args_json pl field v of
           Some j \<Rightarrow> [\<lparr>ctr_field = field, ctr_name = [], ctr_args = [], ctr_args_json = j\<rparr>]
         | None \<Rightarrow> [])
      else [])"

definition handle_exec_server_message ::
  "proto_lib \<Rightarrow> exec_server_message \<Rightarrow> kv_writer \<Rightarrow> run_stream_result
    \<Rightarrow> unit go_result \<times> kv_writer \<times> run_stream_result" where
  "handle_exec_server_message pl execMsg kv result =
     (case esm_message execMsg of
        None \<Rightarrow> (Ok (), kv, result)
      | Some (field, v) \<Rightarrow>
          let result' = result\<lparr>rsr_tool_requests := rsr_tool_requests result @ capture_request pl field v\<rparr> in
          if field = ''request_context_args'' then
            (let (r, kv') = send_exec_client_message pl kv execMsg ''request_context_result''
                              (Some build_minimal_request_context_result) in (r, kv', result'))
          else (case exec_args_to_result_field_name field of
            None \<Rightarrow> (Ok (), kv, result')
          | Some resultFieldName \<Rightarrow>
              (case wrap_err (''cursor: failed to build decline result for '' @ resultFieldName)
                      (build_rejected_result resultFieldName) of
                 Err e \<Rightarrow> (Err e, kv, result')
               | Panic p \<Rightarrow> (Panic p, kv, result')
               | Ok m \<Rightarrow> (let (r, kv') = send_exec_client_message pl kv execMsg resultFieldName m
                         in (r, kv', result')))))"

subsection \<open>The declines\<close>

text \<open>For each execution request: the reply's field, its outcome case, and the field of that case that takes the decline text.\<close>

definition declines :: "(string \<times> string \<times> string \<times> string) list" where
  "declines =
    [(''shell_args'', ''shell_result'', ''rejected'', ''command''),
     (''write_args'', ''write_result'', ''rejected'', ''path''),
     (''delete_args'', ''delete_result'', ''rejected'', ''path''),
     (''grep_args'', ''grep_result'', ''error'', ''error''),
     (''read_args'', ''read_result'', ''rejected'', ''path''),
     (''ls_args'', ''ls_result'', ''rejected'', ''path''),
     (''diagnostics_args'', ''diagnostics_result'', ''rejected'', ''path''),
     (''mcp_args'', ''mcp_result'', ''rejected'', ''reason''),
     (''shell_stream_args'', ''shell_stream'', ''rejected'', ''command''),
     (''background_shell_spawn_args'', ''background_shell_spawn_result'', ''rejected'', ''command''),
     (''list_mcp_resources_exec_args'', ''list_mcp_resources_exec_result'', ''rejected'', ''reason''),
     (''read_mcp_resource_exec_args'', ''read_mcp_resource_exec_result'', ''rejected'', ''uri''),
     (''fetch_args'', ''fetch_result'', ''error'', ''url''),
     (''record_screen_args'', ''record_screen_result'', ''failure'', ''error''),
     (''computer_use_args'', ''computer_use_result'', ''error'', ''error''),
     (''write_shell_stdin_args'', ''write_shell_stdin_result'', ''error'', ''error'')]"

definition args_as_listed :: "string \<times> string \<times> string \<times> string \<Rightarrow> bool" where
  "args_as_listed = (\<lambda>(args, reply, outcome, textField). exec_args_to_result_field_name args = Some reply)"

lemma args_as_listed: "list_all args_as_listed declines"
  by code_simp

text \<open>A check of a reply's field against the list, its descriptor visited once.\<close>

definition field_decline :: "pfield \<Rightarrow> pmsg go_result" where
  "field_decline f = go_bind (field_desc f) (\<lambda>rd. populate_decline_outcome rd [])"

definition decline_as_listed :: "pfield \<Rightarrow> bool" where
  "decline_as_listed f = (is_message_field f \<and>
     (case field_decline f of
        Ok m \<Rightarrow> list_all (\<lambda>(args, reply, outcome, textField). reply = pf_name f \<longrightarrow>
                   m = [(outcome, VMsg [(textField, VString decline_text)])]) declines
      | _ \<Rightarrow> False))"

lemma declines_as_listed: "list_all decline_as_listed (oneof_fields md_ExecClientMessage ''message'')"
  by code_simp

lemma exec_reply_names: "map pf_name (oneof_fields md_ExecClientMessage ''message'') =
    [''shell_result'', ''write_result'', ''delete_result'', ''grep_result'', ''read_result'', ''ls_result'',
     ''diagnostics_result'', ''request_context_result'', ''mcp_result'', ''shell_stream'',
     ''background_shell_spawn_result'', ''list_mcp_resources_exec_result'', ''read_mcp_resource_exec_result'',
     ''fetch_result'', ''record_screen_result'', ''computer_use_result'', ''write_shell_stdin_result'']"
  by (simp add: oneof_fields_def md_ExecClientMessage_def)

lemma exec_result_field_Some:
  assumes "r \<in> set (map pf_name (oneof_fields md_ExecClientMessage ''message''))"
  obtains f where "exec_result_field r = Some f" "f \<in> set (oneof_fields md_ExecClientMessage ''message'')" "pf_name f = r"
proof -
  have "exec_result_field r \<noteq> None"
    using assms by (auto simp: exec_result_field_def fields_by_name_def find_None_iff)
  then obtain f where f: "exec_result_field r = Some f" by auto
  then show thesis using fields_by_name_Some that unfolding exec_result_field_def by metis
qed

lemma request_context_field: "map_option pf_name (exec_result_field ''request_context_result'') = Some ''request_context_result''"
  by (rule exec_result_field_Some [of "''request_context_result''"]) (simp_all add: exec_reply_names)

lemma decline_replies: "(args, reply, outcome, textField) \<in> set declines \<Longrightarrow>
    reply \<in> set (map pf_name (oneof_fields md_ExecClientMessage ''message''))"
  unfolding exec_reply_names by (auto simp: declines_def)

lemma exec_request_names: "map pf_name (oneof_fields md_ExecServerMessage ''message'') =
    [''shell_args'', ''write_args'', ''delete_args'', ''grep_args'', ''read_args'', ''ls_args'', ''diagnostics_args'',
     ''request_context_args'', ''mcp_args'', ''shell_stream_args'', ''background_shell_spawn_args'',
     ''list_mcp_resources_exec_args'', ''read_mcp_resource_exec_args'', ''fetch_args'', ''record_screen_args'',
     ''computer_use_args'', ''write_shell_stdin_args'']"
  by (simp add: oneof_fields_def md_ExecServerMessage_def)

lemma exec_variants: "map pf_name (filter (\<lambda>f. pf_name f \<noteq> ''request_context_args'') (oneof_fields md_ExecServerMessage ''message''))
    = map fst declines"
  by (simp add: oneof_fields_def md_ExecServerMessage_def declines_def)

lemma declineD:
  assumes "(args, reply, outcome, textField) \<in> set declines"
  shows "exec_args_to_result_field_name args = Some reply"
    and "map_option pf_name (exec_result_field reply) = Some reply"
    and "build_rejected_result reply = Ok (Some [(outcome, VMsg [(textField, VString decline_text)])])"
    and "args \<noteq> ''request_context_args''"
proof -
  show "exec_args_to_result_field_name args = Some reply"
    using assms args_as_listed by (auto simp: list_all_iff args_as_listed_def)
  obtain f where f: "exec_result_field reply = Some f" "f \<in> set (oneof_fields md_ExecClientMessage ''message'')" "pf_name f = reply"
    using exec_result_field_Some [OF decline_replies [OF assms]] .
  then show "map_option pf_name (exec_result_field reply) = Some reply" by simp
  have "decline_as_listed f" using f declines_as_listed by (simp add: list_all_iff)
  then have "is_message_field f" and "field_decline f = Ok [(outcome, VMsg [(textField, VString decline_text)])]"
    using assms f(3) by (auto simp: decline_as_listed_def list_all_iff split: go_result.splits)
  then show "build_rejected_result reply = Ok (Some [(outcome, VMsg [(textField, VString decline_text)])])"
    using f(1) by (auto simp: build_rejected_result_def field_decline_def go_simps)
  show "args \<noteq> ''request_context_args''" using assms by (auto simp: declines_def)
qed

lemma send_exec_known:
  assumes "map_option pf_name (exec_result_field rf) = Some rf"
  shows "send_exec_client_message pl kv e rf (Some m) =
    kv_write pl (ExecClientMessage \<lparr>ecm_id = esm_id e, ecm_exec_id = esm_exec_id e, ecm_message = (rf, m)\<rparr>) kv"
  using assms by (auto simp: send_exec_client_message_def split: option.splits)

text \<open>
  C24: every execution request of the protocol is answered by exactly one client message, which carries the
  request's \<open>id\<close> and \<open>exec_id\<close>, is of the paired result type, and reports a decline: its outcome is
  \<open>rejected\<close>, \<open>error\<close> or \<open>failure\<close> with the decline text in it. The request is captured for the client first.
\<close>

theorem exec_request_declined:
  assumes "(field, reply, outcome, textField) \<in> set declines" and "esm_message e = Some (field, v)"
  shows "handle_exec_server_message pl e kv result =
      (let (r, kv') = kv_write pl (ExecClientMessage \<lparr>ecm_id = esm_id e, ecm_exec_id = esm_exec_id e,
             ecm_message = (reply, [(outcome, VMsg [(textField, VString decline_text)])])\<rparr>) kv
       in (r, kv', result\<lparr>rsr_tool_requests := rsr_tool_requests result @ capture_request pl field v\<rparr>))
    \<and> outcome \<in> {''rejected'', ''error'', ''failure''}"
proof -
  have "list_all (\<lambda>(a, r, oc, t). oc = ''rejected'' \<or> oc = ''error'' \<or> oc = ''failure'') declines" by code_simp
  then have "outcome \<in> {''rejected'', ''error'', ''failure''}" using assms(1) by (auto simp: list_all_iff)
  then show ?thesis
    using declineD [OF assms(1)] assms(2)
    by (simp add: handle_exec_server_message_def Let_def send_exec_known)
qed

definition example_exec :: "string \<Rightarrow> exec_server_message" where
  "example_exec field = \<lparr>esm_id = 7, esm_exec_id = ''e'', esm_message = Some (field, VMsg [])\<rparr>"

lemma exec_request_declined_witness:
  "\<forall>pl kv. fst (handle_exec_server_message pl (example_exec ''read_args'') kv empty_result)
    = fst (kv_write pl (ExecClientMessage \<lparr>ecm_id = 7, ecm_exec_id = ''e'',
        ecm_message = (''read_result'', [(''rejected'', VMsg [(''path'', VString decline_text)])])\<rparr>) kv)"
proof (intro allI)
  fix pl kv
  have "(''read_args'', ''read_result'', ''rejected'', ''path'') \<in> set declines" by (simp add: declines_def)
  from exec_request_declined [OF this, of "example_exec ''read_args''" "VMsg []" pl kv empty_result]
  show "fst (handle_exec_server_message pl (example_exec ''read_args'') kv empty_result)
    = fst (kv_write pl (ExecClientMessage \<lparr>ecm_id = 7, ecm_exec_id = ''e'',
        ecm_message = (''read_result'', [(''rejected'', VMsg [(''path'', VString decline_text)])])\<rparr>) kv)"
    by (simp add: example_exec_def case_prod_unfold Let_def)
qed

text \<open>
  no variant is left without an answer: the requests of \<open>declines\<close> are all the variants of
  \<open>ExecServerMessage\<close> but \<open>request_context_args\<close>, and that one is answered with an empty successful context
  and captures nothing.
\<close>

theorem exec_request_context_answered:
  assumes "esm_message e = Some (field, v)" and "f \<in> set (oneof_fields md_ExecServerMessage ''message'')"
    and "pf_name f = field" and "field \<notin> fst ` set declines"
  shows "handle_exec_server_message pl e kv result =
      (let (r, kv') = kv_write pl (ExecClientMessage \<lparr>ecm_id = esm_id e, ecm_exec_id = esm_exec_id e,
             ecm_message = (''request_context_result'', [(''success'', VMsg [(''request_context'', VMsg [])])])\<rparr>) kv
       in (r, kv', result))"
proof -
  have "field = ''request_context_args''"
    using assms(2-4) arg_cong [OF exec_variants, of set] by force
  then show ?thesis
    using assms(1) request_context_field
    by (simp add: handle_exec_server_message_def Let_def send_exec_known capture_request_def
        build_minimal_request_context_result_def)
qed

lemma exec_request_context_answered_witness:
  "\<forall>pl kv. snd (snd (handle_exec_server_message pl (example_exec ''request_context_args'') kv empty_result)) = empty_result"
proof (intro allI)
  fix pl kv
  have "''request_context_args'' \<in> set (map pf_name (oneof_fields md_ExecServerMessage ''message''))"
    by (simp only: exec_request_names) simp
  then obtain f where "f \<in> set (oneof_fields md_ExecServerMessage ''message'')" "pf_name f = ''request_context_args''"
    by (auto simp only: set_map image_iff)
  moreover have "''request_context_args'' \<notin> fst ` set declines" by (simp add: declines_def)
  ultimately show "snd (snd (handle_exec_server_message pl (example_exec ''request_context_args'') kv empty_result)) = empty_result"
    using exec_request_context_answered [of "example_exec ''request_context_args''" "''request_context_args''" "VMsg []" f pl kv empty_result]
    by (simp add: example_exec_def case_prod_unfold Let_def)
qed

text \<open>The fields of the \<open>rejected\<close> case of a reply.\<close>

definition rejected_fields :: "pfield \<Rightarrow> string list" where
  "rejected_fields f =
     (case field_desc f of
        Ok rd \<Rightarrow> (case fields_by_name (md_fields rd) ''rejected'' of
            None \<Rightarrow> []
          | Some g \<Rightarrow> (case field_desc g of Ok gd \<Rightarrow> map pf_name (md_fields gd) | _ \<Rightarrow> []))
      | _ \<Rightarrow> [])"

definition reason_check :: "pfield \<Rightarrow> bool" where
  "reason_check f = (let has_reason = list_ex (\<lambda>n. n = ''reason'') (rejected_fields f) in
     list_all (\<lambda>(args, reply, outcome, textField). reply = pf_name f \<and> outcome = ''rejected'' \<longrightarrow> has_reason) declines)"

lemma reason_checks: "list_all reason_check (oneof_fields md_ExecClientMessage ''message'')"
  by code_simp

text \<open>
  every \<open>rejected\<close> case has a \<open>reason\<close> field, but the decline text goes there only for the two
  MCP requests; for the others it lands in the field that identifies the request (\<open>command\<close>, \<open>path\<close>, \<open>uri\<close>).
\<close>

theorem decline_text_misses_reason:
  assumes "(args, reply, ''rejected'', textField) \<in> set declines" and "exec_result_field reply = Some f"
  shows "''reason'' \<in> set (rejected_fields f)
    \<and> (textField = ''reason'' \<longleftrightarrow> args = ''mcp_args'' \<or> args = ''list_mcp_resources_exec_args'')
    \<and> build_rejected_result reply = Ok (Some [(''rejected'', VMsg [(textField, VString decline_text)])])"
proof -
  have f: "f \<in> set (oneof_fields md_ExecClientMessage ''message'')" "pf_name f = reply"
    using assms(2) fields_by_name_Some unfolding exec_result_field_def by metis+
  then have "reason_check f" using reason_checks by (simp add: list_all_iff)
  then have "''reason'' \<in> set (rejected_fields f)"
    using assms(1) f(2) by (fastforce simp: reason_check_def list_all_iff list_ex_iff)
  moreover have "textField = ''reason'' \<longleftrightarrow> args = ''mcp_args'' \<or> args = ''list_mcp_resources_exec_args''"
    using assms(1) by (auto simp: declines_def)
  ultimately show ?thesis using declineD(3) [OF assms(1)] by simp
qed

lemma decline_text_misses_reason_witness:
  "build_rejected_result ''read_result'' = Ok (Some [(''rejected'', VMsg [(''path'', VString decline_text)])])"
proof -
  have "(''read_args'', ''read_result'', ''rejected'', ''path'') \<in> set declines" by (simp add: declines_def)
  moreover obtain f where "exec_result_field ''read_result'' = Some f"
    using exec_result_field_Some [of "''read_result''"] exec_reply_names by auto
  ultimately show ?thesis using decline_text_misses_reason by blast
qed

end
