(* ===== verification/Writers.thy ===== *)
theory Writers
  imports Framing
begin

section \<open>Concurrent writers of the request body\<close>

text \<open>
  During an exchange three goroutines write to one pipe (\<open>internal/executor/stream.go\<close>): the writer of
  the initial request, the read loop with its KV and exec replies, and the heartbeat ticker. The last two
  go through \<open>kvWriter.write\<close>, which holds the writer's mutex and refuses when the writer is closed; the first
  writes to the pipe directly. Each \<open>PipeWriter.Write\<close> holds the pipe's own gate until the reader has
  taken all of its bytes, in pieces of any size, or fails when the pipe is closed. The step relation interleaves them
  in every possible way.
\<close>

subsection \<open>States and steps\<close>

datatype writer = InitialWriter | ReadLoop | Heartbeat

text \<open>
  \<open>ws_pending\<close>: the frames each goroutine has yet to write, in its order. \<open>ws_gate\<close>: the write that is under way,
  its frame and how many bytes of it have been taken. \<open>ws_torn\<close>: the write that the closing of the pipe cut off.
  \<open>ws_kv_closed\<close>: the flag \<open>closed\<close> of the kvWriter.
\<close>

record pipe_state =
  ws_pending :: "writer \<Rightarrow> connect_frame list"
  ws_mutex :: "writer option"
  ws_gate :: "(writer \<times> connect_frame \<times> nat) option"
  ws_torn :: "(writer \<times> connect_frame \<times> nat) option"
  ws_out :: bytes
  ws_done :: "(writer \<times> connect_frame) list"
  ws_kv_closed :: bool
  ws_closed :: bool

definition initial_pipe :: "(writer \<Rightarrow> connect_frame list) \<Rightarrow> pipe_state" where
  "initial_pipe todo = \<lparr>ws_pending = todo, ws_mutex = None, ws_gate = None, ws_torn = None, ws_out = [], ws_done = [],
     ws_kv_closed = False, ws_closed = False\<rparr>"

definition unlock :: "writer \<Rightarrow> pipe_state \<Rightarrow> writer option" where
  "unlock w s = (if ws_mutex s = Some w then None else ws_mutex s)"

inductive pipe_step :: "pipe_state \<Rightarrow> pipe_state \<Rightarrow> bool" where
  lock: "w \<noteq> InitialWriter \<Longrightarrow> ws_mutex s = None \<Longrightarrow> ws_pending s w \<noteq> [] \<Longrightarrow>
    pipe_step s (s\<lparr>ws_mutex := Some w\<rparr>)"
| refuse_write: "ws_gate s = None \<Longrightarrow> ws_mutex s = Some w \<Longrightarrow> ws_kv_closed s \<or> ws_closed s \<Longrightarrow>
    pipe_step s (s\<lparr>ws_mutex := None\<rparr>)"
| begin_write: "ws_gate s = None \<Longrightarrow> ws_pending s w = f # fs \<Longrightarrow>
    w = InitialWriter \<or> ws_mutex s = Some w \<and> \<not> ws_kv_closed s \<Longrightarrow> \<not> ws_closed s \<Longrightarrow>
    pipe_step s (s\<lparr>ws_gate := Some (w, f, 0), ws_pending := (ws_pending s)(w := fs)\<rparr>)"
| transfer: "ws_gate s = Some (w, f, n) \<Longrightarrow> 0 < k \<Longrightarrow> n + k \<le> length (frame_bytes f) \<Longrightarrow> \<not> ws_closed s \<Longrightarrow>
    pipe_step s (s\<lparr>ws_gate := Some (w, f, n + k), ws_out := ws_out s @ take k (drop n (frame_bytes f))\<rparr>)"
| end_write: "ws_gate s = Some (w, f, length (frame_bytes f)) \<Longrightarrow>
    pipe_step s (s\<lparr>ws_gate := None, ws_done := ws_done s @ [(w, f)], ws_mutex := unlock w s\<rparr>)"
| abort_write: "ws_gate s = Some (w, f, n) \<Longrightarrow> n < length (frame_bytes f) \<Longrightarrow> ws_closed s \<Longrightarrow>
    pipe_step s (s\<lparr>ws_gate := None, ws_torn := ws_gate s, ws_mutex := unlock w s\<rparr>)"
| close_kv: "ws_mutex s = None \<Longrightarrow> pipe_step s (s\<lparr>ws_kv_closed := True\<rparr>)"
| close_pipe: "pipe_step s (s\<lparr>ws_closed := True\<rparr>)"

definition pipe_reachable :: "(writer \<Rightarrow> connect_frame list) \<Rightarrow> pipe_state \<Rightarrow> bool" where
  "pipe_reachable todo = pipe_step\<^sup>*\<^sup>* (initial_pipe todo)"

subsection \<open>The invariant\<close>

text \<open>The write that is under way or was cut off, and the bytes of it that the reader has taken.\<close>

definition under_way :: "pipe_state \<Rightarrow> (writer \<times> connect_frame \<times> nat) option" where
  "under_way s = (case ws_gate s of None \<Rightarrow> ws_torn s | Some g \<Rightarrow> Some g)"

definition in_flight :: "pipe_state \<Rightarrow> bytes" where
  "in_flight s = (case under_way s of None \<Rightarrow> [] | Some (w, f, n) \<Rightarrow> take n (frame_bytes f))"

definition gate_frames :: "writer \<Rightarrow> pipe_state \<Rightarrow> connect_frame list" where
  "gate_frames w s = (case under_way s of None \<Rightarrow> [] | Some (v, f, n) \<Rightarrow> if v = w then [f] else [])"

definition done_by :: "writer \<Rightarrow> pipe_state \<Rightarrow> connect_frame list" where
  "done_by w s = map snd (filter (\<lambda>(v, f). v = w) (ws_done s))"

definition pipe_inv :: "(writer \<Rightarrow> connect_frame list) \<Rightarrow> pipe_state \<Rightarrow> bool" where
  "pipe_inv todo s =
     (ws_out s = concat (map (frame_bytes \<circ> snd) (ws_done s)) @ in_flight s
      \<and> (case under_way s of None \<Rightarrow> True | Some (w, f, n) \<Rightarrow> n \<le> length (frame_bytes f))
      \<and> (ws_torn s = None \<or> ws_gate s = None \<and> ws_closed s)
      \<and> (\<forall>w. done_by w s @ gate_frames w s @ ws_pending s w = todo w))"

definition mutex_inv :: "pipe_state \<Rightarrow> bool" where
  "mutex_inv s = (\<forall>w f n. ws_gate s = Some (w, f, n) \<longrightarrow> w \<noteq> InitialWriter \<longrightarrow> ws_mutex s = Some w \<and> \<not> ws_kv_closed s)"

lemma under_way_update [simp]:
  "under_way (s\<lparr>ws_mutex := m\<rparr>) = under_way s"
  "under_way (s\<lparr>ws_kv_closed := b\<rparr>) = under_way s"
  "under_way (s\<lparr>ws_closed := b\<rparr>) = under_way s"
  by (simp_all add: under_way_def split: option.split)

lemma pipe_inv_initial: "pipe_inv todo (initial_pipe todo)"
  by (simp add: pipe_inv_def initial_pipe_def in_flight_def done_by_def gate_frames_def under_way_def)

lemma pipe_inv_step [inv_intros]:
  assumes "pipe_step s t" and "pipe_inv todo s" shows "pipe_inv todo t"
  using assms
proof (induction rule: pipe_step.induct)
  case (transfer s w f n k)
  then show ?case
    by (auto simp: pipe_inv_def in_flight_def gate_frames_def done_by_def under_way_def take_add)
next
  case (begin_write s w f fs)
  then have "ws_torn s = None" by (auto simp: pipe_inv_def)
  moreover from this have "done_by w s @ f # fs = todo w"
    using begin_write by (auto simp: pipe_inv_def gate_frames_def under_way_def dest!: spec [of _ w])
  ultimately show ?case using begin_write
    by (auto simp: pipe_inv_def in_flight_def gate_frames_def done_by_def under_way_def)
next
  case (end_write s w f)
  have all: "done_by v s @ (if w = v then [f] else []) @ ws_pending s v = todo v" for v
    using end_write by (auto simp: pipe_inv_def gate_frames_def under_way_def)
  have "done_by v (s\<lparr>ws_gate := None, ws_done := ws_done s @ [(w, f)], ws_mutex := m\<rparr>) = done_by v s @ (if w = v then [f] else [])"
    for v m by (simp add: done_by_def)
  with end_write all show ?case
    by (auto simp: pipe_inv_def in_flight_def gate_frames_def under_way_def)
next
  case (abort_write s w f n)
  then show ?case by (auto simp: pipe_inv_def in_flight_def gate_frames_def done_by_def under_way_def)
qed (auto simp: pipe_inv_def in_flight_def gate_frames_def done_by_def)

lemma mutex_inv_step: "pipe_step s t \<Longrightarrow> mutex_inv s \<Longrightarrow> mutex_inv t"
  by (induction rule: pipe_step.induct) (auto simp: mutex_inv_def unlock_def)

interpretation pipe: machine "initial_pipe todo" pipe_step "\<lambda>s. pipe_inv todo s \<and> mutex_inv s" for todo
proof unfold_locales
  show "pipe_inv todo (initial_pipe todo) \<and> mutex_inv (initial_pipe todo)"
    using pipe_inv_initial by (simp add: mutex_inv_def initial_pipe_def)
qed (blast intro: pipe_inv_step mutex_inv_step)

lemma pipe_inv_reachable: "pipe_reachable todo s \<Longrightarrow> pipe_inv todo s"
  unfolding pipe_reachable_def using pipe.reachable_inv by blast

lemma mutex_inv_reachable: "pipe_reachable todo s \<Longrightarrow> mutex_inv s"
  unfolding pipe_reachable_def using pipe.reachable_inv by blast

subsection \<open>Properties\<close>

text \<open>The frames of which the reader has taken all bytes, and the bytes of the last one if it has not.\<close>

definition whole_frames :: "pipe_state \<Rightarrow> connect_frame list" where
  "whole_frames s = map snd (ws_done s) @ (case under_way s of None \<Rightarrow> []
     | Some (w, f, n) \<Rightarrow> if n = length (frame_bytes f) then [f] else [])"

definition partial_frame :: "pipe_state \<Rightarrow> bytes" where
  "partial_frame s = (case under_way s of None \<Rightarrow> []
     | Some (w, f, n) \<Rightarrow> if n = length (frame_bytes f) then [] else take n (frame_bytes f))"

text \<open>
  C27: at every moment of every interleaving of the three writers, what has reached the request body parses as the sequence
  of the frames taken completely, followed by a part of the one frame whose write is under way or was cut off by the closing of the
  pipe (bodies below 4 GiB), and each goroutine's frames are delivered in its order, none lost or repeated. A KV or exec reply or a heartbeat is written only by the goroutine that holds the mutex of the
  kvWriter, and never once the kvWriter is closed; the initial request needs no mutex, the pipe's own gate keeps it apart.
\<close>

theorem body_is_whole_frames:
  assumes "pipe_reachable todo s"
    and "length (ws_out s) < 2 ^ 32"
    and "\<And>w f n. under_way s = Some (w, f, n) \<Longrightarrow> length (frame_bytes f) < 2 ^ 32"
  shows "connect.unframe (Suc (length (whole_frames s))) (ws_out s) = (whole_frames s, partial_frame s)
    \<and> (\<forall>w. done_by w s @ gate_frames w s @ ws_pending s w = todo w)
    \<and> (\<forall>w f n. ws_gate s = Some (w, f, n) \<longrightarrow> w = InitialWriter \<or> ws_mutex s = Some w \<and> \<not> ws_kv_closed s)"
proof -
  have inv: "pipe_inv todo s" by (rule pipe_inv_reachable [OF assms(1)])
  have out: "ws_out s = concat (map frame_bytes (whole_frames s)) @ partial_frame s"
    using inv by (auto simp: pipe_inv_def whole_frames_def partial_frame_def in_flight_def comp_def split: option.splits)
  have "extract_frame (partial_frame s) = Ok None"
  proof (cases "partial_frame s = []")
    case True
    then show ?thesis by (simp add: connect.dec_nil)
  next
    case False
    then obtain w f n where u: "under_way s = Some (w, f, n)" and p: "partial_frame s = take n (frame_bytes f)"
      and "n \<noteq> length (frame_bytes f)"
      by (auto simp: partial_frame_def split: option.splits prod.splits if_splits)
    then have "n < length (frame_bytes f)" using inv by (simp add: pipe_inv_def)
    then show ?thesis
      by (intro connect.dec_prefix [of f _ "drop n (frame_bytes f)"]) (use assms(3) [OF u] p in simp_all)
  qed
  then have "connect.unframe (Suc (length (whole_frames s))) (ws_out s) = (whole_frames s, partial_frame s)"
    using assms(2) unfolding out by (intro connect.unframe_concat) simp_all
  moreover have "\<forall>w. done_by w s @ gate_frames w s @ ws_pending s w = todo w" using inv by (simp add: pipe_inv_def)
  ultimately show ?thesis using mutex_inv_reachable [OF assms(1)] by (auto simp: mutex_inv_def)
qed

lemma one_step_reachable: "pipe_reachable todo s \<Longrightarrow> pipe_step s t \<Longrightarrow> pipe_reachable todo t"
  unfolding pipe_reachable_def by (rule rtranclp.rtrancl_into_rtrancl)

text \<open>A run in which the initial request is written and the heartbeat has begun a frame of its own.\<close>

definition example_frame :: "byte \<Rightarrow> connect_frame" where
  "example_frame b = \<lparr>cf_flags = 0, cf_payload = [b]\<rparr>"

definition example_todo :: "writer \<Rightarrow> connect_frame list" where
  "example_todo = (\<lambda>_. [])(InitialWriter := [example_frame 1], Heartbeat := [example_frame 2])"

definition example_state :: pipe_state where
  "example_state = (initial_pipe example_todo)\<lparr>ws_gate := Some (Heartbeat, example_frame 2, 2), ws_pending := (\<lambda>_. []),
     ws_mutex := Some Heartbeat, ws_out := [0, 0, 0, 0, 1, 1, 0, 0], ws_done := [(InitialWriter, example_frame 1)]\<rparr>"

lemma example_frame_bytes: "frame_bytes (example_frame 1) = [0, 0, 0, 0, 1, 1]" "frame_bytes (example_frame 2) = [0, 0, 0, 0, 1, 2]"
  by code_simp+

lemma example_reachable: "pipe_reachable example_todo example_state"
proof -
  let ?s0 = "initial_pipe example_todo"
  let ?s1 = "?s0\<lparr>ws_gate := Some (InitialWriter, example_frame 1, 0), ws_pending := example_todo(InitialWriter := [])\<rparr>"
  let ?s2 = "?s1\<lparr>ws_gate := Some (InitialWriter, example_frame 1, 6), ws_out := [0, 0, 0, 0, 1, 1]\<rparr>"
  let ?s3 = "?s2\<lparr>ws_gate := None, ws_done := [(InitialWriter, example_frame 1)]\<rparr>"
  let ?s4 = "?s3\<lparr>ws_mutex := Some Heartbeat\<rparr>"
  let ?s5 = "?s4\<lparr>ws_gate := Some (Heartbeat, example_frame 2, 0), ws_pending := (\<lambda>_. [])\<rparr>"
  have p: "(example_todo(InitialWriter := []))(Heartbeat := []) = (\<lambda>_. [])" by (auto simp: example_todo_def)
  have "pipe_step ?s0 ?s1"
    using begin_write [of ?s0 InitialWriter] by (simp add: initial_pipe_def example_todo_def)
  moreover have "pipe_step ?s1 ?s2"
    using transfer [of ?s1 InitialWriter "example_frame 1" 0 6] by (simp add: initial_pipe_def example_frame_bytes)
  moreover have "pipe_step ?s2 ?s3"
    using end_write [of ?s2 InitialWriter "example_frame 1"] by (simp add: initial_pipe_def example_frame_bytes unlock_def)
  moreover have "pipe_step ?s3 ?s4"
    using lock [of Heartbeat ?s3] by (simp add: initial_pipe_def example_todo_def)
  moreover have "pipe_step ?s4 ?s5"
    using begin_write [of ?s4 Heartbeat "example_frame 2" "[]"] p by (simp add: initial_pipe_def) (simp add: example_todo_def)
  moreover have "pipe_step ?s5 example_state"
    using transfer [of ?s5 Heartbeat "example_frame 2" 0 2]
    by (simp add: initial_pipe_def example_frame_bytes example_state_def numeral_2_eq_2)
  moreover have "pipe_reachable example_todo ?s0" by (simp add: pipe_reachable_def)
  ultimately show ?thesis using one_step_reachable by blast
qed

lemma body_is_whole_frames_witness:
  "connect.unframe (Suc (Suc 0)) (ws_out example_state) = ([example_frame 1], [0, 0]) \<and> ws_mutex example_state = Some Heartbeat"
proof -
  have take2: "take 2 [0 :: byte, 0, 0, 0, 1, 2] = [0, 0]" by (simp add: numeral_2_eq_2)
  have "under_way example_state = Some (Heartbeat, example_frame 2, 2)"
    and "ws_gate example_state = Some (Heartbeat, example_frame 2, 2)"
    and "ws_done example_state = [(InitialWriter, example_frame 1)]" "length (ws_out example_state) = 8"
    by (simp_all add: under_way_def example_state_def)
  moreover from this have "whole_frames example_state = [example_frame 1]" "partial_frame example_state = [0, 0]"
    using take2 by (simp_all add: whole_frames_def partial_frame_def example_frame_bytes)
  ultimately show ?thesis
    using body_is_whole_frames [OF example_reachable] by (simp add: example_frame_bytes del: connect.unframe.simps)
qed

end
