(* ===== verification/Translate_Response.thy ===== *)
theory Translate_Response
  imports Exec_Message Tool_Map Conversation
begin

section \<open>From the server's updates to a chat-completions response\<close>

text \<open>
  \<open>internal/executor/translate_response.go\<close>: the accumulator that folds the interaction updates of
  a run into one response, the translation of completed tool calls, and the surfacing of captured
  tool requests. Token counts are Go \<open>int\<close>s; a count that reaches \<open>2^63\<close> is outside the model.
\<close>

subsection \<open>Arguments of MCP tools\<close>

text \<open>
  The value of one argument: the decoded \<open>google.protobuf.Value\<close> if the bytes are one, else the
  bytes themselves if they are JSON, else a JSON string. The first component is the text that
  \<open>obj[key]\<close> holds; \<open>json.Marshal\<close> fails on a \<open>RawMessage\<close> that is not JSON.
\<close>

definition mcp_arg_raw :: "proto_lib \<Rightarrow> bytes \<Rightarrow> string go_result" where
  "mcp_arg_raw pl raw =
     (let other = (if json_valid (of_bytes raw) then Ok (of_bytes raw) else Ok (json_print (jstr (of_bytes raw)))) in
      case pb_unmarshal_value pl raw of
        None \<Rightarrow> other
      | Some value \<Rightarrow>
          (case pj_marshal_value pl value of Ok encoded \<Rightarrow> Ok encoded | Err e \<Rightarrow> other | Panic p \<Rightarrow> Panic p))"

definition raw_message_json :: "string \<Rightarrow> json go_result" where
  "raw_message_json s =
     (case json_parse s of
        Some v \<Rightarrow> Ok v
      | None \<Rightarrow> Err ''json: error calling MarshalJSON for type json.RawMessage: invalid JSON'')"

definition mcp_args_to_json :: "proto_lib \<Rightarrow> (string \<times> bytes) list \<Rightarrow> string go_result" where
  "mcp_args_to_json pl args =
     (if args = [] then Ok ''{}''
      else go_bind (go_mapM (\<lambda>(key, raw). go_bind (mcp_arg_raw pl raw) (\<lambda>s. Ok (key, s))) args) (\<lambda>obj.
           go_bind (go_mapM (\<lambda>(key, s). go_bind (raw_message_json s) (\<lambda>v. Ok (key, v))) obj) (\<lambda>members.
           Ok (json_print (marshal_raw_map members)))))"

subsection \<open>Ids\<close>

definition new_tool_call_id :: "entropy \<Rightarrow> string go_result \<times> entropy" where
  "new_tool_call_id en =
     (let (r, en') = new_message_id en in (go_bind r (\<lambda>generated. Ok (''call_'' @ generated)), en'))"

definition new_response_id :: "entropy \<Rightarrow> string go_result \<times> entropy" where
  "new_response_id en =
     (let (r, en') = rand_read 12 en in (go_bind r (\<lambda>b. Ok (''cursor-'' @ hex_encode b)), en'))"

subsection \<open>toChatToolCall\<close>

definition is_tool_call_completion_echo :: "mdesc \<Rightarrow> pmsg \<Rightarrow> bool" where
  "is_tool_call_completion_echo md m =
     (case fields_by_name (md_fields md) ''args'' of
        None \<Rightarrow> False
      | Some argsField \<Rightarrow>
          if pm_has m (pf_name argsField) then False
          else (case fields_by_name (md_fields md) ''result'' of
                  Some resultField \<Rightarrow> pm_has m (pf_name resultField)
                | None \<Rightarrow> False))"

text \<open>A tool call under a fresh id.\<close>

definition with_call_id :: "string \<Rightarrow> string \<Rightarrow> entropy \<Rightarrow> chat_tool_call option go_result \<times> entropy" where
  "with_call_id name argsJSON en =
     (let (r, en') = new_tool_call_id en
      in (go_bind r (\<lambda>callID. Ok (Some \<lparr>tc_id = callID, tc_type = ''function'',
            tc_function = \<lparr>tcf_name = name, tcf_arguments = argsJSON\<rparr>\<rparr>)), en'))"

text \<open>The generated getters return zero values on nil messages.\<close>

definition sub_message :: "pval \<Rightarrow> string \<Rightarrow> pval" where
  "sub_message v k = (case v of VMsg m \<Rightarrow> (case pm_get m k of Some w \<Rightarrow> w | None \<Rightarrow> VNil) | _ \<Rightarrow> VNil)"

definition value_fields :: "pval \<Rightarrow> pmsg" where
  "value_fields v = (case v of VMsg m \<Rightarrow> m | _ \<Rightarrow> [])"

definition to_chat_tool_call ::
  "proto_lib \<Rightarrow> oneof_value option \<Rightarrow> entropy \<Rightarrow> chat_tool_call option go_result \<times> entropy" where
  "to_chat_tool_call pl toolCall en =
     (case toolCall of
        None \<Rightarrow> (Ok None, en)
      | Some None \<Rightarrow> (Err ''cursor: tool call has no populated variant'', en)
      | Some (Some (field, v)) \<Rightarrow>
          if field = ''mcp_tool_call'' then
            (let mcpArgs = value_fields (sub_message v ''args''); name = msg_string mcpArgs ''name'' in
             if name = [] then (Ok None, en)
             else (case wrap_err (''cursor: failed to render mcp tool args for '' @ name)
                          (mcp_args_to_json pl (msg_bytes_map mcpArgs ''args'')) of
                     Ok argsJSON \<Rightarrow> with_call_id name argsJSON en
                   | Err e \<Rightarrow> (Err e, en)
                   | Panic p \<Rightarrow> (Panic p, en)))
          else
            (case v of
               VMsg m \<Rightarrow>
                 (case fields_by_name (oneof_fields md_ToolCall ''tool'') field of
                    None \<Rightarrow> (Panic ''protoreflect: no such field'', en)
                  | Some f \<Rightarrow>
                      (case field_desc f of
                         Ok md \<Rightarrow>
                           if is_tool_call_completion_echo md m then (Ok None, en)
                           else (case wrap_err (''cursor: failed to marshal tool call args for '' @ field)
                                        (pj_marshal pl (md_name md) m) of
                                   Ok argsJSON \<Rightarrow> with_call_id field argsJSON en
                                 | Err e \<Rightarrow> (Err e, en)
                                 | Panic p \<Rightarrow> (Panic p, en))
                       | Err e \<Rightarrow> (Err e, en)
                       | Panic p \<Rightarrow> (Panic p, en)))
             | VNil \<Rightarrow> (Err (''cursor: tool call field '' @ field @ '' has no message value''), en)
             | _ \<Rightarrow> (Panic ''protoreflect: value is not a message'', en)))"

subsection \<open>The accumulator\<close>

record response_accumulator =
  ra_text :: string
  ra_tool_calls :: "chat_tool_call list"
  ra_err :: "string option"
  ra_completion_tokens :: nat

definition empty_accumulator :: response_accumulator where
  "empty_accumulator = \<lparr>ra_text = [], ra_tool_calls = [], ra_err = None, ra_completion_tokens = 0\<rparr>"

definition accumulate ::
  "proto_lib \<Rightarrow> interaction_update option \<Rightarrow> response_accumulator \<Rightarrow> entropy
    \<Rightarrow> response_accumulator go_result \<times> entropy" where
  "accumulate pl update a en =
     (case update of
        Some (TextDelta (Some t)) \<Rightarrow> (Ok (a\<lparr>ra_text := ra_text a @ t\<rparr>), en)
      | Some (ToolCallCompleted (Some toolCall)) \<Rightarrow>
          (case to_chat_tool_call pl toolCall en of
             (Ok (Some tc), en') \<Rightarrow> (Ok (a\<lparr>ra_tool_calls := ra_tool_calls a @ [tc]\<rparr>), en')
           | (Ok None, en') \<Rightarrow> (Ok a, en')
           | (Err e, en') \<Rightarrow> (Ok (a\<lparr>ra_err := Some (''cursor: failed to translate tool call: '' @ e)\<rparr>), en')
           | (Panic p, en') \<Rightarrow> (Panic p, en'))
      | Some (TokenDelta (Some n)) \<Rightarrow>
          (Ok (if 0 < sint n then a\<lparr>ra_completion_tokens := ra_completion_tokens a + nat (sint n)\<rparr> else a), en)
      | _ \<Rightarrow> (Ok a, en))"

definition estimate_tokens :: "string \<Rightarrow> nat" where
  "estimate_tokens s = (if s = [] then 0 else if 0 < length s div 4 then length s div 4 else 1)"

definition usage :: "response_accumulator \<Rightarrow> string \<Rightarrow> string \<Rightarrow> chat_usage" where
  "usage a promptText content =
     (let completion =
        (if ra_completion_tokens a = 0
         then estimate_tokens (content @ concat (map (\<lambda>tc. tcf_name (tc_function tc) @ tcf_arguments (tc_function tc)) (ra_tool_calls a)))
         else ra_completion_tokens a);
        prompt = estimate_tokens promptText
      in \<lparr>cu_prompt_tokens = prompt, cu_completion_tokens = completion, cu_total_tokens = prompt + completion\<rparr>)"

definition to_chat_completions_response ::
  "response_accumulator \<Rightarrow> string \<Rightarrow> string \<Rightarrow> string \<Rightarrow> chat_completions_response" where
  "to_chat_completions_response a model responseID promptText =
     (let finishReason = (if ra_tool_calls a \<noteq> [] then ''tool_calls'' else ''stop'');
          u = usage a promptText (ra_text a)
      in case ra_err a of
           Some e \<Rightarrow> \<lparr>resp_id = responseID, resp_object = ''chat.completion'', resp_model = model, resp_choices = [],
                      resp_usage = u, resp_error = Some \<lparr>ce_message = e, ce_type = ''cursor_translation_error''\<rparr>\<rparr>
         | None \<Rightarrow> \<lparr>resp_id = responseID, resp_object = ''chat.completion'', resp_model = model,
                    resp_choices = [\<lparr>cc_index = 0,
                      cc_message = \<lparr>cm_role = ''assistant'', cm_content = ra_text a, cm_tool_calls = ra_tool_calls a,
                                    cm_tool_call_id = []\<rparr>,
                      cc_finish_reason = finishReason\<rparr>],
                    resp_usage = u, resp_error = None\<rparr>)"

subsection \<open>Captured tool requests\<close>

text \<open>The name and the arguments a captured request is surfaced with; \<open>None\<close> when it is not.\<close>

definition captured_call :: "proto_lib \<Rightarrow> client_tool_index \<Rightarrow> captured_tool_request \<Rightarrow> (string \<times> string) option go_result" where
  "captured_call pl tools req =
     (if ctr_name req \<noteq> [] then
        go_bind (wrap_err (''cursor: failed to render arguments for tool '' @ ctr_name req)
                  (mcp_args_to_json pl (ctr_args req))) (\<lambda>rendered. Ok (Some (ctr_name req, rendered)))
      else (case resolve_client_tool tools (ctr_field req) of
              None \<Rightarrow> Ok None
            | Some mapped \<Rightarrow> Ok (Some (mapped, if ctr_args_json req = [] then ''{}'' else ctr_args_json req))))"

text \<open>The accumulator keeps what was added before an error.\<close>

fun add_captured_tool_requests ::
  "proto_lib \<Rightarrow> client_tool_index \<Rightarrow> captured_tool_request list \<Rightarrow> response_accumulator \<Rightarrow> entropy
    \<Rightarrow> unit go_result \<times> response_accumulator \<times> entropy" where
  "add_captured_tool_requests pl tools [] a en = (Ok (), a, en)"
| "add_captured_tool_requests pl tools (req # reqs) a en =
     (case captured_call pl tools req of
        Err e \<Rightarrow> (Err e, a, en)
      | Panic p \<Rightarrow> (Panic p, a, en)
      | Ok None \<Rightarrow> add_captured_tool_requests pl tools reqs a en
      | Ok (Some (name, argsJSON)) \<Rightarrow>
          (case with_call_id name argsJSON en of
             (Ok (Some tc), en') \<Rightarrow>
               add_captured_tool_requests pl tools reqs (a\<lparr>ra_tool_calls := ra_tool_calls a @ [tc]\<rparr>) en'
           | (Ok None, en') \<Rightarrow> add_captured_tool_requests pl tools reqs a en'
           | (Err e, en') \<Rightarrow> (Err e, a, en')
           | (Panic p, en') \<Rightarrow> (Panic p, a, en')))"

text \<open>The updates of a run, in order.\<close>

fun accumulate_all ::
  "proto_lib \<Rightarrow> interaction_update list \<Rightarrow> response_accumulator \<Rightarrow> entropy
    \<Rightarrow> response_accumulator go_result \<times> entropy" where
  "accumulate_all pl [] a en = (Ok a, en)"
| "accumulate_all pl (u # us) a en =
     (case accumulate pl (Some u) a en of
        (Ok a', en') \<Rightarrow> accumulate_all pl us a' en'
      | (Err e, en') \<Rightarrow> (Err e, en')
      | (Panic p, en') \<Rightarrow> (Panic p, en'))"

subsection \<open>Ids and functions\<close>

text \<open>A call id is \<open>call_\<close> and 32 hexadecimal digits, whatever the server sent.\<close>

definition call_id_ok :: "string \<Rightarrow> bool" where
  "call_id_ok i = (is_prefix ''call_'' i \<and> length i = 37 \<and> (\<forall>c \<in> set (drop 5 i). is_hex_char c))"

lemma new_tool_call_id_Ok: "new_tool_call_id en = (Ok i, en') \<Longrightarrow> call_id_ok i"
  by (auto simp: new_tool_call_id_def go_simps call_id_ok_def split: prod.splits dest: new_message_id_Ok)

lemma with_call_id_Ok:
  "with_call_id n j en = (Ok r, en') \<Longrightarrow>
     \<exists>tc. r = Some tc \<and> tc_function tc = \<lparr>tcf_name = n, tcf_arguments = j\<rparr> \<and> tc_type tc = ''function'' \<and> call_id_ok (tc_id tc)"
  by (auto simp: with_call_id_def go_simps split: prod.splits dest: new_tool_call_id_Ok)

lemma with_call_id_no_panic: "\<not> is_panic (fst (with_call_id n j en))"
  using new_message_id_no_panic [of en]
  by (auto simp: with_call_id_def new_tool_call_id_def is_panic_go_bind split: prod.splits)

text \<open>A random source that always delivers.\<close>

definition zero_entropy :: entropy where
  "zero_entropy = (\<lambda>n. Some (\<lambda>k. 0))"

lemma with_call_id_zero: "\<exists>tc. fst (with_call_id n j zero_entropy) = Ok (Some tc) \<and> tc_function tc = \<lparr>tcf_name = n, tcf_arguments = j\<rparr>"
  by (simp add: with_call_id_def new_tool_call_id_def new_message_id_def rand_read_def zero_entropy_def)

text \<open>What a completed tool call surfaces as, without its id: this does not depend on the random source.\<close>

definition surfaced_function :: "proto_lib \<Rightarrow> oneof_value option \<Rightarrow> chat_tool_call_func option" where
  "surfaced_function pl toolCall =
     (case fst (to_chat_tool_call pl toolCall zero_entropy) of Ok r \<Rightarrow> map_option tc_function r | _ \<Rightarrow> None)"

lemma to_chat_tool_call_Ok:
  assumes "to_chat_tool_call pl toolCall en = (Ok r, en')"
  shows "map_option tc_function r = surfaced_function pl toolCall
    \<and> (\<forall>tc. r = Some tc \<longrightarrow> tc_type tc = ''function'' \<and> call_id_ok (tc_id tc))"
proof -
  have *: "map_option tc_function r = Some \<lparr>tcf_name = n, tcf_arguments = j\<rparr>
      \<and> (\<forall>tc. r = Some tc \<longrightarrow> tc_type tc = ''function'' \<and> call_id_ok (tc_id tc))
      \<and> (\<exists>x. fst (with_call_id n j zero_entropy) = Ok x \<and> map_option tc_function x = Some \<lparr>tcf_name = n, tcf_arguments = j\<rparr>)"
    if "with_call_id n j en = (Ok r, en')" for n j
    using with_call_id_Ok [OF that] with_call_id_zero [of n j] by auto
  show ?thesis
    using assms unfolding to_chat_tool_call_def surfaced_function_def Let_def
    by (auto split: option.splits prod.splits if_splits go_result.splits pval.splits dest!: *)
qed

text \<open>
  What a completed call is to surface as, read off its message and its schema: a call of a client tool by the name and the
  arguments the server gave; a native call under its variant, unless it is the echo of a decline (the schema declares
  arguments and a result, the message has the result and no arguments).
\<close>

definition native_desc :: "string \<Rightarrow> mdesc option" where
  "native_desc field =
     (case fields_by_name (oneof_fields md_ToolCall ''tool'') field of
        Some f \<Rightarrow> (case field_desc f of Ok md \<Rightarrow> Some md | _ \<Rightarrow> None)
      | None \<Rightarrow> None)"

definition declares :: "mdesc \<Rightarrow> string \<Rightarrow> bool" where
  "declares md k \<longleftrightarrow> fields_by_name (md_fields md) k \<noteq> None"

fun ok_value :: "'a go_result \<Rightarrow> 'a option" where
  "ok_value (Ok x) = Some x"
| "ok_value r = None"

fun completed_function :: "proto_lib \<Rightarrow> oneof_value option \<Rightarrow> chat_tool_call_func option" where
  "completed_function pl (Some (Some (field, VMsg m))) =
     (if field = ''mcp_tool_call'' then
        (let a = (case pm_get m ''args'' of Some (VMsg a) \<Rightarrow> a | _ \<Rightarrow> []); name = msg_string a ''name'' in
         if name = [] then None
         else map_option (\<lambda>j. \<lparr>tcf_name = name, tcf_arguments = j\<rparr>) (ok_value (mcp_args_to_json pl (msg_bytes_map a ''args''))))
      else case native_desc field of
             None \<Rightarrow> None
           | Some md \<Rightarrow>
               if declares md ''args'' \<and> declares md ''result'' \<and> \<not> pm_has m ''args'' \<and> pm_has m ''result'' then None
               else map_option (\<lambda>j. \<lparr>tcf_name = field, tcf_arguments = j\<rparr>) (ok_value (pj_marshal pl (md_name md) m)))"
| "completed_function pl toolCall = None"

lemma echo_iff: "is_tool_call_completion_echo md m \<longleftrightarrow>
    declares md ''args'' \<and> declares md ''result'' \<and> \<not> pm_has m ''args'' \<and> pm_has m ''result''"
  by (auto simp: is_tool_call_completion_echo_def declares_def split: option.splits dest: fields_by_name_Some)

lemma to_chat_tool_call_completed:
  assumes "to_chat_tool_call pl toolCall en = (Ok r, en')"
  shows "map_option tc_function r = completed_function pl toolCall"
proof (cases "\<exists>field m. toolCall = Some (Some (field, VMsg m))")
  case True
  then obtain field m where t: "toolCall = Some (Some (field, VMsg m))" by blast
  have *: "map_option tc_function r = Some \<lparr>tcf_name = n, tcf_arguments = j\<rparr>" if "with_call_id n j en = (Ok r, en')" for n j
    using with_call_id_Ok [OF that] by auto
  show ?thesis
  proof (cases "field = ''mcp_tool_call''")
    case True
    define a where "a = (case pm_get m ''args'' of Some (VMsg a) \<Rightarrow> a | _ \<Rightarrow> [])"
    have va: "value_fields (sub_message (VMsg m) ''args'') = a"
      by (simp add: a_def value_fields_def sub_message_def split: option.split)
    have "map_option tc_function r = (if msg_string a ''name'' = [] then None
        else map_option (\<lambda>j. \<lparr>tcf_name = msg_string a ''name'', tcf_arguments = j\<rparr>)
          (ok_value (mcp_args_to_json pl (msg_bytes_map a ''args''))))"
      using assms True * unfolding t to_chat_tool_call_def
      by (cases "msg_string a ''name'' = []"; cases "mcp_args_to_json pl (msg_bytes_map a ''args'')") (auto simp: Let_def va)
    then show ?thesis using True unfolding t by (simp add: Let_def a_def)
  next
    case False
    then show ?thesis using assms * unfolding t
      by (auto simp: to_chat_tool_call_def native_desc_def echo_iff split: if_splits go_result.splits option.splits)
  qed
next
  case False
  then show ?thesis using assms
    by (cases toolCall) (auto simp: msg_string_def pm_get_def to_chat_tool_call_def Let_def value_fields_def sub_message_def
        split: option.splits pval.splits prod.splits if_splits go_result.splits)
qed

lemma to_chat_tool_call_facts:
  "to_chat_tool_call pl toolCall en = (Ok r, en') \<Longrightarrow> map_option tc_function r = completed_function pl toolCall
    \<and> (\<forall>tc. r = Some tc \<longrightarrow> tc_type tc = ''function'' \<and> call_id_ok (tc_id tc))"
  using to_chat_tool_call_completed to_chat_tool_call_Ok by blast

subsection \<open>Folding the updates\<close>

fun update_text :: "interaction_update \<Rightarrow> string" where
  "update_text (TextDelta (Some t)) = t"
| "update_text u = []"

fun update_tokens :: "interaction_update \<Rightarrow> nat" where
  "update_tokens (TokenDelta (Some n)) = nat (sint n)"
| "update_tokens u = 0"

fun update_call :: "proto_lib \<Rightarrow> interaction_update \<Rightarrow> chat_tool_call_func option" where
  "update_call pl (ToolCallCompleted (Some tc)) = completed_function pl tc"
| "update_call pl u = None"

definition calls_ok :: "chat_tool_call list \<Rightarrow> bool" where
  "calls_ok tcs = (\<forall>tc \<in> set tcs. tc_type tc = ''function'' \<and> call_id_ok (tc_id tc))"

lemma accumulate_Ok:
  assumes "accumulate pl (Some u) a en = (Ok a', en')"
  shows "ra_text a' = ra_text a @ update_text u
    \<and> ra_completion_tokens a' = ra_completion_tokens a + update_tokens u
    \<and> (ra_err a' = None \<longrightarrow> ra_err a = None
         \<and> map tc_function (ra_tool_calls a') = map tc_function (ra_tool_calls a) @ List.map_filter (update_call pl) [u])
    \<and> (calls_ok (ra_tool_calls a) \<longrightarrow> calls_ok (ra_tool_calls a'))
    \<and> (ra_err a \<noteq> None \<longrightarrow> ra_err a' \<noteq> None)"
proof (cases "\<exists>tc. u = ToolCallCompleted (Some tc)")
  case True
  then obtain tc where u: "u = ToolCallCompleted (Some tc)" by blast
  show ?thesis
    using assms unfolding u
    by (auto simp: accumulate_def map_filter_simps calls_ok_def split: prod.splits go_result.splits option.splits
        dest!: to_chat_tool_call_facts)
next
  case False
  then show ?thesis using assms
    by (cases u) (auto simp: accumulate_def map_filter_simps split: option.splits if_splits)
qed

lemma accumulate_all_Ok:
  assumes "accumulate_all pl us a en = (Ok a', en')"
  shows "ra_text a' = ra_text a @ concat (map update_text us)
    \<and> ra_completion_tokens a' = ra_completion_tokens a + sum_list (map update_tokens us)
    \<and> (ra_err a' = None \<longrightarrow> ra_err a = None \<and>
         map tc_function (ra_tool_calls a') = map tc_function (ra_tool_calls a) @ List.map_filter (update_call pl) us)
    \<and> (calls_ok (ra_tool_calls a) \<longrightarrow> calls_ok (ra_tool_calls a'))
    \<and> (ra_err a \<noteq> None \<longrightarrow> ra_err a' \<noteq> None)"
  using assms
proof (induction us arbitrary: a en)
  case Nil
  then show ?case by (simp add: map_filter_simps)
next
  case (Cons u us)
  from Cons.prems obtain b en1 where b: "accumulate pl (Some u) a en = (Ok b, en1)"
    and rest: "accumulate_all pl us b en1 = (Ok a', en')"
    by (auto split: prod.splits go_result.splits)
  have "List.map_filter (update_call pl) (u # us) = List.map_filter (update_call pl) [u] @ List.map_filter (update_call pl) us"
    by (simp add: map_filter_simps split: option.split)
  with accumulate_Ok [OF b] Cons.IH [OF rest] show ?case by auto
qed

subsection \<open>Properties of a response\<close>

text \<open>
  a completed tool call that does not translate costs the whole turn: the response then has an
  error and no choices, however much text the server had sent, and whatever it sends afterwards.
\<close>

theorem translation_error_discards_text:
  assumes "accumulate pl (Some u) a en = (Ok b, en1)" and "ra_err a = None" and "ra_err b \<noteq> None"
    and "accumulate_all pl us b en1 = (Ok a', en')"
  shows "resp_choices (to_chat_completions_response a' model i prompt) = []
    \<and> map_option ce_type (resp_error (to_chat_completions_response a' model i prompt)) = Some ''cursor_translation_error''
    \<and> ra_text a' = ra_text a @ concat (map update_text us)"
proof -
  have "ra_err a' \<noteq> None" and "ra_text a' = ra_text b @ concat (map update_text us)"
    using accumulate_all_Ok [OF assms(4)] assms(3) by auto
  moreover have "ra_text b = ra_text a"
    using assms(1-3) by (auto simp: accumulate_def split: option.splits interaction_update.splits prod.splits go_result.splits if_splits)
  ultimately show ?thesis by (auto simp: to_chat_completions_response_def Let_def)
qed

lemma translation_error_discards_text_witness:
  "resp_choices (to_chat_completions_response
     \<lparr>ra_text = ''answer'', ra_tool_calls = [],
      ra_err = Some ''cursor: failed to translate tool call: cursor: tool call has no populated variant'',
      ra_completion_tokens = 0\<rparr> ''m'' ''i'' ''p'') = []"
  using translation_error_discards_text
    [of undefined "ToolCallCompleted (Some (Some None))" "empty_accumulator\<lparr>ra_text := ''answer''\<rparr>" zero_entropy
      "\<lparr>ra_text = ''answer'', ra_tool_calls = [],
       ra_err = Some ''cursor: failed to translate tool call: cursor: tool call has no populated variant'',
       ra_completion_tokens = 0\<rparr>" zero_entropy "[]" _ _ "''m''" "''i''" "''p''"]
  by (simp add: accumulate_def empty_accumulator_def to_chat_tool_call_def)

lemma estimate_tokens_0 [simp]: "estimate_tokens s = 0 \<longleftrightarrow> s = []"
  by (simp add: estimate_tokens_def)

lemma estimate_tokens_bound: "4 \<le> length s \<Longrightarrow> 4 * estimate_tokens s \<le> length s \<and> length s < 4 * estimate_tokens s + 4"
  by (auto simp: estimate_tokens_def)

text \<open>
  the usage block of a response is never all zero once something was produced: it adds up, its
  prompt count is zero only for an empty prompt, and its completion count only when the server
  counted nothing and the turn has neither text nor a tool call.
\<close>

theorem usage_nonzero:
  "cu_total_tokens (usage a prompt (ra_text a)) =
     cu_prompt_tokens (usage a prompt (ra_text a)) + cu_completion_tokens (usage a prompt (ra_text a))
   \<and> (cu_prompt_tokens (usage a prompt (ra_text a)) = 0 \<longleftrightarrow> prompt = [])
   \<and> (cu_completion_tokens (usage a prompt (ra_text a)) = 0 \<longleftrightarrow>
        ra_completion_tokens a = 0 \<and> ra_text a = []
        \<and> list_all (\<lambda>tc. tcf_name (tc_function tc) = [] \<and> tcf_arguments (tc_function tc) = []) (ra_tool_calls a))"
  by (simp add: usage_def Let_def list_all_iff)

subsection \<open>MCP arguments\<close>

lemma mcp_arg_raw_valid:
  assumes "\<And>v s. pj_marshal_value pl v = Ok s \<Longrightarrow> json_valid s" and "\<And>v. \<not> is_panic (pj_marshal_value pl v)"
  shows "\<exists>s. mcp_arg_raw pl raw = Ok s \<and> json_valid s"
proof -
  define other where "other = (if json_valid (of_bytes raw) then of_bytes raw else json_print (jstr (of_bytes raw)))"
  have "json_valid (json_print (jstr (of_bytes raw)))" by (rule json_valid_print) simp
  then have other: "json_valid other" by (simp add: other_def)
  have "mcp_arg_raw pl raw = Ok other \<or> (\<exists>v s. pj_marshal_value pl v = Ok s \<and> mcp_arg_raw pl raw = Ok s)"
  proof (cases "pb_unmarshal_value pl raw")
    case None
    then show ?thesis by (simp add: mcp_arg_raw_def other_def)
  next
    case (Some v)
    have "\<not> is_panic (pj_marshal_value pl v)" by (rule assms(2))
    then show ?thesis using Some by (cases "pj_marshal_value pl v") (auto simp: mcp_arg_raw_def other_def)
  qed
  then show ?thesis using other assms(1) by blast
qed

text \<open>What the parser reads has at most the nesting it allows; one level below leaves room for the enclosing object.\<close>

definition fits_in_object :: "string \<Rightarrow> bool" where
  "fits_in_object s = (\<forall>v. json_parse s = Some v \<longrightarrow> json_ok (max_nesting - 1) v)"

lemma mcp_args_members:
  assumes "\<And>raw. raw \<in> snd ` set args \<Longrightarrow> \<exists>s. mcp_arg_raw pl raw = Ok s \<and> json_valid s" and "args \<noteq> []"
  shows "\<exists>members. mcp_args_to_json pl args = Ok (json_print (marshal_raw_map members))
    \<and> map fst members = map fst args
    \<and> (\<forall>(k, v) \<in> set members. \<exists>raw s. (k, raw) \<in> set args \<and> mcp_arg_raw pl raw = Ok s \<and> json_parse s = Some v)"
proof -
  define tx where "tx raw = (case mcp_arg_raw pl raw of Ok s \<Rightarrow> s | _ \<Rightarrow> [])" for raw
  define val where "val raw = (case json_parse (tx raw) of Some v \<Rightarrow> v | None \<Rightarrow> JNull)" for raw
  have tx: "mcp_arg_raw pl raw = Ok (tx raw) \<and> json_parse (tx raw) = Some (val raw)" if "raw \<in> snd ` set args" for raw
    using assms(1) [OF that] by (auto simp: tx_def val_def json_valid_def)
  let ?obj = "map (\<lambda>(k, raw). (k, tx raw)) args" and ?mem = "map (\<lambda>(k, raw). (k, val raw)) args"
  have 1: "go_mapM (\<lambda>(key, raw). go_bind (mcp_arg_raw pl raw) (\<lambda>s. Ok (key, s))) args = Ok ?obj"
    by (rule go_mapM_Ok) (use tx in \<open>force\<close>)
  have "go_mapM (\<lambda>(key, s). go_bind (raw_message_json s) (\<lambda>v. Ok (key, v))) ?obj
      = Ok (map (\<lambda>(k, s). (k, case json_parse s of Some v \<Rightarrow> v | None \<Rightarrow> JNull)) ?obj)"
    by (rule go_mapM_Ok) (use tx in \<open>force simp: raw_message_json_def\<close>)
  also have "map (\<lambda>(k, s). (k, case json_parse s of Some v \<Rightarrow> v | None \<Rightarrow> JNull)) ?obj = ?mem"
    by (auto simp: val_def)
  finally have 2: "go_mapM (\<lambda>(key, s). go_bind (raw_message_json s) (\<lambda>v. Ok (key, v))) ?obj = Ok ?mem" .
  have "mcp_args_to_json pl args = Ok (json_print (marshal_raw_map ?mem))"
    using assms(2) by (simp add: mcp_args_to_json_def 1 2)
  moreover have "\<forall>(k, v) \<in> set ?mem. \<exists>raw s. (k, raw) \<in> set args \<and> mcp_arg_raw pl raw = Ok s \<and> json_parse s = Some v"
    using tx by force
  moreover have "map fst ?mem = map fst args" by auto
  ultimately show ?thesis by blast
qed

text \<open>
  the arguments of a client tool always reach the client as valid JSON, whatever bytes the server put in
  them: as long as \<open>protojson\<close> returns JSON and no value uses up the parser's nesting limit,
  \<open>mcpArgsToJSON\<close> does not fail and its result parses.
\<close>

theorem mcp_args_always_json:
  assumes "\<And>v s. pj_marshal_value pl v = Ok s \<Longrightarrow> json_valid s \<and> fits_in_object s"
    and "\<And>v. \<not> is_panic (pj_marshal_value pl v)"
    and "\<And>k raw. (k, raw) \<in> set args \<Longrightarrow> fits_in_object (of_bytes raw)"
  shows "\<exists>s. mcp_args_to_json pl args = Ok s \<and> json_valid s"
proof (cases "args = []")
  case True
  have "json_ok max_nesting (marshal_raw_map [])"
    using json_ok_marshal_raw_map [of "[]" "max_nesting - 1"] by (simp add: max_nesting_def)
  moreover have "json_print (marshal_raw_map []) = ''{}''" by (simp add: marshal_raw_map_def jobj_def)
  ultimately have "json_valid ''{}''" using json_valid_print by metis
  then show ?thesis using True by (simp add: mcp_args_to_json_def)
next
  case False
  have "\<exists>s. mcp_arg_raw pl raw = Ok s \<and> json_valid s" for raw
    by (rule mcp_arg_raw_valid) (simp_all add: assms(1,2))
  then obtain members where
    m: "mcp_args_to_json pl args = Ok (json_print (marshal_raw_map members))"
    and vals: "\<And>k v. (k, v) \<in> set members \<Longrightarrow> \<exists>raw s. (k, raw) \<in> set args \<and> mcp_arg_raw pl raw = Ok s \<and> json_parse s = Some v"
    using mcp_args_members [OF _ False, of pl] by fast
  have "json_ok (max_nesting - 1) v" if kv: "(k, v) \<in> set members" for k v
  proof -
    obtain raw s where raw: "(k, raw) \<in> set args" "mcp_arg_raw pl raw = Ok s" "json_parse s = Some v"
      using vals [OF kv] by blast
    have jstr: "json_parse (json_print (jstr t)) = Some (jstr t)" for t
      using json_parse_print [of "jstr t"] by simp
    from raw(2) have "(\<exists>w. pj_marshal_value pl w = Ok s) \<or> s = of_bytes raw \<or> s = json_print (jstr (of_bytes raw))"
      by (auto simp: mcp_arg_raw_def Let_def split: option.splits go_result.splits if_splits)
    then show ?thesis using assms(1) assms(3) [OF raw(1)] raw(3) jstr by (auto simp: fits_in_object_def)
  qed
  then have "json_ok max_nesting (marshal_raw_map members)"
    using json_ok_marshal_raw_map [of members "max_nesting - 1"] by (simp add: max_nesting_def)
  then show ?thesis using m json_valid_print by blast
qed

lemma json_ok_norm: "json_ok d v \<Longrightarrow> json_ok d (json_norm v)"
  by (induction d v rule: json_ok.induct) (auto simp: case_prod_unfold)

text \<open>
  A runtime in which a \<open>Value\<close> is carried as its JSON text.
\<close>

definition json_lib :: proto_lib where
  "json_lib = \<lparr>pb_marshal = (\<lambda>m. Ok (case m of PB_Value v \<Rightarrow> to_bytes (json_print v) | _ \<Rightarrow> [])),
     pb_unmarshal_server = (\<lambda>b. Ok ServerOther), pb_unmarshal_value = (\<lambda>b. json_parse (of_bytes b)),
     sp_new_value = (\<lambda>v. if json_ok (max_nesting - 1) v \<and> json_norm v = v then Ok v else Err ''invalid value''),
     pj_marshal_value = (\<lambda>v. if json_ok (max_nesting - 1) v then Ok (json_print v) else Err ''invalid value''),
     pj_marshal = (\<lambda>n m. Ok ''{}''), pj_unmarshal = (\<lambda>n s. ([], None))\<rparr>"

lemma json_ok_nesting: "json_ok (max_nesting - 1) v \<Longrightarrow> json_ok max_nesting v"
  by (erule json_ok_mono) (rule diff_le_self)

lemma json_lib_marshals_json: "pj_marshal_value json_lib v = Ok s \<Longrightarrow> json_valid s \<and> fits_in_object s"
  by (auto simp: json_lib_def fits_in_object_def json_parse_print json_valid_print json_ok_nesting json_ok_norm split: if_splits)

lemma mcp_args_always_json_witness:
  "\<exists>s. mcp_args_to_json json_lib [(''city'', to_bytes (json_print (jstr ''Seoul''))), (''n'', [])] = Ok s \<and> json_valid s"
proof (rule mcp_args_always_json)
  show "\<not> is_panic (pj_marshal_value json_lib v)" for v by (simp add: json_lib_def)
  have "json_parse (of_bytes []) = None" by (simp add: json_parse_def skip_ws_def of_bytes_def)
  moreover have "json_parse (json_print (jstr ''Seoul'')) = Some (jstr ''Seoul'')"
    using json_parse_print [of "jstr ''Seoul''"] by simp
  moreover fix k raw assume "(k, raw) \<in> set [(''city'', to_bytes (json_print (jstr ''Seoul''))), (''n'', [])]"
  ultimately show "fits_in_object (of_bytes raw)" by (auto simp: fits_in_object_def)
qed (rule json_lib_marshals_json)

subsection \<open>Completed tool calls\<close>

lemma tool_variants_distinct: "distinct (map pf_name (oneof_fields md_ToolCall ''tool''))"
  unfolding tool_variants by code_simp

lemma tool_variant_field:
  "f \<in> set (oneof_fields md_ToolCall ''tool'') \<Longrightarrow> fields_by_name (oneof_fields md_ToolCall ''tool'') (pf_name f) = Some f"
  using tool_variants_distinct by (auto simp: fields_by_name_def find_Some_iff in_set_conv_nth distinct_conv_nth)

text \<open>
  a completed call of a native tool surfaces exactly when it is not the echo of a decline: with its
  arguments present it becomes a tool call named after its variant, with its message as \<open>protojson\<close>; the
  echo, a result without the arguments its schema declares, becomes none.
\<close>

theorem completed_call_surfaces:
  assumes "f \<in> set (oneof_fields md_ToolCall ''tool'')" and "pf_name f \<noteq> ''mcp_tool_call''"
    and "field_desc f = Ok md" and "pj_marshal pl (md_name md) m = Ok args"
  shows "surfaced_function pl (Some (Some (pf_name f, VMsg m))) =
      (if fields_by_name (md_fields md) ''args'' \<noteq> None \<and> fields_by_name (md_fields md) ''result'' \<noteq> None
          \<and> \<not> pm_has m ''args'' \<and> pm_has m ''result'' then None
       else Some \<lparr>tcf_name = pf_name f, tcf_arguments = args\<rparr>)"
proof -
  have echo: "is_tool_call_completion_echo md m \<longleftrightarrow> fields_by_name (md_fields md) ''args'' \<noteq> None
      \<and> fields_by_name (md_fields md) ''result'' \<noteq> None \<and> \<not> pm_has m ''args'' \<and> pm_has m ''result''"
    by (auto simp: is_tool_call_completion_echo_def split: option.splits dest: fields_by_name_Some)
  show ?thesis
    unfolding echo [symmetric]
    using assms(2-4) with_call_id_zero [of "pf_name f" args]
    by (auto simp: surfaced_function_def to_chat_tool_call_def tool_variant_field [OF assms(1)])
qed

lemma completed_call_surfaces_witness:
  "surfaced_function json_lib (Some (Some (''shell_tool_call'', VMsg [(''args'', VMsg [])])))
     = Some \<lparr>tcf_name = ''shell_tool_call'', tcf_arguments = ''{}''\<rparr>"
proof -
  have "list_ex (\<lambda>f. pf_name f = ''shell_tool_call'' \<and> is_ok (field_desc f)) (oneof_fields md_ToolCall ''tool'')"
    by code_simp
  then obtain f md where "f \<in> set (oneof_fields md_ToolCall ''tool'')" "pf_name f = ''shell_tool_call''" "field_desc f = Ok md"
    by (auto simp: list_ex_iff is_ok_iff)
  then show ?thesis
    using completed_call_surfaces [of f md json_lib "[(''args'', VMsg [])]" "''{}''"]
    by (simp add: pm_has_def json_lib_def)
qed

subsection \<open>Captured requests\<close>

text \<open>What the captured requests surface as, without ids.\<close>

definition captured_function :: "proto_lib \<Rightarrow> client_tool_index \<Rightarrow> captured_tool_request \<Rightarrow> chat_tool_call_func option" where
  "captured_function pl tools req =
     (case captured_call pl tools req of
        Ok (Some (name, args)) \<Rightarrow> Some \<lparr>tcf_name = name, tcf_arguments = args\<rparr> | _ \<Rightarrow> None)"

lemma add_captured_Ok:
  assumes "add_captured_tool_requests pl tools reqs a en = (Ok (), a', en')"
  shows "\<exists>new. ra_tool_calls a' = ra_tool_calls a @ new \<and> a' = a\<lparr>ra_tool_calls := ra_tool_calls a'\<rparr>
    \<and> map tc_function new = List.map_filter (captured_function pl tools) reqs \<and> calls_ok new"
  using assms
proof (induction reqs arbitrary: a en)
  case Nil
  then show ?case by (simp add: map_filter_simps calls_ok_def)
next
  case (Cons req reqs)
  obtain r where r: "captured_call pl tools req = Ok r"
    using Cons.prems by (cases "captured_call pl tools req") auto
  show ?case
  proof (cases r)
    case None
    then show ?thesis using Cons r by (auto simp: captured_function_def map_filter_simps)
  next
    case (Some p)
    obtain name args where p: "p = (name, args)" by (cases p)
    obtain r' en1 where w: "with_call_id name args en = (r', en1)" by (cases "with_call_id name args en")
    with Cons.prems r Some p obtain x where x: "r' = Ok x" by (cases r') auto
    from with_call_id_Ok [OF w [unfolded x]] obtain tc where tc: "x = Some tc"
      "tc_function tc = \<lparr>tcf_name = name, tcf_arguments = args\<rparr>" "tc_type tc = ''function''" "call_id_ok (tc_id tc)" by blast
    have "add_captured_tool_requests pl tools reqs (a\<lparr>ra_tool_calls := ra_tool_calls a @ [tc]\<rparr>) en1 = (Ok (), a', en')"
      using Cons.prems r Some p w x tc by simp
    from Cons.IH [OF this] obtain new where new: "ra_tool_calls a' = ra_tool_calls a @ tc # new" "a' = a\<lparr>ra_tool_calls := ra_tool_calls a'\<rparr>"
      "map tc_function new = List.map_filter (captured_function pl tools) reqs" "calls_ok new" by auto
    have captured_def: "captured_function pl tools req = Some (tc_function tc)"
      using r Some p tc by (simp add: captured_function_def)
    show ?thesis using new tc
      by (intro exI [of _ "tc # new"]) (auto simp: captured_def map_filter_simps calls_ok_def)
  qed
qed

text \<open>
  the captured requests become tool calls in the order the server made them, after the calls
  already there, and each under a name that the client can dispatch: the name the server gave for a client
  tool, or the declared name the native tool resolves to. A native tool without a declared equivalent is dropped.
\<close>

theorem captured_requests_dispatchable:
  assumes "add_captured_tool_requests pl (new_client_tool_index tools) reqs a en = (Ok (), a', en')"
  shows "\<exists>new. ra_tool_calls a' = ra_tool_calls a @ new \<and> calls_ok new \<and> ra_text a' = ra_text a
    \<and> map tc_function new = List.map_filter (captured_function pl (new_client_tool_index tools)) reqs
    \<and> (\<forall>tc \<in> set new. (\<exists>req \<in> set reqs. ctr_name req = tcf_name (tc_function tc) \<and> ctr_name req \<noteq> [])
          \<or> (\<exists>t \<in> set tools. tdf_name (td_function t) = tcf_name (tc_function tc)))"
proof -
  let ?idx = "new_client_tool_index tools"
  obtain new where new: "ra_tool_calls a' = ra_tool_calls a @ new" "a' = a\<lparr>ra_tool_calls := ra_tool_calls a'\<rparr>"
    "map tc_function new = List.map_filter (captured_function pl ?idx) reqs" "calls_ok new"
    using add_captured_Ok [OF assms] by blast
  have "(\<exists>req \<in> set reqs. ctr_name req = tcf_name f \<and> ctr_name req \<noteq> [])
      \<or> (\<exists>t \<in> set tools. tdf_name (td_function t) = tcf_name f)" if "f \<in> tc_function ` set new" for f
  proof -
    have "f \<in> set (List.map_filter (captured_function pl ?idx) reqs)" using that new(3) by (metis set_map)
    then obtain req where req: "req \<in> set reqs" "captured_function pl ?idx req = Some f"
      by (auto simp: map_filter_def)
    show ?thesis
    proof (cases "ctr_name req = []")
      case True
      then obtain n where "resolve_client_tool ?idx (ctr_field req) = Some n" "tcf_name f = n"
        using req(2) by (auto simp: captured_function_def captured_call_def split: option.splits)
      then show ?thesis using resolve_client_tool_Some [of tools "ctr_field req" n] by auto
    next
      case False
      then have "ctr_name req = tcf_name f"
        using req(2) by (auto simp: captured_function_def captured_call_def go_simps split: go_result.splits option.splits)
      then show ?thesis using False req(1) by auto
    qed
  qed
  moreover have "ra_text a' = ra_text a" by (subst new(2)) simp
  ultimately show ?thesis using new by auto
qed

lemma captured_requests_dispatchable_witness:
  "\<exists>new. calls_ok new \<and> map tc_function new = [\<lparr>tcf_name = ''read'', tcf_arguments = ''{}''\<rparr>]"
proof -
  define req where "req = \<lparr>ctr_field = ''mcp_args'', ctr_name = ''read'', ctr_args = [], ctr_args_json = []\<rparr>"
  have c: "captured_call json_lib (new_client_tool_index []) req = Ok (Some (''read'', ''{}''))"
    by (simp add: captured_call_def mcp_args_to_json_def req_def)
  then have f: "List.map_filter (captured_function json_lib (new_client_tool_index [])) [req]
      = [\<lparr>tcf_name = ''read'', tcf_arguments = ''{}''\<rparr>]"
    by (simp add: captured_function_def map_filter_simps)
  obtain tc en' where "with_call_id ''read'' ''{}'' zero_entropy = (Ok (Some tc), en')"
    using with_call_id_zero [of "''read''" "''{}''"] by (metis prod.collapse)
  then have "add_captured_tool_requests json_lib (new_client_tool_index []) [req] empty_accumulator zero_entropy
      = (Ok (), empty_accumulator\<lparr>ra_tool_calls := ra_tool_calls empty_accumulator @ [tc]\<rparr>, en')"
    by (simp add: c)
  from captured_requests_dispatchable [OF this] f show ?thesis by metis
qed

end
