(* ===== verification/Round_Trips.thy ===== *)
theory Round_Trips
  imports Translate_Request Translate_Response
begin

section \<open>Tool calls there and back\<close>

text \<open>
  A tool call that the client sends back in its history is rebuilt by \<open>translate_request.go\<close>; the call it
  was came from \<open>translate_response.go\<close>. The two should agree, since Cursor sees only the rebuilt one.
\<close>

text \<open>
  The JSON value that \<open>protojson\<close> renders for the \<open>google.protobuf.Value\<close> made from \<open>v\<close>, and what the plugin relies on for one
  value: the \<open>Value\<close> decodes to what was encoded, and \<open>protojson\<close> renders it as JSON. (The library's number is a float64, so for
  an integer beyond \<open>2^53\<close> the rendering is another number; for a value nested beyond its recursion limit the second does not hold.)
\<close>

definition rendered :: "proto_lib \<Rightarrow> json \<Rightarrow> json option" where
  "rendered pl v =
     (case sp_new_value pl v of
        Ok w \<Rightarrow> (case pj_marshal_value pl w of Ok s \<Rightarrow> json_parse s | _ \<Rightarrow> None)
      | _ \<Rightarrow> None)"

definition decodes :: "proto_lib \<Rightarrow> json \<Rightarrow> bool" where
  "decodes pl v \<longleftrightarrow>
     (\<forall>w b. sp_new_value pl v = Ok w \<longrightarrow> pb_marshal pl (PB_Value w) = Ok b \<longrightarrow>
        pb_unmarshal_value pl b = Some w \<and> (\<exists>s u. pj_marshal_value pl w = Ok s \<and> json_parse s = Some u))"

definition renders :: "proto_lib \<Rightarrow> string \<times> json \<Rightarrow> string \<times> json \<Rightarrow> bool" where
  "renders pl p q \<longleftrightarrow> fst p = fst q \<and> rendered pl (snd p) = Some (snd q)"

lemma arg_to_value_decodes:
  assumes codec: "decodes pl (snd p)" and enc: "arg_to_value pl tool p = Ok e"
  shows "\<exists>b s u. e = (fst p, VBytes b) \<and> mcp_arg_raw pl b = Ok s \<and> raw_message_json s = Ok u \<and> renders pl p (fst p, u)"
proof -
  obtain k v where p: "p = (k, v)" by (cases p)
  from enc obtain w b where w: "sp_new_value pl v = Ok w" "pb_marshal pl (PB_Value w) = Ok b" "e = (k, VBytes b)"
    by (auto simp: p arg_to_value_def tool_parameters_to_struct_value_def dec_any_def go_simps split: if_splits)
  with codec obtain s u where "pb_unmarshal_value pl b = Some w" "pj_marshal_value pl w = Ok s" "json_parse s = Some u"
    by (auto simp: decodes_def p)
  then show ?thesis
    using w by (auto simp: p mcp_arg_raw_def raw_message_json_def renders_def rendered_def)
qed

lemma args_decode:
  assumes "\<forall>p \<in> set ps. decodes pl (snd p)" and "go_mapM (arg_to_value pl tool) ps = Ok es"
  shows "\<exists>obj members. go_mapM (\<lambda>(key, raw). go_bind (mcp_arg_raw pl raw) (\<lambda>s. Ok (key, s)))
         (map (\<lambda>(n, v). (n, case v of VBytes b \<Rightarrow> b | _ \<Rightarrow> [])) es) = Ok obj
    \<and> go_mapM (\<lambda>(key, s). go_bind (raw_message_json s) (\<lambda>v. Ok (key, v))) obj = Ok members
    \<and> list_all2 (renders pl) ps members"
  using assms
proof (induction ps arbitrary: es)
  case (Cons p ps)
  then obtain e es' where e: "arg_to_value pl tool p = Ok e" and es': "go_mapM (arg_to_value pl tool) ps = Ok es'"
    and es: "es = e # es'" by (auto simp: go_simps)
  have "decodes pl (snd p)" "\<forall>p \<in> set ps. decodes pl (snd p)" using Cons.prems(1) by simp_all
  moreover obtain b s u where "e = (fst p, VBytes b)" "mcp_arg_raw pl b = Ok s" "raw_message_json s = Ok u" "renders pl p (fst p, u)"
    using arg_to_value_decodes [OF calculation(1) e] by blast
  ultimately show ?case using Cons.IH [OF _ es'] by (auto simp: es)
qed simp

lemma renders_exactly:
  "list_all2 (renders pl) ps members \<Longrightarrow> \<forall>(k, v) \<in> set ps. rendered pl v = Some v \<Longrightarrow> members = ps"
  by (induction rule: list_all2_induct) (auto simp: renders_def)

text \<open>Setting a result leaves the arguments of a client tool's call alone.\<close>

lemma mcp_result_fields: "list_all (\<lambda>f. pf_name f = ''result'' \<longrightarrow> pf_oneof f = None) (md_fields md_McpToolCall)"
  by code_simp

lemma set_result_keeps_args:
  assumes "set_generic_result_field md_McpToolCall text 0 m = Ok m'"
  shows "pm_get m' ''args'' = pm_get m ''args''"
proof (cases "find (\<lambda>f. pf_name f = ''result'' \<and> is_message_field f) (md_fields md_McpToolCall)")
  case None
  then show ?thesis using assms by (simp add: set_generic_result_field_def max_result_descend_depth_def)
next
  case (Some f)
  then have f: "f \<in> set (md_fields md_McpToolCall)" "pf_name f = ''result''" by (auto simp: find_Some_iff)
  then have "\<not> same_oneof md_McpToolCall f ''args''" using mcp_result_fields by (auto simp: same_oneof_def list_all_iff)
  moreover obtain r where "pm_set md_McpToolCall f (VMsg r) m = Ok m'"
    using assms Some by (auto simp: set_generic_result_field_def max_result_descend_depth_def go_simps)
  ultimately show ?thesis using pm_set_get(3) f(2) by fastforce
qed

lemma mcp_result_path: "is_ok (result_path md_McpToolCall)"
  by code_simp

lemma mcp_result_set: "t \<noteq> [] \<Longrightarrow> \<exists>m'. set_generic_result_field md_McpToolCall t 0 m = Ok m'"
proof (cases "find (\<lambda>f. pf_name f = ''result'' \<and> is_message_field f) (md_fields md_McpToolCall)")
  case (Some f)
  assume "t \<noteq> []"
  obtain rd p r where "field_desc f = Ok rd" "populate_path rd 1 = Ok (p, r)" "\<not> pf_repeated f"
    using mcp_result_path Some by (auto simp: is_ok_iff result_path_def go_simps split: if_splits)
  moreover from this have "populate_result_message rd t 1 [] = Ok (path_value p r t)"
    using populate_result_message_path \<open>t \<noteq> []\<close> by blast
  ultimately show ?thesis
    using Some pm_set_Ok_iff [of md_McpToolCall f "VMsg (path_value p r t)" m]
    by (auto simp: is_ok_iff set_generic_result_field_def max_result_descend_depth_def)
qed (simp add: set_generic_result_field_def max_result_descend_depth_def)

text \<open>
  C33: round trip of a client tool's call: rebuilding the MCP tool call from the name and the arguments in the
  history, with whatever result, and translating that call for the client again gives the same name and the same argument
  names, each value as \<open>protojson\<close> renders its \<open>google.protobuf.Value\<close>. Arguments that this rendering keeps come back exactly
  (with the keys in byte order); others, integers beyond the precision of a float64 above all, come back as it has them.
\<close>

theorem mcp_call_round_trip:
  assumes "\<forall>p \<in> set args. decodes pl (snd p)" and "tool \<noteq> []" and "\<not> is_blank argsJSON"
    and "json_unmarshal argsJSON = Ok v" and "dec_raw_map v = Ok args"
    and call: "build_mcp_tool_call_from_name_and_args pl tool argsJSON resultContent = Ok m"
  shows "\<exists>call members. m = [(''mcp_tool_call'', call)] \<and> list_all2 (renders pl) args members
    \<and> surfaced_function pl (Some (Some (''mcp_tool_call'', call))) =
        Some \<lparr>tcf_name = tool, tcf_arguments = json_print (marshal_raw_map members)\<rparr>
    \<and> ((\<forall>(k, v) \<in> set args. rendered pl v = Some v) \<longrightarrow> members = args)"
proof -
  from call obtain a call where a: "mcp_args_message pl tool argsJSON = Ok a"
    and m: "m = [(''mcp_tool_call'', VMsg call)]" and args: "pm_get call ''args'' = Some (VMsg a)"
    by (auto simp: build_mcp_tool_call_from_name_and_args_def go_simps dest!: set_result_keeps_args split: if_splits)
  have surf: "surfaced_function pl (Some (Some (''mcp_tool_call'', VMsg call))) =
        Some \<lparr>tcf_name = tool, tcf_arguments = j\<rparr>"
    if "msg_string a ''name'' = tool" "mcp_args_to_json pl (msg_bytes_map a ''args'') = Ok j" for j
    using that \<open>tool \<noteq> []\<close> args with_call_id_zero [of tool j]
    by (auto simp: surfaced_function_def to_chat_tool_call_def sub_message_def value_fields_def)
  have "\<exists>members. list_all2 (renders pl) args members \<and> surfaced_function pl (Some (Some (''mcp_tool_call'', VMsg call))) =
        Some \<lparr>tcf_name = tool, tcf_arguments = json_print (marshal_raw_map members)\<rparr>"
  proof (cases "args = []")
    case True
    then have "a = [(''name'', VString tool)]"
      using a assms(2-5) by (simp add: mcp_args_message_def)
    then have "surfaced_function pl (Some (Some (''mcp_tool_call'', VMsg call))) =
        Some \<lparr>tcf_name = tool, tcf_arguments = json_print (marshal_raw_map [])\<rparr>"
      by (intro surf) (simp_all add: msg_string_def msg_bytes_map_def mcp_args_to_json_def marshal_raw_map_def jobj_def)
    then show ?thesis using True by auto
  next
    case False
    then obtain es where es: "go_mapM (arg_to_value pl tool) args = Ok es"
      and a': "a = [(''name'', VString tool), (''args'', VMap es)]"
      using a assms(2-5) by (auto simp: mcp_args_message_def go_simps)
    have "es \<noteq> []" using False go_mapM_length [OF es] by auto
    obtain obj members where "go_mapM (\<lambda>(key, raw). go_bind (mcp_arg_raw pl raw) (\<lambda>s. Ok (key, s)))
         (map (\<lambda>(n, v). (n, case v of VBytes b \<Rightarrow> b | _ \<Rightarrow> [])) es) = Ok obj"
      "go_mapM (\<lambda>(key, s). go_bind (raw_message_json s) (\<lambda>v. Ok (key, v))) obj = Ok members"
      and same: "list_all2 (renders pl) args members"
      using args_decode [OF assms(1) es] by blast
    then have "mcp_args_to_json pl (msg_bytes_map a ''args'') = Ok (json_print (marshal_raw_map members))"
      using \<open>es \<noteq> []\<close> by (simp add: a' msg_bytes_map_def mcp_args_to_json_def)
    then show ?thesis using surf same by (auto simp: a' msg_string_def)
  qed
  then show ?thesis using m renders_exactly by blast
qed

text \<open>A runtime whose numbers are float64s, as far as one integer goes: the one after \<open>2^53\<close> is rounded.\<close>

definition float_lib :: proto_lib where
  "float_lib = json_lib\<lparr>sp_new_value := \<lambda>v. sp_new_value json_lib
     (if v = JNum ''9007199254740993'' then JNum ''9007199254740992'' else v)\<rparr>"

lemma decodes_float_lib: "decodes float_lib v"
  unfolding decodes_def
proof (intro allI impI)
  fix w b
  assume new: "sp_new_value float_lib v = Ok w" and "pb_marshal float_lib (PB_Value w) = Ok b"
  then have b: "b = to_bytes (json_print w)" and w: "json_ok (max_nesting - 1) w" "json_norm w = w"
    by (auto simp: float_lib_def json_lib_def split: if_splits)
  then have "json_parse (json_print w) = Some w" by (simp add: json_parse_print json_ok_nesting)
  then show "pb_unmarshal_value float_lib b = Some w \<and> (\<exists>s u. pj_marshal_value float_lib w = Ok s \<and> json_parse s = Some u)"
    using w by (simp add: b float_lib_def json_lib_def)
qed

lemma rendered_float_lib:
  "json_ok (max_nesting - 1) w \<Longrightarrow> json_norm w = w \<Longrightarrow>
   w = (if v = JNum ''9007199254740993'' then JNum ''9007199254740992'' else v) \<Longrightarrow> rendered float_lib v = Some w"
  by (auto simp: rendered_def float_lib_def json_lib_def json_parse_print json_ok_nesting)

lemma float64_rounded_in_range: "\<not> float64_overflow ''9007199254740993''"
proof -
  define limit :: nat where "limit = 2 ^ 1024 - 2 ^ 970"
  have "(2 :: nat) ^ 54 \<le> limit" unfolding limit_def by simp
  then have "\<not> limit \<le> 9007199254740993" by simp
  moreover have "num_mantissa ''9007199254740993'' = (''9007199254740993'', [])"
    "num_exponent ''9007199254740993'' = 0" by code_simp+
  moreover have "digits_val 0 ''9007199254740993'' = 9007199254740993" by (simp add: code_def)
  ultimately show ?thesis unfolding float64_overflow_def limit_def [symmetric] by simp
qed

lemma mcp_call_round_trip_witness:
  "\<exists>call. build_mcp_tool_call_from_name_and_args float_lib ''read''
        (json_print (jobj [(''line'', JNum ''9007199254740993''), (''path'', jstr ''go.mod'')])) ''text'' = Ok [(''mcp_tool_call'', call)]
    \<and> surfaced_function float_lib (Some (Some (''mcp_tool_call'', call))) =
        Some \<lparr>tcf_name = ''read'', tcf_arguments =
          json_print (marshal_raw_map [(''line'', JNum ''9007199254740992''), (''path'', jstr ''go.mod'')])\<rparr>"
proof -
  let ?n = "JNum ''9007199254740993''" and ?n' = "JNum ''9007199254740992''"
  let ?args = "[(''line'', ?n), (''path'', jstr ''go.mod'')]"
  let ?v = "jobj ?args"
  have "num_ok ''9007199254740993''" "num_ok ''9007199254740992''" by code_simp+
  then have num: "json_ok d ?n" "json_ok d ?n'" for d by simp_all
  have small: "\<not> float64_overflow ''9007199254740993''" by (rule float64_rounded_in_range)
  have "json_ok (Suc 9999) ?v" using num by (simp only: json_ok_jobj) simp
  then have "json_ok max_nesting ?v" by (simp add: max_nesting_def)
  then have un: "json_unmarshal (json_print ?v) = Ok ?v" by (simp add: json_unmarshal_print)
  have "utf8_valid ''path''" "utf8_valid ''line''" by (rule utf8_valid_ascii, simp add: code_def)+
  then have dec: "dec_raw_map ?v = Ok ?args" by (simp add: jobj_def unquote_quote_lit)
  have "wide_space (CHR ''{'' # t) = 0" for t by (cases t) (auto simp: code_def split: list.split)
  then have blank: "\<not> is_blank (json_print ?v)"
    by (simp add: jobj_def ascii_space_def code_def Let_def)
  have arg: "arg_to_value float_lib ''read'' (''path'', jstr ''go.mod'') = Ok (''path'', VBytes (to_bytes (json_print (jstr ''go.mod''))))"
    "arg_to_value float_lib ''read'' (''line'', ?n) = Ok (''line'', VBytes (to_bytes (json_print ?n')))"
    using num small by (simp_all add: arg_to_value_def tool_parameters_to_struct_value_def dec_any_def float_lib_def json_lib_def) (simp add: jstr_def)
  obtain c where "set_generic_result_field md_McpToolCall ''text'' 0
      [(''args'', VMsg [(''name'', VString ''read''), (''args'', VMap [(''line'', VBytes (to_bytes ''9007199254740992'')),
        (''path'', VBytes (to_bytes (json_print (jstr ''go.mod''))))])])] = Ok c"
    using mcp_result_set [of "''text''"] by auto
  then obtain m where run: "build_mcp_tool_call_from_name_and_args float_lib ''read'' (json_print ?v) ''text'' = Ok m"
    using un dec blank arg by (simp add: build_mcp_tool_call_from_name_and_args_def mcp_args_message_def)
  obtain call members where m: "m = [(''mcp_tool_call'', call)]" "list_all2 (renders float_lib) ?args members"
    "surfaced_function float_lib (Some (Some (''mcp_tool_call'', call))) =
        Some \<lparr>tcf_name = ''read'', tcf_arguments = json_print (marshal_raw_map members)\<rparr>"
    using mcp_call_round_trip [OF _ _ blank un dec run] decodes_float_lib by blast
  have "rendered float_lib ?n = Some ?n'" "rendered float_lib (jstr ''go.mod'') = Some (jstr ''go.mod'')"
    using num by (auto intro!: rendered_float_lib simp: jstr_def)
  then have "members = [(''line'', ?n'), (''path'', jstr ''go.mod'')]"
    using m(2) by (auto simp: renders_def list_all2_Cons1)
  then show ?thesis using run m by blast
qed

end
