(* ===== verification/Stream.thy ===== *)
theory Stream
  imports Exec_Message Conversation
begin

section \<open>The Run exchange\<close>

text \<open>
  \<open>internal/executor/stream.go\<close>: one bidirectional exchange with the server, its answers to the
  server's requests, and the retries. What the HTTP client delivers is a parameter: the outcome of
  the request, and for a response the successive results of reading its body. The model follows the read
  loop; heartbeats are interleaved with its writes in \<open>Writers\<close>, and here the outcome of each of its writes
  (\<open>kw_fate\<close>) is arbitrary. The idle watchdog and the overall deadline show as the error of a read.
\<close>

subsection \<open>HTTP\<close>

record http_request =
  hr_method :: string
  hr_url :: string
  hr_headers :: "(string \<times> string) list"

text \<open>
  \<open>hb_reads\<close>: the bytes and the error of each successive read of the body. When they are exhausted the
  stream is silent until the watchdog cancels it; \<open>hb_last\<close> is the error that the pending read then returns.
\<close>

record http_body =
  hb_reads :: "(bytes \<times> string option) list"
  hb_last :: string

datatype http_outcome =
    BadRequest string
  | TransportFailed string
  | Responded nat http_body

definition run_procedure_path :: string where
  "run_procedure_path = ''/agent.v1.AgentService/Run''"

definition new_request_id :: "entropy \<Rightarrow> string \<times> entropy" where
  "new_request_id en =
     (case new_message_id en of (Ok i, en') \<Rightarrow> (i, en') | (_, en') \<Rightarrow> (''unknown'', en'))"

definition run_http_request :: "string \<Rightarrow> string \<Rightarrow> string \<Rightarrow> string \<Rightarrow> http_request" where
  "run_http_request baseURL accessToken version requestID =
     \<lparr>hr_method = ''POST'', hr_url = baseURL @ run_procedure_path,
      hr_headers = [(''content-type'', ''application/connect+proto''), (''connect-protocol-version'', ''1''),
        (''te'', ''trailers''), (''authorization'', ''Bearer '' @ accessToken), (''x-ghost-mode'', ''true''),
        (''x-cursor-client-type'', ''cli''), (''x-cursor-client-version'', version), (''x-request-id'', requestID)]\<rparr>"

subsection \<open>Answering the KV handshake\<close>

record exchange =
  xs_result :: run_stream_result
  xs_kv :: kv_writer
  xs_blobs :: blob_store

text \<open>A missing blob is nil, and so is a stored empty one (\<open>append([]byte(nil), data...)\<close>): neither populates \<open>blob_data\<close>.\<close>

definition blob_data_field :: "bytes option \<Rightarrow> bytes option" where
  "blob_data_field d = (if d = Some [] then None else d)"

definition handle_kv_server_message ::
  "proto_lib \<Rightarrow> kv_server_message \<Rightarrow> exchange \<Rightarrow> unit go_result \<times> exchange" where
  "handle_kv_server_message pl kvMsg x =
     (case ksm_message kvMsg of
        Some (GetBlobArgs i) \<Rightarrow>
          (let (r, kv') = kv_write pl (KvClientMessage \<lparr>kcm_id = ksm_id kvMsg,
                 kcm_message = GetBlobResult (blob_data_field (blob_get (xs_blobs x) i))\<rparr>) (xs_kv x)
           in (r, x\<lparr>xs_kv := kv'\<rparr>))
      | Some (SetBlobArgs i d) \<Rightarrow>
          (let (r, kv') = kv_write pl (KvClientMessage \<lparr>kcm_id = ksm_id kvMsg, kcm_message = SetBlobResult\<rparr>) (xs_kv x)
           in (r, x\<lparr>xs_kv := kv', xs_blobs := put_known_id i d (xs_blobs x)\<rparr>))
      | None \<Rightarrow> (Ok (), x))"

subsection \<open>One frame\<close>

definition is_turn_ended :: "interaction_update \<Rightarrow> bool" where
  "is_turn_ended u = (u = TurnEnded)"

text \<open>What a frame makes the read loop do: \<open>None\<close> to go on, \<open>Some r\<close> to return with error \<open>r\<close>.\<close>

definition handle_server_message ::
  "proto_lib \<Rightarrow> server_message \<Rightarrow> exchange \<Rightarrow> unit go_result option \<times> exchange" where
  "handle_server_message pl msg x =
     (case msg of
        ServerInteractionUpdate (Some u) \<Rightarrow>
          (if is_turn_ended u then Some (Ok ()) else None,
           x\<lparr>xs_result := (xs_result x)\<lparr>rsr_updates := rsr_updates (xs_result x) @ [u]\<rparr>\<rparr>)
      | ServerInteractionUpdate None \<Rightarrow> (None, x)
      | ServerKv kvMsg \<Rightarrow>
          (let (r, x') = handle_kv_server_message pl kvMsg x
           in (if r = Ok () then None else Some (wrap_err ''cursor: failed to answer KV handshake'' r), x'))
      | ServerExec execMsg \<Rightarrow>
          (let (r, kv', result') = handle_exec_server_message pl execMsg (xs_kv x) (xs_result x)
           in (if r = Ok () then None else Some (wrap_err ''cursor: failed to answer exec message'' r),
               x\<lparr>xs_kv := kv', xs_result := result'\<rparr>))
      | ServerCheckpoint (Some cp) \<Rightarrow>
          (None, x\<lparr>xs_result := (xs_result x)\<lparr>rsr_checkpoint := Some cp\<rparr>\<rparr>)
      | ServerCheckpoint None \<Rightarrow> (None, x)
      | ServerOther \<Rightarrow> (None, x))"

definition handle_frame :: "proto_lib \<Rightarrow> connect_frame \<Rightarrow> exchange \<Rightarrow> unit go_result option \<times> exchange" where
  "handle_frame pl f x =
     (if cf_flags f AND connect_end_stream_flag \<noteq> 0 then (Some (parse_connect_end_stream (cf_payload f)), x)
      else (case wrap_err ''cursor: failed to decode server message'' (pb_unmarshal_server pl (cf_payload f)) of
              Err e \<Rightarrow> (Some (Err e), x)
            | Panic p \<Rightarrow> (Some (Panic p), x)
            | Ok msg \<Rightarrow> handle_server_message pl msg x))"

subsection \<open>The read loop\<close>

lemma extract_frame_shrinks: "extract_frame b = Ok (Some (f, r)) \<Longrightarrow> length r < length b"
  by (auto simp: extract_frame_def Let_def word_le_nat_alt not_less split: if_splits)

text \<open>The inner loop: the frames that are complete in the buffer.\<close>

function process_frames :: "proto_lib \<Rightarrow> bytes \<Rightarrow> exchange \<Rightarrow> unit go_result option \<times> bytes \<times> exchange" where
  "process_frames pl pending x =
     (case extract_frame pending of
        Err e \<Rightarrow> (Some (Err e), pending, x)
      | Panic p \<Rightarrow> (Some (Panic p), pending, x)
      | Ok None \<Rightarrow> (None, pending, x)
      | Ok (Some (f, rest)) \<Rightarrow>
          (case handle_frame pl f x of
             (Some r, x') \<Rightarrow> (Some r, rest, x')
           | (None, x') \<Rightarrow> process_frames pl rest x'))"
  by pat_completeness auto
termination
  by (relation "measure (\<lambda>(pl, pending, x). length pending)") (auto dest: extract_frame_shrinks)

declare process_frames.simps [simp del]

definition stream_drop_error :: "string \<Rightarrow> unit go_result" where
  "stream_drop_error e = Err (''cursor: streaming run ended without a Connect end-of-stream frame (mid-stream drop): '' @ e)"

text \<open>The outer loop; the read after the last delivers nothing but \<open>last_err\<close>.\<close>

fun read_loop ::
  "proto_lib \<Rightarrow> (bytes \<times> string option) list \<Rightarrow> string \<Rightarrow> bytes \<Rightarrow> exchange \<Rightarrow> unit go_result \<times> exchange" where
  "read_loop pl [] last_err pending x =
     (case process_frames pl pending x of
        (Some r, pending', x') \<Rightarrow> (r, x')
      | (None, pending', x') \<Rightarrow> (stream_drop_error last_err, x'))"
| "read_loop pl ((chunk, errRead) # rds) last_err pending x =
     (case process_frames pl (pending @ chunk) x of
        (Some r, pending', x') \<Rightarrow> (r, x')
      | (None, pending', x') \<Rightarrow>
          (case errRead of
             Some e \<Rightarrow> (stream_drop_error e, x')
           | None \<Rightarrow> read_loop pl rds last_err pending' x'))"

text \<open>\<open>io.ReadAll\<close> of at most 4096 bytes, errors ignored.\<close>

fun read_limited :: "(bytes \<times> string option) list \<Rightarrow> bytes" where
  "read_limited [] = []"
| "read_limited ((chunk, e) # rds) = (if e = None then chunk @ read_limited rds else chunk)"

subsection \<open>runCursorStreamOnce\<close>

text \<open>
  The outcome of one attempt: the result (nil when the exchange did not start), the error, and the
  state the attempt leaves behind. \<open>transport\<close> and \<open>fate\<close> are the network's behaviour in this attempt.
\<close>

definition run_cursor_stream_once ::
  "proto_lib \<Rightarrow> (http_request \<Rightarrow> http_outcome) \<Rightarrow> (nat \<Rightarrow> (nat \<times> string) option) \<Rightarrow> string \<Rightarrow> string \<Rightarrow> string
    \<Rightarrow> agent_run_request \<Rightarrow> blob_store \<Rightarrow> entropy
    \<Rightarrow> (run_stream_result option \<times> unit go_result) \<times> blob_store \<times> entropy" where
  "run_cursor_stream_once pl transport fate version baseURL accessToken runReq blobs en =
     (case wrap_err ''cursor: failed to marshal initial run request'' (pb_marshal pl (PB_ClientMessage (RunRequest runReq))) of
        Err e \<Rightarrow> ((None, Err e), blobs, en)
      | Panic p \<Rightarrow> ((None, Panic p), blobs, en)
      | Ok initialBytes \<Rightarrow>
          let (requestID, en') = new_request_id en in
          (case transport (run_http_request baseURL accessToken version requestID) of
             BadRequest e \<Rightarrow> ((None, Err (''cursor: failed to build streaming run request: '' @ e)), blobs, en)
           | TransportFailed e \<Rightarrow> ((None, Err (''cursor: streaming run request failed: '' @ e)), blobs, en')
           | Responded status body \<Rightarrow>
               if status \<noteq> 200
               then ((None, Err (''cursor: streaming run request returned status '' @ nat_str status @ '': ''
                       @ of_bytes (take 4096 (read_limited (hb_reads body))))), blobs, en')
               else
                 let kv0 = \<lparr>kw_closed = False, kw_last_write_err = None, kw_pipe = [], kw_fate = fate\<rparr>;
                     (errWrite, kv1) = pipe_write (frame_connect_message initialBytes 0) kv0;
                     kv2 = (case errWrite of None \<Rightarrow> kv1 | Some e \<Rightarrow> record_write_err e kv1);
                     (r, x) = read_loop pl (hb_reads body) (hb_last body) []
                                \<lparr>xs_result = empty_result, xs_kv = kv2, xs_blobs = blobs\<rparr>
                 in ((Some (xs_result x), r), xs_blobs x, en')))"

subsection \<open>Retries\<close>

definition max_stream_attempts :: nat where
  "max_stream_attempts = 3"

definition retryable_signatures :: "string list" where
  "retryable_signatures = [''GOAWAY'', ''graceful shutdown'', ''cannot retry err'', ''REFUSED_STREAM'',
     ''connection reset by peer'', ''use of closed network connection'', ''broken pipe'', ''unexpected EOF'',
     ''server closed idle connection'', ''http2: client connection lost'']"

fun is_retryable_stream_error :: "unit go_result \<Rightarrow> bool" where
  "is_retryable_stream_error (Err msg) = list_ex (contains msg) retryable_signatures"
| "is_retryable_stream_error r = False"

definition produced :: "run_stream_result option \<Rightarrow> bool" where
  "produced result =
     (case result of None \<Rightarrow> False | Some r \<Rightarrow> rsr_updates r \<noteq> [] \<or> rsr_tool_requests r \<noteq> [])"

text \<open>
  What the outside does in each attempt: the response, the outcome of the writes, and whether the caller's
  context is done while the plugin waits before the next attempt.
\<close>

record stream_env =
  se_transport :: "nat \<Rightarrow> http_request \<Rightarrow> http_outcome"
  se_fate :: "nat \<Rightarrow> nat \<Rightarrow> (nat \<times> string) option"
  se_ctx_done :: "nat \<Rightarrow> bool"

text \<open>The attempts from number \<open>attempt\<close> on, \<open>left\<close> of them.\<close>

fun stream_attempts ::
  "proto_lib \<Rightarrow> stream_env \<Rightarrow> string \<Rightarrow> string \<Rightarrow> string \<Rightarrow> agent_run_request \<Rightarrow> nat \<Rightarrow> nat
    \<Rightarrow> run_stream_result option \<times> unit go_result \<Rightarrow> blob_store \<Rightarrow> entropy
    \<Rightarrow> (run_stream_result option \<times> unit go_result) \<times> blob_store \<times> entropy" where
  "stream_attempts pl env version baseURL accessToken runReq 0 attempt prev blobs en = (prev, blobs, en)"
| "stream_attempts pl env version baseURL accessToken runReq (Suc left) attempt prev blobs en =
     (let ((result, err), blobs', en') =
        run_cursor_stream_once pl (se_transport env attempt) (se_fate env attempt) version baseURL accessToken runReq blobs en
      in if is_ok err \<or> is_panic err then ((result, err), blobs', en')
         else if produced result \<or> attempt = max_stream_attempts \<or> \<not> is_retryable_stream_error err
         then ((result, err), blobs', en')
         else if se_ctx_done env attempt then ((result, err), blobs', en')
         else stream_attempts pl env version baseURL accessToken runReq left (Suc attempt) (result, err) blobs' en')"

definition run_cursor_stream ::
  "proto_lib \<Rightarrow> stream_env \<Rightarrow> string \<Rightarrow> string \<Rightarrow> string \<Rightarrow> agent_run_request \<Rightarrow> blob_store \<Rightarrow> entropy
    \<Rightarrow> (run_stream_result option \<times> unit go_result) \<times> blob_store \<times> entropy" where
  "run_cursor_stream pl env version baseURL accessToken runReq blobs en =
     stream_attempts pl env version baseURL accessToken runReq max_stream_attempts 1 (None, Ok ()) blobs en"

end
