(* ===== verification/Stream_Laws.thy ===== *)
theory Stream_Laws
  imports Stream
begin

section \<open>What an exchange guarantees\<close>

text \<open>
  The read loop of \<open>Stream\<close> against an abstract one that handles a list of frames: how the
  network cuts the response into reads makes no difference, a turn that ends without the server saying
  so is an error, and a retry never repeats content.
\<close>

subsection \<open>The loop over frames\<close>

fun run_frames :: "proto_lib \<Rightarrow> connect_frame list \<Rightarrow> exchange \<Rightarrow> unit go_result option \<times> exchange" where
  "run_frames pl [] x = (None, x)"
| "run_frames pl (f # fs) x =
     (case handle_frame pl f x of (Some r, x') \<Rightarrow> (Some r, x') | (None, x') \<Rightarrow> run_frames pl fs x')"

lemma extract_frame_panic_more:
  "extract_frame b = Panic p \<Longrightarrow> length (b @ c) < 4294967296 \<Longrightarrow> extract_frame (b @ c) = Panic p"
  by (auto simp: extract_frame_eq frame_length_append split: if_splits)

lemma extract_frame_no_error: "extract_frame b \<noteq> Err e"
  by (auto simp: extract_frame_def Let_def)

text \<open>More bytes: a loop that stopped stops the same way, one that ran dry goes on with what it had left.\<close>

lemma process_frames_more:
  assumes "length (b @ c) < 4294967296" and "process_frames pl b x = (r, p, x')"
  shows "case r of
      Some e \<Rightarrow> fst (process_frames pl (b @ c) x) = r \<and> snd (snd (process_frames pl (b @ c) x)) = x'
    | None \<Rightarrow> process_frames pl (b @ c) x = process_frames pl (p @ c) x' \<and> length p \<le> length b"
  using assms
proof (induction pl b x rule: process_frames.induct)
  case (1 pl b x)
  show ?case
  proof (cases "extract_frame b")
    case (Ok v)
    show ?thesis
    proof (cases v)
      case None
      with "1.prems" Ok show ?thesis by (auto simp: process_frames.simps [of pl b])
    next
      case (Some fr)
      obtain f rest where fr: "fr = (f, rest)" by (cases fr)
      have more: "extract_frame (b @ c) = Ok (Some (f, rest @ c))"
        using extract_frame_more(1) [OF "1.prems"(1)] Ok Some fr by simp
      have short: "length rest < length b" using extract_frame_shrinks Ok Some fr by blast
      obtain r1 x1 where h: "handle_frame pl f x = (r1, x1)" by (cases "handle_frame pl f x")
      show ?thesis
      proof (cases r1)
        case None
        have "process_frames pl rest x1 = (r, p, x')"
          using "1.prems"(2) Ok Some fr h None by (simp add: process_frames.simps [of pl b])
        moreover have "length (rest @ c) < 4294967296" using "1.prems"(1) short by simp
        moreover have "process_frames pl (b @ c) x = process_frames pl (rest @ c) x1"
          using more h None by (simp add: process_frames.simps [of pl "b @ c"])
        ultimately show ?thesis
          using "1.IH" [OF Ok Some fr [symmetric] h [symmetric] None] short by (auto split: option.splits)
      next
        case (Some e)
        then show ?thesis using "1.prems"(2) Ok \<open>v = Some fr\<close> fr h more
          by (auto simp: process_frames.simps [of pl b] process_frames.simps [of pl "b @ c"])
      qed
    qed
  next
    case (Err e)
    then show ?thesis by (simp add: extract_frame_no_error)
  next
    case (Panic q)
    have "process_frames pl (b @ c) x = (Some (Panic q), b @ c, x)"
      using extract_frame_panic_more [OF Panic "1.prems"(1)] by (simp add: process_frames.simps [of pl "b @ c"])
    then show ?thesis using "1.prems"(2) Panic by (auto simp: process_frames.simps [of pl b])
  qed
qed

subsection \<open>Chunking\<close>

text \<open>The bytes a body delivers, and the error that ends it.\<close>

fun body_error :: "(bytes \<times> string option) list \<Rightarrow> string \<Rightarrow> string" where
  "body_error [] last_err = last_err"
| "body_error ((chunk, e) # rds) last_err = (case e of Some err \<Rightarrow> err | None \<Rightarrow> body_error rds last_err)"

lemma read_loop_chunks:
  "length (pending @ read_limited rds) < 4294967296 \<Longrightarrow>
   read_loop pl rds last_err pending x = read_loop pl [] (body_error rds last_err) (pending @ read_limited rds) x"
proof (induction rds arbitrary: pending x)
  case (Cons ce rds)
  obtain chunk e where ce: "ce = (chunk, e)" by (cases ce)
  obtain r p x' where pr: "process_frames pl (pending @ chunk) x = (r, p, x')"
    by (cases "process_frames pl (pending @ chunk) x") auto
  show ?case
  proof (cases e)
    case (Some err)
    then show ?thesis using pr ce by (auto split: option.split)
  next
    case None
    have len: "length ((pending @ chunk) @ read_limited rds) < 4294967296"
      using Cons.prems None ce by simp
    note more = process_frames_more [OF len pr]
    show ?thesis
    proof (cases r)
      case None
      then have "length (p @ read_limited rds) < 4294967296" using more len by simp
      then show ?thesis using Cons.IH [of p x'] more pr None \<open>e = None\<close> ce by simp
    next
      case (Some q)
      then show ?thesis using more pr \<open>e = None\<close> ce
        by (cases "process_frames pl ((pending @ chunk) @ read_limited rds) x") auto
    qed
  qed
qed simp

text \<open>The loop over the bytes of whole frames and an incomplete rest is the loop over the frames.\<close>

lemma process_frames_run:
  assumes "length (concat (map frame_bytes fs) @ rest) < 4294967296" and "extract_frame rest = Ok None"
  shows "\<exists>p. process_frames pl (concat (map frame_bytes fs) @ rest) x = (fst (run_frames pl fs x), p, snd (run_frames pl fs x))"
  using assms(1)
proof (induction fs arbitrary: x)
  case Nil
  then show ?case using assms(2) by (simp add: process_frames.simps [of pl rest])
next
  case (Cons f fs)
  have "extract_frame (frame_bytes f @ (concat (map frame_bytes fs) @ rest)) = Ok (Some (f, concat (map frame_bytes fs) @ rest))"
    using Cons.prems by (intro extract_frame_enc) simp
  moreover have "length (concat (map frame_bytes fs) @ rest) < 4294967296" using Cons.prems by simp
  ultimately show ?case
    using Cons.IH by (subst process_frames.simps) (auto split: prod.splits option.splits)
qed

lemma read_loop_frames:
  assumes "read_limited rds = concat (map frame_bytes fs) @ rest" and "extract_frame rest = Ok None"
    and "length (read_limited rds) < 4294967296"
  shows "read_loop pl rds last_err [] x =
    (case run_frames pl fs x of
       (Some r, x') \<Rightarrow> (r, x') | (None, x') \<Rightarrow> (stream_drop_error (body_error rds last_err), x'))"
  using process_frames_run [of fs rest pl x] assms read_loop_chunks [of "[]" rds pl last_err x]
  by (auto split: prod.splits option.splits)

text \<open>
  C26: how the network cuts the response into reads makes no difference: two bodies that deliver the same bytes
  and end with the same error give the same outcome, the same answers on the wire and the same
  blobs, wherever the cuts fall in the frames and their headers (below 4 GiB).
\<close>

theorem chunking_irrelevant:
  assumes "read_limited rds = read_limited rds'" and "body_error rds e = body_error rds' e'"
    and "length (read_limited rds) < 2 ^ 32"
  shows "read_loop pl rds e [] x = read_loop pl rds' e' [] x"
  using assms read_loop_chunks [of "[]" rds pl e x] read_loop_chunks [of "[]" rds' pl e' x] by simp

lemma chunking_irrelevant_witness:
  "\<forall>pl x. read_loop pl [([2, 0], None), ([0, 0, 2, 123], None), ([125], None)] ''eof'' [] x
     = read_loop pl [([2, 0, 0, 0, 2, 123, 125], Some ''eof'')] ''never'' [] x"
  by (intro allI chunking_irrelevant) simp_all

subsection \<open>Endings\<close>

text \<open>The server says that the turn is over: a clean end-of-stream frame, or the turn-ended update.\<close>

definition ends_turn :: "proto_lib \<Rightarrow> connect_frame \<Rightarrow> bool" where
  "ends_turn pl f =
     (if cf_flags f AND connect_end_stream_flag \<noteq> 0 then parse_connect_end_stream (cf_payload f) = Ok ()
      else pb_unmarshal_server pl (cf_payload f) = Ok (ServerInteractionUpdate (Some TurnEnded)))"

definition frame_updates :: "proto_lib \<Rightarrow> connect_frame \<Rightarrow> interaction_update list" where
  "frame_updates pl f =
     (if cf_flags f AND connect_end_stream_flag \<noteq> 0 then []
      else case pb_unmarshal_server pl (cf_payload f) of
             Ok (ServerInteractionUpdate (Some u)) \<Rightarrow> [u] | _ \<Rightarrow> [])"

lemma exec_keeps_updates [simp]:
  "rsr_updates (snd (snd (handle_exec_server_message pl e kv result))) = rsr_updates result"
  by (auto simp: handle_exec_server_message_def Let_def split: option.splits prod.splits go_result.splits)

lemma kv_keeps_result [simp]: "xs_result (snd (handle_kv_server_message pl m x)) = xs_result x"
  by (auto simp: handle_kv_server_message_def split: option.splits kv_request.splits prod.splits)

lemma handle_frame_updates:
  "rsr_updates (xs_result (snd (handle_frame pl f x))) = rsr_updates (xs_result x) @ frame_updates pl f"
proof (cases "cf_flags f AND connect_end_stream_flag \<noteq> 0")
  case True
  then show ?thesis by (simp add: handle_frame_def frame_updates_def)
next
  case False
  show ?thesis
  proof (cases "pb_unmarshal_server pl (cf_payload f)")
    case (Ok m)
    have kv: "xs_result x' = xs_result x" if "handle_kv_server_message pl k x = (r, x')" for k r x'
      using kv_keeps_result [of pl k x] that by simp
    have ex: "rsr_updates result' = rsr_updates (xs_result x)"
      if "handle_exec_server_message pl k (xs_kv x) (xs_result x) = (r, kv', result')" for k r kv' result'
      using exec_keeps_updates [of pl k "xs_kv x" "xs_result x"] that by simp
    show ?thesis
      using False Ok
      by (cases m) (auto simp: handle_frame_def frame_updates_def handle_server_message_def
          split: option.splits prod.splits dest: kv ex)
  qed (use False in \<open>simp_all add: handle_frame_def frame_updates_def\<close>)
qed

lemma handle_frame_ok:
  assumes "handle_frame pl f x = (Some (Ok ()), x')" shows "ends_turn pl f"
  using assms
  by (auto simp: handle_frame_def ends_turn_def handle_server_message_def is_turn_ended_def
      split: if_splits go_result.splits server_message.splits option.splits prod.splits)

lemma run_frames_updates:
  assumes "run_frames pl fs x = (r, x')"
  shows "\<exists>n \<le> length fs. rsr_updates (xs_result x') = rsr_updates (xs_result x) @ concat (map (frame_updates pl) (take n fs))
    \<and> (r = None \<longrightarrow> n = length fs) \<and> (r = Some (Ok ()) \<longrightarrow> 0 < n \<and> ends_turn pl (fs ! (n - 1)))"
  using assms
proof (induction fs arbitrary: x)
  case (Cons f fs)
  obtain r1 x1 where h: "handle_frame pl f x = (r1, x1)" by (cases "handle_frame pl f x")
  have u: "rsr_updates (xs_result x1) = rsr_updates (xs_result x) @ frame_updates pl f"
    using handle_frame_updates [of pl f x] h by simp
  show ?case
  proof (cases r1)
    case None
    then have "run_frames pl fs x1 = (r, x')" using Cons.prems h by simp
    from Cons.IH [OF this] obtain n where n: "n \<le> length fs"
      "rsr_updates (xs_result x') = rsr_updates (xs_result x1) @ concat (map (frame_updates pl) (take n fs))"
      "r = None \<longrightarrow> n = length fs" "r = Some (Ok ()) \<longrightarrow> 0 < n \<and> ends_turn pl (fs ! (n - 1))" by blast
    then show ?thesis using u by (intro exI [of _ "Suc n"]) (auto simp: nth_Cons')
  next
    case (Some e)
    then have "r = Some e" "x' = x1" using Cons.prems h by simp_all
    then show ?thesis using u h Some handle_frame_ok [of pl f x x1]
      by (intro exI [of _ "Suc 0"]) auto
  qed
qed simp

text \<open>
  C2: no turn is silently truncated. When the exchange returns without an error, the server has ended the turn
  itself: among the frames it sent there is an end-of-stream frame without an error or a turn-ended
  update, and the result holds the updates of all the frames up to there, in order. Otherwise the
  error is returned together with the updates of the frames that were handled.
\<close>

theorem no_silent_truncation:
  assumes "read_limited rds = concat (map frame_bytes fs) @ rest" and "extract_frame rest = Ok None"
    and "length (read_limited rds) < 2 ^ 32"
    and "read_loop pl rds e [] x = (r, x')" and "rsr_updates (xs_result x) = []"
  shows "\<exists>n \<le> length fs. rsr_updates (xs_result x') = concat (map (frame_updates pl) (take n fs))
    \<and> (r = Ok () \<longrightarrow> 0 < n \<and> ends_turn pl (fs ! (n - 1)))
    \<and> (fst (run_frames pl fs x) = None \<longrightarrow> n = length fs \<and> r = stream_drop_error (body_error rds e))"
proof -
  obtain q y where q: "run_frames pl fs x = (q, y)" by (cases "run_frames pl fs x")
  have "(r, x') = (case q of Some r \<Rightarrow> (r, y) | None \<Rightarrow> (stream_drop_error (body_error rds e), y))"
    using read_loop_frames [OF assms(1,2)] assms(3,4) q by (auto split: option.splits)
  moreover obtain n where "n \<le> length fs" "rsr_updates (xs_result y) = concat (map (frame_updates pl) (take n fs))"
      "q = None \<longrightarrow> n = length fs" "q = Some (Ok ()) \<longrightarrow> 0 < n \<and> ends_turn pl (fs ! (n - 1))"
    using run_frames_updates [OF q] assms(5) by auto
  ultimately show ?thesis
    using q by (intro exI [of _ n]) (auto simp: stream_drop_error_def split: option.splits)
qed

text \<open>A runtime that decodes every server message as the turn-ended update.\<close>

definition ending_lib :: proto_lib where
  "ending_lib = \<lparr>pb_marshal = (\<lambda>m. Ok []), pb_unmarshal_server = (\<lambda>b. Ok (ServerInteractionUpdate (Some TurnEnded))),
     pb_unmarshal_value = (\<lambda>b. None), sp_new_value = Ok, pj_marshal_value = (\<lambda>v. Ok ''null''),
     pj_marshal = (\<lambda>n m. Ok ''{}''), pj_unmarshal = (\<lambda>n s. ([], None))\<rparr>"

definition start :: exchange where
  "start = \<lparr>xs_result = empty_result,
     xs_kv = \<lparr>kw_closed = False, kw_last_write_err = None, kw_pipe = [], kw_fate = \<lambda>n. None\<rparr>, xs_blobs = new_blob_store\<rparr>"

lemma no_silent_truncation_witness:
  "rsr_updates (xs_result (snd (read_loop ending_lib [(frame_connect_message [7] 0 @ [0, 0], None)] ''eof'' [] start))) = [TurnEnded]"
proof -
  let ?f = "\<lparr>cf_flags = 0, cf_payload = [7]\<rparr>"
  let ?rds = "[(frame_connect_message [7] 0 @ [0, 0], None :: string option)]"
  have bytes: "read_limited ?rds = concat (map frame_bytes [?f]) @ [0, 0]" by (simp add: frame_bytes_def)
  have rest: "extract_frame [0, 0] = Ok None" by (simp add: extract_frame_def)
  have ends: "run_frames ending_lib [?f] start = (Some (Ok ()), start\<lparr>xs_result := empty_result\<lparr>rsr_updates := [TurnEnded]\<rparr>\<rparr>)"
    by (simp add: handle_frame_def ending_lib_def handle_server_message_def is_turn_ended_def start_def empty_result_def)
  obtain r x' where loop: "read_loop ending_lib ?rds ''eof'' [] start = (r, x')" by (cases "read_loop ending_lib ?rds ''eof'' [] start")
  have "r = Ok ()" using read_loop_frames [OF bytes rest, of ending_lib "''eof''" start] ends loop by simp
  moreover have "frame_updates ending_lib ?f = [TurnEnded]" by (simp add: frame_updates_def ending_lib_def)
  ultimately show ?thesis
    using no_silent_truncation [OF bytes rest _ loop] loop by (auto simp: start_def empty_result_def le_Suc_eq)
qed

subsection \<open>The KV handshake\<close>

definition kv_sets :: "kv_server_message list \<Rightarrow> (bytes \<times> bytes) list" where
  "kv_sets msgs = concat (map (\<lambda>m. case ksm_message m of Some (SetBlobArgs i d) \<Rightarrow> [(i, d)] | _ \<Rightarrow> []) msgs)"

lemma handle_kv_blobs: "xs_blobs (snd (handle_kv_server_message pl m x)) = blobs.put_all (kv_sets [m]) (xs_blobs x)"
  by (auto simp: handle_kv_server_message_def kv_sets_def split: option.splits kv_request.splits prod.splits)

lemma handle_kvs_blobs:
  "xs_blobs (foldl (\<lambda>x m. snd (handle_kv_server_message pl m x)) x msgs) = blobs.put_all (kv_sets msgs) (xs_blobs x)"
proof (induction msgs arbitrary: x)
  case Nil
  then show ?case by (simp add: kv_sets_def)
next
  case (Cons m msgs)
  have "kv_sets (m # msgs) = kv_sets [m] @ kv_sets msgs" by (simp add: kv_sets_def)
  then show ?case using Cons.IH handle_kv_blobs [of pl m x] by (simp add: put_all_append)
qed

text \<open>
  the KV handshake is a faithful store. After any sequence of the server's set and get requests, a get
  is answered, under its own request id, with the data the server last set for that blob id, or else with the
  data the plugin had registered; a missing and an empty blob both answer without data.
\<close>

theorem kv_get_answers_last_set:
  assumes "x' = foldl (\<lambda>x m. snd (handle_kv_server_message pl m x)) x msgs"
    and "d = (case map_of (rev (kv_sets msgs)) i of Some d \<Rightarrow> Some d | None \<Rightarrow> blob_get (xs_blobs x) i)"
    and "pb_marshal pl (PB_ClientMessage (KvClientMessage \<lparr>kcm_id = n,
           kcm_message = GetBlobResult (if d = Some [] then None else d)\<rparr>)) = Ok raw"
    and "\<not> kw_closed (xs_kv x')" and "kw_fate (xs_kv x') 0 = None"
  shows "\<exists>y. handle_kv_server_message pl \<lparr>ksm_id = n, ksm_message = Some (GetBlobArgs i)\<rparr> x' = (Ok (), y)
    \<and> kw_pipe (xs_kv y) = kw_pipe (xs_kv x') @ frame_connect_message raw 0
    \<and> xs_blobs y = xs_blobs x' \<and> xs_result y = xs_result x'"
proof -
  have "blob_get (xs_blobs x') i = d"
    by (simp add: assms(1,2) handle_kvs_blobs blobs.get_put_all)
  then show ?thesis
    using assms(3-5) by (simp add: handle_kv_server_message_def blob_data_field_def kv_write_def pipe_write_def Let_def)
qed

lemma kv_get_answers_last_set_witness:
  "\<exists>y. handle_kv_server_message ending_lib \<lparr>ksm_id = 2, ksm_message = Some (GetBlobArgs [9])\<rparr>
      (snd (handle_kv_server_message ending_lib \<lparr>ksm_id = 1, ksm_message = Some (SetBlobArgs [9] [5, 6])\<rparr> start)) = (Ok (), y)
    \<and> xs_result y = empty_result"
  using kv_get_answers_last_set [OF refl refl, where pl = ending_lib and n = 2 and i = "[9]" and x = start and raw = "[]" and msgs = "[\<lparr>ksm_id = 1, ksm_message = Some (SetBlobArgs [9] [5, 6])\<rparr>]"]
  by (auto simp: ending_lib_def handle_kv_server_message_def kv_write_def pipe_write_def start_def Let_def)

subsection \<open>Retries\<close>

text \<open>The attempts one after another, as if none were the last: attempt \<open>k\<close> runs on the blobs and random source its predecessor left.\<close>

fun attempt_outcome ::
  "proto_lib \<Rightarrow> stream_env \<Rightarrow> string \<Rightarrow> string \<Rightarrow> string \<Rightarrow> agent_run_request \<Rightarrow> blob_store \<Rightarrow> entropy \<Rightarrow> nat \<Rightarrow> nat
    \<Rightarrow> (run_stream_result option \<times> unit go_result) \<times> blob_store \<times> entropy" where
  "attempt_outcome pl env version url tok req blobs en first 0 =
     run_cursor_stream_once pl (se_transport env first) (se_fate env first) version url tok req blobs en"
| "attempt_outcome pl env version url tok req blobs en first (Suc k) =
     (let (_, blobs', en') = run_cursor_stream_once pl (se_transport env first) (se_fate env first) version url tok req blobs en
      in attempt_outcome pl env version url tok req blobs' en' (Suc first) k)"

definition gave_nothing :: "run_stream_result option \<times> unit go_result \<Rightarrow> bool" where
  "gave_nothing o1 = (\<not> produced (fst o1) \<and> is_retryable_stream_error (snd o1))"

lemma stream_attempts_outcome:
  assumes "0 < left" and "left + attempt = Suc max_stream_attempts"
  shows "\<exists>k < left. stream_attempts pl env version url tok req left attempt prev blobs en
        = attempt_outcome pl env version url tok req blobs en attempt k
    \<and> (\<forall>j < k. gave_nothing (fst (attempt_outcome pl env version url tok req blobs en attempt j)))
    \<and> (Suc k = left \<or> \<not> gave_nothing (fst (attempt_outcome pl env version url tok req blobs en attempt k))
         \<or> se_ctx_done env (attempt + k))"
  using assms
proof (induction left arbitrary: attempt prev blobs en)
  case (Suc left)
  obtain result err blobs' en' where once:
    "run_cursor_stream_once pl (se_transport env attempt) (se_fate env attempt) version url tok req blobs en = ((result, err), blobs', en')"
    by (metis prod.collapse)
  show ?case
  proof (cases "gave_nothing (result, err) \<and> left \<noteq> 0 \<and> \<not> se_ctx_done env attempt")
    case False
    then have "stream_attempts pl env version url tok req (Suc left) attempt prev blobs en = ((result, err), blobs', en')"
      using once Suc.prems by (cases err) (auto simp: gave_nothing_def)
    then show ?thesis using once False by (intro exI [of _ 0]) auto
  next
    case True
    then have "stream_attempts pl env version url tok req (Suc left) attempt prev blobs en
        = stream_attempts pl env version url tok req left (Suc attempt) (result, err) blobs' en'"
      using once Suc.prems by (cases err) (auto simp: gave_nothing_def)
    moreover obtain k where "k < left"
      "stream_attempts pl env version url tok req left (Suc attempt) (result, err) blobs' en'
         = attempt_outcome pl env version url tok req blobs' en' (Suc attempt) k"
      "\<forall>j < k. gave_nothing (fst (attempt_outcome pl env version url tok req blobs' en' (Suc attempt) j))"
      "Suc k = left \<or> \<not> gave_nothing (fst (attempt_outcome pl env version url tok req blobs' en' (Suc attempt) k))
         \<or> se_ctx_done env (Suc attempt + k)"
      using Suc.IH [of "Suc attempt" "(result, err)" blobs' en'] Suc.prems True by auto
    ultimately show ?thesis using once True
      by (intro exI [of _ "Suc k"]) (auto simp: less_Suc_eq_0_disj)
  qed
qed simp

text \<open>
  C4: a retry can neither repeat content nor go on for ever: a run makes at most three attempts; what it returns is the
  outcome of one of them, unmixed; every attempt before that one produced no update and no tool request and
  failed with a connection-level error; and it stops early only for a reason.
\<close>

theorem retry_never_repeats:
  "\<exists>k < 3. run_cursor_stream pl env version url tok req blobs en = attempt_outcome pl env version url tok req blobs en 1 k
    \<and> (\<forall>j < k. gave_nothing (fst (attempt_outcome pl env version url tok req blobs en 1 j)))
    \<and> (k = 2 \<or> \<not> gave_nothing (fst (attempt_outcome pl env version url tok req blobs en 1 k)) \<or> se_ctx_done env (Suc k))"
  using stream_attempts_outcome [of max_stream_attempts 1 pl env version url tok req "(None, Ok ())" blobs en]
  by (simp add: run_cursor_stream_def max_stream_attempts_def numeral_3_eq_3 numeral_2_eq_2)

lemma is_retryable_goaway: "is_retryable_stream_error (Err ''cursor: streaming run request failed: GOAWAY'')"
  by (simp add: retryable_signatures_def)

lemma retry_never_repeats_witness:
  "\<forall>req. fst (run_cursor_stream ending_lib \<lparr>se_transport = \<lambda>a rq. TransportFailed ''GOAWAY'', se_fate = \<lambda>a n. None, se_ctx_done = \<lambda>a. False\<rparr>
      ''v'' ''u'' ''t'' req new_blob_store (\<lambda>n. None)) = (None, Err ''cursor: streaming run request failed: GOAWAY'')"
proof
  fix req
  let ?env = "\<lparr>se_transport = \<lambda>a rq. TransportFailed ''GOAWAY'', se_fate = \<lambda>a n. None, se_ctx_done = \<lambda>a. False\<rparr>"
  have "fst (attempt_outcome ending_lib ?env ''v'' ''u'' ''t'' req b en first k) = (None, Err ''cursor: streaming run request failed: GOAWAY'')"
    for b en first k
    by (induction k arbitrary: b en first)
       (auto simp: run_cursor_stream_once_def ending_lib_def split: prod.split)
  then show "fst (run_cursor_stream ending_lib ?env ''v'' ''u'' ''t'' req new_blob_store (\<lambda>n. None))
      = (None, Err ''cursor: streaming run request failed: GOAWAY'')"
    using retry_never_repeats [of ending_lib ?env "''v''" "''u''" "''t''" req new_blob_store "\<lambda>n. None"] by metis
qed

end
