(* ===== verification/Account.thy ===== *)
theory Account
  imports Prelude
begin

section \<open>The account store\<close>

text \<open>
  \<open>internal/account/account.go\<close>: the state of each Cursor account by auth id, with the status that
  makes \<open>Get\<close> fail fast. Each operation runs under the store's mutex, so a history of the store
  is a sequence of operations. Login and refresh write it (\<open>internal/auth\<close>), the executor
  and the model discovery read it.
\<close>

subsection \<open>Operations\<close>

type_synonym status = string

definition status_active :: status where
  "status_active = ''active''"

definition status_degraded :: status where
  "status_degraded = ''degraded''"

definition status_needs_reauth :: status where
  "status_needs_reauth = ''needs_reauth''"

definition err_account_degraded :: string where
  "err_account_degraded = ''account: cursor account is degraded or needs reauthentication''"

record account_state =
  as_access_token :: string
  as_refresh_token :: string
  as_expires_at :: time
  as_status :: status
  as_status_message :: string
  as_updated_at :: time

definition zero_account :: account_state where
  "zero_account = \<lparr>as_access_token = [], as_refresh_token = [], as_expires_at = 0, as_status = [],
     as_status_message = [], as_updated_at = 0\<rparr>"

type_synonym account_store = "string \<Rightarrow> account_state option"

definition new_account_store :: account_store where
  "new_account_store = Map.empty"

definition account_set :: "time \<Rightarrow> string \<Rightarrow> account_state \<Rightarrow> account_store \<Rightarrow> account_store" where
  "account_set now authID st s =
     (let st' = (if as_status st = [] then st\<lparr>as_status := status_active\<rparr> else st)
      in s(authID \<mapsto> st'\<lparr>as_updated_at := now\<rparr>))"

definition mark_degraded :: "time \<Rightarrow> string \<Rightarrow> status \<Rightarrow> string \<Rightarrow> account_store \<Rightarrow> account_store" where
  "mark_degraded now authID status message s =
     (let st = (case s authID of Some st \<Rightarrow> st | None \<Rightarrow> zero_account)
      in s(authID \<mapsto> st\<lparr>as_status := status, as_status_message := message, as_updated_at := now\<rparr>))"

text \<open>\<open>errors.Join\<close> of two errors renders them on two lines.\<close>

definition err_account_degraded_with_reason :: "string \<Rightarrow> string" where
  "err_account_degraded_with_reason reason = err_account_degraded @ [CHR 0x0A] @ reason"

text \<open>The state and the error, if any; callers use the state only without an error.\<close>

definition account_get :: "account_store \<Rightarrow> string \<Rightarrow> account_state \<times> string option" where
  "account_get s authID =
     (case s authID of
        None \<Rightarrow> (zero_account, Some ''account: unknown auth id'')
      | Some st \<Rightarrow>
          if as_status st \<noteq> status_active
          then (st, Some (err_account_degraded_with_reason
                      (if as_status_message st = [] then as_status st else as_status_message st)))
          else (st, None))"

definition account_peek :: "account_store \<Rightarrow> string \<Rightarrow> account_state option" where
  "account_peek s authID = s authID"

subsection \<open>Histories\<close>

datatype account_op =
    SetOp time string account_state
  | MarkDegradedOp time string status string

fun run_op :: "account_op \<Rightarrow> account_store \<Rightarrow> account_store" where
  "run_op (SetOp now i st) s = account_set now i st s"
| "run_op (MarkDegradedOp now i status message) s = mark_degraded now i status message s"

fun op_id :: "account_op \<Rightarrow> string" where
  "op_id (SetOp now i st) = i"
| "op_id (MarkDegradedOp now i status message) = i"

fun op_status :: "account_op \<Rightarrow> status" where
  "op_status (SetOp now i st) = (if as_status st = [] then status_active else as_status st)"
| "op_status (MarkDegradedOp now i status message) = status"

text \<open>The tokens an account has after an operation on it.\<close>

fun op_tokens :: "string \<times> string \<Rightarrow> account_op \<Rightarrow> string \<times> string" where
  "op_tokens cur (SetOp now i st) = (as_access_token st, as_refresh_token st)"
| "op_tokens cur (MarkDegradedOp now i status message) = cur"

definition tokens_of :: "account_state option \<Rightarrow> string \<times> string" where
  "tokens_of st = (case st of None \<Rightarrow> ([], []) | Some a \<Rightarrow> (as_access_token a, as_refresh_token a))"

lemma run_op_other: "op_id p \<noteq> i \<Longrightarrow> run_op p s i = s i"
  by (cases p) (auto simp: account_set_def mark_degraded_def Let_def)

lemma run_op_same:
  "op_id p = i \<Longrightarrow> \<exists>a. run_op p s i = Some a \<and> as_status a = op_status p \<and> tokens_of (Some a) = op_tokens (tokens_of (s i)) p"
  by (cases p) (auto simp: account_set_def mark_degraded_def Let_def tokens_of_def zero_account_def split: option.split)

lemma run_ops:
  "let mine = filter (\<lambda>p. op_id p = i) ops; st = fold run_op ops new_account_store i in
     (st = None \<longleftrightarrow> mine = []) \<and> (mine \<noteq> [] \<longrightarrow> map_option as_status st = Some (op_status (last mine)))
     \<and> tokens_of st = foldl op_tokens ([], []) mine"
proof (induction ops rule: rev_induct)
  case Nil
  then show ?case by (simp add: new_account_store_def tokens_of_def)
next
  case (snoc p ops)
  show ?case
  proof (cases "op_id p = i")
    case True
    then show ?thesis
      using snoc run_op_same [OF True, of "fold run_op ops new_account_store"] by (auto simp: Let_def)
  next
    case False
    then show ?thesis using snoc by (simp add: Let_def run_op_other)
  qed
qed

text \<open>
  \<open>Get\<close> fails fast exactly on accounts that are not usable: after any history of \<open>Set\<close> and
  \<open>MarkDegraded\<close>, it returns no error if and only if the last operation on that account made it active, and it
  then returns the tokens of the last \<open>Set\<close>; operations on other accounts change nothing.
\<close>

theorem account_get_fail_fast:
  "(snd (account_get (fold run_op ops new_account_store) i) = None \<longleftrightarrow>
      (let mine = filter (\<lambda>p. op_id p = i) ops in mine \<noteq> [] \<and> op_status (last mine) = status_active))
   \<and> tokens_of (account_peek (fold run_op ops new_account_store) i) = foldl op_tokens ([], []) (filter (\<lambda>p. op_id p = i) ops)"
  using run_ops [of i ops]
  by (auto simp: account_get_def account_peek_def Let_def split: option.split)

text \<open>
  marking an account does not discard its tokens, makes every later \<open>Get\<close> fail until the next \<open>Set\<close>
  (unless it is marked active), and the error carries the reason.
\<close>

theorem mark_degraded_then_get:
  assumes "status \<noteq> status_active"
  shows "snd (account_get (mark_degraded now i status message s) i) =
      Some (err_account_degraded @ [CHR 0x0A] @ (if message = [] then status else message))
    \<and> tokens_of (account_peek (mark_degraded now i status message s) i) = tokens_of (account_peek s i)"
  using assms
  by (auto simp: account_get_def account_peek_def mark_degraded_def Let_def err_account_degraded_with_reason_def
      tokens_of_def zero_account_def split: option.split)

lemma mark_degraded_then_get_witness:
  "snd (account_get (mark_degraded 5 ''a'' status_needs_reauth [] new_account_store) ''a'') =
     Some (err_account_degraded @ [CHR 0x0A] @ ''needs_reauth'')"
  using mark_degraded_then_get [of status_needs_reauth 5 "''a''" "[]" new_account_store]
  by (simp add: status_needs_reauth_def status_active_def)

end
