(* ===== verification/Client.thy ===== *)
theory Client
  imports Account Stream
begin

section \<open>The agent client\<close>

text \<open>
  \<open>internal/executor/client.go\<close>: the client that the executor, the discovery and the dispatcher share. Its
  transport adds Cursor's headers to every request, with the version that is configured at that moment
  (an \<open>atomic.Value\<close>, so a read sees the last write). The HTTP/2 transport beneath is the Go library's.
\<close>

subsection \<open>State\<close>

definition cursor_base_url :: string where
  "cursor_base_url = ''https://api2.cursor.sh''"

definition default_client_version :: string where
  "default_client_version = ''cli-2026.02.13-41ac335''"

record agent_client =
  ag_accounts :: account_store
  ag_client_version :: string
  ag_base_url :: string
  ag_conversations :: conversation_cache

definition new_agent_client :: "account_store \<Rightarrow> string \<Rightarrow> string \<Rightarrow> agent_client" where
  "new_agent_client accounts baseURL clientVersion =
     \<lparr>ag_accounts = accounts, ag_client_version = clientVersion,
      ag_base_url = (if baseURL = [] then cursor_base_url else baseURL),
      ag_conversations = new_conversation_cache\<rparr>"

definition set_client_version :: "string \<Rightarrow> agent_client \<Rightarrow> agent_client" where
  "set_client_version version c = c\<lparr>ag_client_version := version\<rparr>"

definition client_version :: "agent_client \<Rightarrow> string" where
  "client_version c = ag_client_version c"

definition client_version_or_default :: "agent_client \<Rightarrow> string" where
  "client_version_or_default c = (if client_version c = [] then default_client_version else client_version c)"

subsection \<open>Headers\<close>

text \<open>\<open>Header.Get\<close> and \<open>Header.Set\<close>, on names in one spelling.\<close>

definition header_get :: "(string \<times> string) list \<Rightarrow> string \<Rightarrow> string" where
  "header_get h k = (case map_of h k of Some v \<Rightarrow> v | None \<Rightarrow> [])"

definition header_set :: "string \<Rightarrow> string \<Rightarrow> (string \<times> string) list \<Rightarrow> (string \<times> string) list" where
  "header_set k v h = filter (\<lambda>(k', v'). k' \<noteq> k) h @ [(k, v)]"

text \<open>\<open>staticHeaderTransport.RoundTrip\<close>, up to the request it hands to the base transport.\<close>

definition static_header_round_trip :: "agent_client \<Rightarrow> http_request \<Rightarrow> entropy \<Rightarrow> http_request \<times> entropy" where
  "static_header_round_trip c req en =
     (let version = (if ag_client_version c = [] then default_client_version else ag_client_version c);
          h = header_set ''x-cursor-client-type'' ''cli'' (header_set ''x-ghost-mode'' ''true''
                (header_set ''x-cursor-client-version'' version (hr_headers req)))
      in if header_get h ''x-request-id'' = []
         then (let (i, en') = new_request_id en in (req\<lparr>hr_headers := header_set ''x-request-id'' i h\<rparr>, en'))
         else (req\<lparr>hr_headers := h\<rparr>, en))"

definition with_auth :: "string \<Rightarrow> http_request \<Rightarrow> http_request" where
  "with_auth accessToken req = req\<lparr>hr_headers := header_set ''authorization'' (''Bearer '' @ accessToken) (hr_headers req)\<rparr>"

subsection \<open>Facts\<close>

lemma header_get_set [simp]: "header_get (header_set k v h) k' = (if k' = k then v else header_get h k')"
proof -
  have "map_of (filter (\<lambda>(k', v'). k' \<noteq> k) h) k' = (if k' = k then None else map_of h k')"
    by (induction h) auto
  then show ?thesis by (auto simp: header_get_def header_set_def map_add_def split: option.split)
qed

lemma new_request_id_nonempty: "fst (new_request_id en) \<noteq> []"
proof (cases "new_message_id en")
  case (Pair r en')
  then show ?thesis using new_message_id_Ok [of en _ en'] by (cases r) (auto simp: new_request_id_def)
qed

text \<open>
  every request that leaves through the client's transport carries Cursor's headers, with the version
  override that is configured when the request is sent (the compiled-in default once it is
  cleared) and a request id, whatever headers it came with; the others, the authorization among them, are kept.
\<close>

theorem every_request_has_cursor_headers:
  "let h = hr_headers (fst (static_header_round_trip (set_client_version version c) req en)) in
     header_get h ''x-cursor-client-version'' = (if version = [] then default_client_version else version)
   \<and> header_get h ''x-ghost-mode'' = ''true'' \<and> header_get h ''x-cursor-client-type'' = ''cli''
   \<and> header_get h ''x-request-id'' \<noteq> []
   \<and> header_get h ''authorization'' = header_get (hr_headers req) ''authorization''"
  using new_request_id_nonempty [of en]
  by (auto simp: static_header_round_trip_def set_client_version_def Let_def split: prod.split)

end
