(* ===== verification/Executor.thy ===== *)
theory Executor
  imports Client Translate_Request Translate_Response
begin

section \<open>The executor\<close>

text \<open>
  \<open>internal/executor/executor.go\<close>: a chat-completions request runs against Cursor from decoding to the encoded
  response. The run reads the account store and writes the conversation cache; its blob store is
  the conversation's, shared by reference. The map orders, the clock and the network are parameters.
\<close>

subsection \<open>Requests of the host\<close>

record executor_request =
  er_auth_id :: string
  er_model :: string
  er_payload :: string

text \<open>What surrounds a run: the protobuf runtime, the orders of map visits, two readings of the clock, the network.\<close>

record run_env =
  re_lib :: proto_lib
  re_aliases :: alias_table
  re_order :: "entries \<Rightarrow> entries"
  re_acquired_at :: time
  re_stored_at :: time
  re_net :: stream_env

subsection \<open>run\<close>

definition prompt_text :: "chat_message list \<Rightarrow> string" where
  "prompt_text ms = concat (map cm_content ms)"

text \<open>From the outcome of the exchange to the response; \<open>c\<close> is the client after the exchange.\<close>

definition finish_run ::
  "run_env \<Rightarrow> chat_completions_request \<Rightarrow> string \<Rightarrow> run_stream_result option \<times> unit go_result \<Rightarrow> agent_client \<Rightarrow> entropy
    \<Rightarrow> chat_completions_response go_result \<times> agent_client \<times> entropy" where
  "finish_run env chatReq conversationID out c en =
     (case new_response_id en of
        (Err e, en1) \<Rightarrow> (Err e, c, en1)
      | (Panic p, en1) \<Rightarrow> (Panic p, c, en1)
      | (Ok responseID, en1) \<Rightarrow>
          let (streamResult, errStream) = out;
              updates = (case streamResult of Some r \<Rightarrow> rsr_updates r | None \<Rightarrow> []);
              requests = (case streamResult of Some r \<Rightarrow> rsr_tool_requests r | None \<Rightarrow> []);
              c' = (case streamResult of
                      Some r \<Rightarrow> c\<lparr>ag_conversations := store_checkpoint (re_stored_at env) conversationID (rsr_checkpoint r) (ag_conversations c)\<rparr>
                    | None \<Rightarrow> c)
          in (case accumulate_all (re_lib env) updates empty_accumulator en1 of
                (Err e, en2) \<Rightarrow> (Err e, c, en2)
              | (Panic p, en2) \<Rightarrow> (Panic p, c, en2)
              | (Ok acc, en2) \<Rightarrow>
                  (case add_captured_tool_requests (re_lib env) (new_client_tool_index (cr_tools chatReq)) requests acc en2 of
                     (Err e, _, en3) \<Rightarrow> (Err e, c', en3)
                   | (Panic p, _, en3) \<Rightarrow> (Panic p, c', en3)
                   | (Ok _, acc', en3) \<Rightarrow>
                       (case errStream of
                          Panic p \<Rightarrow> (Panic p, c', en3)
                        | Err e \<Rightarrow>
                            if ra_tool_calls acc' = [] \<and> ra_text acc' = []
                            then (Err (''cursor: agent run failed: '' @ e), c', en3)
                            else (Ok ((to_chat_completions_response acc' (cr_model chatReq) responseID (prompt_text (cr_messages chatReq)))
                                    \<lparr>resp_error := Some \<lparr>ce_message = e, ce_type = ''cursor_stream_error''\<rparr>\<rparr>), c', en3)
                        | Ok _ \<Rightarrow>
                            (Ok (to_chat_completions_response acc' (cr_model chatReq) responseID (prompt_text (cr_messages chatReq))),
                             c', en3)))))"

text \<open>The network as the exchange sees it, behind the client's transport.\<close>

definition client_net :: "agent_client \<Rightarrow> stream_env \<Rightarrow> stream_env" where
  "client_net c net = net\<lparr>se_transport := \<lambda>attempt req. se_transport net attempt (fst (static_header_round_trip c req (\<lambda>n. None)))\<rparr>"

text \<open>The exchange on a conversation: it writes the conversation's blob store.\<close>

definition run_conversation ::
  "run_env \<Rightarrow> chat_completions_request \<Rightarrow> string \<Rightarrow> conversation_entry \<Rightarrow> string \<Rightarrow> agent_client \<Rightarrow> entropy
    \<Rightarrow> chat_completions_response go_result \<times> agent_client \<times> entropy" where
  "run_conversation env chatReq conversationID entry accessToken c en =
     (let (r, blobs, en1) = build_agent_run_request (re_lib env) (re_aliases env) chatReq conversationID
            (ce_checkpoint entry) en (deref_blobs (ag_conversations c) entry);
          c1 = c\<lparr>ag_conversations := write_blobs entry blobs (ag_conversations c)\<rparr>
      in case wrap_err ''cursor: failed to build agent run request'' r of
           Err e \<Rightarrow> (Err e, c1, en1)
         | Panic p \<Rightarrow> (Panic p, c1, en1)
         | Ok runReq \<Rightarrow>
             (let (out, blobs', en2) = run_cursor_stream (re_lib env) (client_net c (re_net env)) (client_version_or_default c)
                    (ag_base_url c) accessToken runReq blobs en1
              in finish_run env chatReq conversationID out
                   (c1\<lparr>ag_conversations := write_blobs entry blobs' (ag_conversations c1)\<rparr>) en2))"

definition executor_run ::
  "run_env \<Rightarrow> executor_request \<Rightarrow> agent_client \<Rightarrow> entropy \<Rightarrow> chat_completions_response go_result \<times> agent_client \<times> entropy" where
  "executor_run env req c en =
     (case wrap_err ''cursor: failed to decode chat-completions request'' (go_bind (json_unmarshal (er_payload req)) dec_chat_request) of
        Err e \<Rightarrow> (Err e, c, en)
      | Panic p \<Rightarrow> (Panic p, c, en)
      | Ok decoded \<Rightarrow>
          let chatReq = (if cr_model decoded = [] then decoded\<lparr>cr_model := er_model req\<rparr> else decoded) in
          (case account_get (ag_accounts c) (er_auth_id req) of
             (_, Some e) \<Rightarrow> (Err (''cursor: executor requires an active account: '' @ e), c, en)
           | (accountState, None) \<Rightarrow>
               let (conversationID, en1) = conversation_id_for (cr_messages chatReq) en;
                   (entry, conversations) = acquire (re_order env) (re_acquired_at env) conversationID (ag_conversations c)
               in run_conversation env chatReq conversationID entry (as_access_token accountState)
                    (c\<lparr>ag_conversations := conversations\<rparr>) en1))"

subsection \<open>The executor's methods\<close>

definition execute ::
  "run_env \<Rightarrow> executor_request \<Rightarrow> agent_client \<Rightarrow> entropy \<Rightarrow> string go_result \<times> agent_client \<times> entropy" where
  "execute env req c en =
     (let (r, c', en') = executor_run env req c en in (go_bind r (\<lambda>resp. Ok (json_print (response_json resp))), c', en'))"

text \<open>The chunks sent on the channel; its buffer takes four, and nobody reads before it is closed.\<close>

datatype stream_chunk = ChunkPayload string | ChunkErr string

definition channel_capacity :: nat where
  "channel_capacity = 4"

definition execute_stream ::
  "run_env \<Rightarrow> executor_request \<Rightarrow> agent_client \<Rightarrow> entropy \<Rightarrow> stream_chunk list go_result \<times> agent_client \<times> entropy" where
  "execute_stream env req c en =
     (let (r, c', en') = executor_run env req c en
      in (case r of
            Err e \<Rightarrow> Ok [ChunkErr e]
          | Panic p \<Rightarrow> Panic p
          | Ok resp \<Rightarrow> Ok (map (\<lambda>ch. ChunkPayload (json_print (chunk_json ch))) (to_stream_chunks resp)), c', en'))"

definition count_tokens :: "executor_request \<Rightarrow> string go_result" where
  "count_tokens req = Ok (json_print (jobj [(''total_tokens'', jnat 0)]))"

definition executor_http_request :: "string go_result" where
  "executor_http_request = Err ''cursor: executor.http_request is not supported''"

definition executor_identifier :: string where
  "executor_identifier = ''cursor''"

end
