(* ===== verification/Executor_Laws.thy ===== *)
theory Executor_Laws
  imports Executor Stream_Laws History_Laws
begin

section \<open>What a run guarantees\<close>

text \<open>
  Properties of \<open>Executor.run\<close> that span the components: failures are reported, the shared state stays
  well-formed, and what a request refers to can be fetched during its exchange.
\<close>

subsection \<open>Failures\<close>

lemma run_once_Ok:
  assumes "run_cursor_stream_once pl transport fate version url tok req blobs en = ((res, Ok ()), blobs', en')"
  shows "\<exists>rq body x0 x. transport rq = Responded 200 body \<and> res = Some (xs_result x)
    \<and> xs_result x0 = empty_result \<and> read_loop pl (hb_reads body) (hb_last body) [] x0 = (Ok (), x)"
  using assms
  by (auto simp: run_cursor_stream_once_def Let_def split: go_result.splits prod.splits http_outcome.splits if_splits)
     (metis exchange.select_convs(1))

lemma attempt_outcome_once:
  "\<exists>n b e. attempt_outcome pl env version url tok req blobs en first k =
     run_cursor_stream_once pl (se_transport env n) (se_fate env n) version url tok req b e"
  by (induction k arbitrary: blobs en first) (auto split: prod.split)

text \<open>The error of a run's response, from the outcome of its exchange.\<close>

lemma finish_run_cases:
  assumes "finish_run env chatReq cid (res, err) c en = (Ok resp, c', en')"
  obtains "err = Ok ()"
  | e where "err = Err e" and "resp_error resp = Some \<lparr>ce_message = e, ce_type = ''cursor_stream_error''\<rparr>"
      and "resp_choices resp = [] \<or> (\<exists>ch. resp_choices resp = [ch]
             \<and> (cm_content (cc_message ch) \<noteq> [] \<or> cm_tool_calls (cc_message ch) \<noteq> []))"
proof (cases err)
  case (Ok u)
  then show thesis using that(1) by simp
next
  case (Err e)
  from assms Err obtain acc rid where
    "resp = (to_chat_completions_response acc (cr_model chatReq) rid (prompt_text (cr_messages chatReq)))
              \<lparr>resp_error := Some \<lparr>ce_message = e, ce_type = ''cursor_stream_error''\<rparr>\<rparr>"
    and "ra_tool_calls acc \<noteq> [] \<or> ra_text acc \<noteq> []"
    by (auto simp: finish_run_def Let_def split: go_result.splits prod.splits if_splits unit.splits)
  then show thesis
    using that(2) [OF Err] by (auto simp: to_chat_completions_response_def Let_def split: option.splits)
next
  case (Panic p)
  then show thesis using assms
    by (auto simp: finish_run_def Let_def split: go_result.splits prod.splits if_splits unit.splits)
qed

text \<open>A request to try runs on.\<close>

definition example_chat_request :: chat_completions_request where
  "example_chat_request = \<lparr>cr_model = ''m'', cr_stream = False, cr_messages = [], cr_tools = []\<rparr>"

text \<open>What the run would answer had the exchange ended well, and what becomes of it when the exchange fails with \<open>e\<close>.\<close>

definition nothing_arrived :: "chat_completions_response \<Rightarrow> bool" where
  "nothing_arrived resp \<longleftrightarrow>
     (\<forall>ch \<in> set (resp_choices resp). cm_content (cc_message ch) = [] \<and> cm_tool_calls (cc_message ch) = [])"

text \<open>
  C3: a failed exchange never looks like a success. Compare the run with the one in which the same updates and requests came
  from an exchange that ended well. If that one answers, the failed one either answers the same with the stream's error
  attached, or, when neither text nor a tool call had arrived, fails with \<open>cursor: agent run failed\<close> and the error's text.
  If that one fails (its id, a tool call or a captured request does not translate), the failed one fails in the same
  way, and the error of the stream is masked by that one. The client is left in the same state.
\<close>

theorem stream_error_surfaces:
  "let (r, left) = finish_run env chatReq cid (res, Err e) c en; (r0, left0) = finish_run env chatReq cid (res, Ok ()) c en
   in left = left0
    \<and> (case r0 of
         Ok resp \<Rightarrow>
           (if resp_choices resp \<noteq> [] \<and> nothing_arrived resp then r = Err (''cursor: agent run failed: '' @ e)
            else r = Ok (resp\<lparr>resp_error := Some \<lparr>ce_message = e, ce_type = ''cursor_stream_error''\<rparr>\<rparr>)
              \<or> r = Err (''cursor: agent run failed: '' @ e) \<and> resp_choices resp = [])
       | Err e0 \<Rightarrow> r = Err e0
       | Panic p \<Rightarrow> r = Panic p)"
proof -
  have choice: "nothing_arrived (to_chat_completions_response a m i p) \<longleftrightarrow> ra_err a \<noteq> None \<or> ra_text a = [] \<and> ra_tool_calls a = []"
    and none: "resp_choices (to_chat_completions_response a m i p) = [] \<longleftrightarrow> ra_err a \<noteq> None" for a m i p
    by (auto simp: nothing_arrived_def to_chat_completions_response_def Let_def split: option.splits)
  show ?thesis
    by (auto simp: finish_run_def Let_def choice none split: go_result.split prod.split)
qed

lemma stream_error_surfaces_witness:
  "\<forall>env c. fst (finish_run (env\<lparr>re_lib := ending_lib\<rparr>) example_chat_request ''c'' (Some empty_result, Err ''drop'') c zero_entropy)
        = Err ''cursor: agent run failed: drop''
     \<and> (\<exists>resp. fst (finish_run (env\<lparr>re_lib := ending_lib\<rparr>) example_chat_request ''c''
          (Some (empty_result\<lparr>rsr_updates := [TextDelta (Some ''par'')]\<rparr>), Err ''drop'') c zero_entropy) = Ok resp
        \<and> resp_error resp = Some \<lparr>ce_message = ''drop'', ce_type = ''cursor_stream_error''\<rparr>)"
proof (intro allI conjI)
  fix env :: run_env and c
  let ?env = "env\<lparr>re_lib := ending_lib\<rparr>" and ?part = "empty_result\<lparr>rsr_updates := [TextDelta (Some ''par'')]\<rparr>"
  have run: "\<exists>resp left. finish_run ?env example_chat_request ''c'' (Some res, Ok ()) c zero_entropy = (Ok resp, left)
      \<and> map (cm_content \<circ> cc_message) (resp_choices resp) = [concat (map update_text (rsr_updates res))]
      \<and> map (cm_tool_calls \<circ> cc_message) (resp_choices resp) = [[]]"
    if "res = empty_result \<or> res = ?part" for res
    using that by (auto simp: finish_run_def new_response_id_def rand_read_def zero_entropy_def accumulate_def
      empty_accumulator_def empty_result_def Let_def to_chat_completions_response_def)
  obtain resp left where "finish_run ?env example_chat_request ''c'' (Some empty_result, Ok ()) c zero_entropy = (Ok resp, left)"
    "resp_choices resp \<noteq> []" "nothing_arrived resp" using run [of empty_result] by (auto simp: nothing_arrived_def empty_result_def)
  then show "fst (finish_run ?env example_chat_request ''c'' (Some empty_result, Err ''drop'') c zero_entropy)
      = Err ''cursor: agent run failed: drop''"
    using stream_error_surfaces [of ?env example_chat_request "''c''" "Some empty_result" "''drop''" c zero_entropy]
    by (auto split: prod.splits)
  obtain resp left where "finish_run ?env example_chat_request ''c'' (Some ?part, Ok ()) c zero_entropy = (Ok resp, left)"
    "resp_choices resp \<noteq> []" "\<not> nothing_arrived resp" using run [of ?part] by (auto simp: nothing_arrived_def empty_result_def)
  then show "\<exists>resp. fst (finish_run ?env example_chat_request ''c'' (Some ?part, Err ''drop'') c zero_entropy) = Ok resp
      \<and> resp_error resp = Some \<lparr>ce_message = ''drop'', ce_type = ''cursor_stream_error''\<rparr>"
    using stream_error_surfaces [of ?env example_chat_request "''c''" "Some ?part" "''drop''" c zero_entropy]
    by (auto split: prod.splits)
qed

subsection \<open>Answers\<close>

text \<open>What a captured request is to surface as: under the server's name for a client tool, else the client's name for the native tool.\<close>

definition request_function :: "proto_lib \<Rightarrow> chat_tool_definition list \<Rightarrow> captured_tool_request \<Rightarrow> chat_tool_call_func option" where
  "request_function pl tools req =
     (if ctr_name req \<noteq> []
      then map_option (\<lambda>j. \<lparr>tcf_name = ctr_name req, tcf_arguments = j\<rparr>) (ok_value (mcp_args_to_json pl (ctr_args req)))
      else map_option (\<lambda>n. \<lparr>tcf_name = n, tcf_arguments = (if ctr_args_json req = [] then ''{}'' else ctr_args_json req)\<rparr>)
             (resolve_client_tool (new_client_tool_index tools) (ctr_field req)))"

lemma captured_function_request: "captured_function pl (new_client_tool_index tools) = request_function pl tools"
proof
  fix req
  show "captured_function pl (new_client_tool_index tools) req = request_function pl tools req"
    by (cases "mcp_args_to_json pl (ctr_args req)")
       (auto simp: captured_function_def captured_call_def request_function_def split: option.split)
qed

lemma finish_run_answer:
  assumes "finish_run env chatReq cid (Some res, Ok ()) c en = (Ok resp, c', en')"
  obtains rid acc en1 en2 en3 acc' where "accumulate_all (re_lib env) (rsr_updates res) empty_accumulator en1 = (Ok acc, en2)"
    and "add_captured_tool_requests (re_lib env) (new_client_tool_index (cr_tools chatReq)) (rsr_tool_requests res) acc en2
      = (Ok (), acc', en3)"
    and "resp = to_chat_completions_response acc' (cr_model chatReq) rid (prompt_text (cr_messages chatReq))"
  using assms by (auto simp: finish_run_def Let_def split: go_result.splits prod.splits)

text \<open>
  C20: the answer of a run whose exchange ended well and whose tool calls translate: its one choice has the text deltas of the updates
  concatenated in order; then the completed tool calls of the updates, in order, but for echoes of declines; then the
  captured tool requests, in order, those of native tools without an equivalent among the client's tools left out;
  each call under a fresh clean id, with name and arguments as sent. \<open>finish_reason\<close> says whether there are calls, and the
  completion tokens are the sum of the server's positive counts when it sent some.
\<close>

theorem response_of_run:
  assumes "finish_run env chatReq cid (Some res, Ok ()) c en = (Ok resp, c', en')" and "resp_error resp = None"
  shows "\<exists>ch. resp_choices resp = [ch]
    \<and> cm_content (cc_message ch) = concat (map update_text (rsr_updates res))
    \<and> map tc_function (cm_tool_calls (cc_message ch))
        = List.map_filter (update_call (re_lib env)) (rsr_updates res)
          @ List.map_filter (request_function (re_lib env) (cr_tools chatReq)) (rsr_tool_requests res)
    \<and> calls_ok (cm_tool_calls (cc_message ch))
    \<and> cc_finish_reason ch = (if cm_tool_calls (cc_message ch) = [] then ''stop'' else ''tool_calls'')
    \<and> (0 < sum_list (map update_tokens (rsr_updates res)) \<longrightarrow>
         cu_completion_tokens (resp_usage resp) = sum_list (map update_tokens (rsr_updates res)))"
proof (rule finish_run_answer [OF assms(1)])
  fix rid acc en1 en2 en3 acc'
  assume acc: "accumulate_all (re_lib env) (rsr_updates res) empty_accumulator en1 = (Ok acc, en2)"
    and cap: "add_captured_tool_requests (re_lib env) (new_client_tool_index (cr_tools chatReq)) (rsr_tool_requests res) acc en2
      = (Ok (), acc', en3)"
    and resp: "resp = to_chat_completions_response acc' (cr_model chatReq) rid (prompt_text (cr_messages chatReq))"
  obtain new where new: "ra_tool_calls acc' = ra_tool_calls acc @ new" "acc' = acc\<lparr>ra_tool_calls := ra_tool_calls acc'\<rparr>"
    "map tc_function new = List.map_filter (request_function (re_lib env) (cr_tools chatReq)) (rsr_tool_requests res)" "calls_ok new"
    using add_captured_Ok [OF cap] captured_function_request by metis
  have same: "ra_err acc' = ra_err acc" "ra_text acc' = ra_text acc" "ra_completion_tokens acc' = ra_completion_tokens acc"
    by (subst new(2), simp)+
  have err: "ra_err acc' = None"
    using assms(2) resp by (cases "ra_err acc'") (auto simp: to_chat_completions_response_def Let_def)
  have a: "ra_text acc = concat (map update_text (rsr_updates res))" "ra_completion_tokens acc = sum_list (map update_tokens (rsr_updates res))"
    "map tc_function (ra_tool_calls acc) = List.map_filter (update_call (re_lib env)) (rsr_updates res)" "calls_ok (ra_tool_calls acc)"
    using accumulate_all_Ok [OF acc] err same by (auto simp: empty_accumulator_def calls_ok_def)
  have "calls_ok (ra_tool_calls acc')" using a(4) new(1,4) by (auto simp: calls_ok_def)
  then show ?thesis
    using a new(1,3) err same unfolding resp
    by (auto simp: to_chat_completions_response_def Let_def usage_def simp del: sum_list_eq_0_iff)
qed

text \<open>An answer with text, a native call, the echo of a decline and a captured request.\<close>

definition example_updates :: "interaction_update list" where
  "example_updates = [TextDelta (Some ''Hel''), ToolCallCompleted (Some (Some (Some (''shell_tool_call'', VMsg [(''args'', VMsg [])])))),
     ToolCallCompleted (Some (Some (Some (''shell_tool_call'', VMsg [(''result'', VMsg [])])))), TokenDelta (Some 3), TextDelta (Some ''lo'')]"

lemma response_of_run_witness:
  "\<forall>env c. \<exists>resp ch. fst (finish_run (env\<lparr>re_lib := json_lib\<rparr>) example_chat_request ''c''
       (Some (empty_result\<lparr>rsr_updates := example_updates,
          rsr_tool_requests := [\<lparr>ctr_field = ''mcp_args'', ctr_name = ''read'', ctr_args = [], ctr_args_json = []\<rparr>]\<rparr>), Ok ()) c zero_entropy) = Ok resp
     \<and> resp_choices resp = [ch] \<and> cm_content (cc_message ch) = ''Hello''
     \<and> map (tcf_name \<circ> tc_function) (cm_tool_calls (cc_message ch)) = [''shell_tool_call'', ''read'']"
proof (intro allI)
  fix env :: run_env and c
  let ?env = "env\<lparr>re_lib := json_lib\<rparr>"
  let ?req = "\<lparr>ctr_field = ''mcp_args'', ctr_name = ''read'', ctr_args = [], ctr_args_json = []\<rparr>"
  let ?res = "empty_result\<lparr>rsr_updates := example_updates, rsr_tool_requests := [?req]\<rparr>"
  have "list_ex (\<lambda>f. pf_name f = ''shell_tool_call'' \<and> is_ok (field_desc f)
      \<and> (case field_desc f of Ok md \<Rightarrow> fields_by_name (md_fields md) ''args'' \<noteq> None \<and> fields_by_name (md_fields md) ''result'' \<noteq> None
           | _ \<Rightarrow> False)) (oneof_fields md_ToolCall ''tool'')" by code_simp
  then obtain f md where f: "f \<in> set (oneof_fields md_ToolCall ''tool'')" "pf_name f = ''shell_tool_call''" "field_desc f = Ok md"
    and md: "declares md ''args''" "declares md ''result''"
    by (auto simp: list_ex_iff is_ok_iff declares_def)
  have fb: "fields_by_name (oneof_fields md_ToolCall ''tool'') ''shell_tool_call'' = Some f" using tool_variant_field [OF f(1)] f(2) by simp
  have zero: "new_message_id zero_entropy = (Ok (hex_encode (map (\<lambda>k. 0) [0..<16])), zero_entropy)"
    "rand_read 12 zero_entropy = (Ok (map (\<lambda>k. 0) [0..<12]), zero_entropy)"
    by (simp_all add: new_message_id_def rand_read_def zero_entropy_def)
  have call: "with_call_id n j zero_entropy = (Ok (Some \<lparr>tc_id = ''call_'' @ hex_encode (map (\<lambda>k. 0) [0..<16]), tc_type = ''function'',
      tc_function = \<lparr>tcf_name = n, tcf_arguments = j\<rparr>\<rparr>), zero_entropy)" for n j
    by (simp add: with_call_id_def new_tool_call_id_def zero)
  have marshal: "pj_marshal json_lib n m = Ok ''{}''" for n m by (simp add: json_lib_def)
  have t1: "to_chat_tool_call json_lib (Some (Some (''shell_tool_call'', VMsg [(''args'', VMsg [])]))) zero_entropy =
      with_call_id ''shell_tool_call'' ''{}'' zero_entropy"
    by (simp add: to_chat_tool_call_def fb f(3) echo_iff pm_has_def marshal)
  have t2: "to_chat_tool_call json_lib (Some (Some (''shell_tool_call'', VMsg [(''result'', VMsg [])]))) zero_entropy = (Ok None, zero_entropy)"
    by (simp add: to_chat_tool_call_def fb f(3) echo_iff md pm_has_def)
  have acc: "\<exists>a. accumulate_all json_lib (rsr_updates ?res) empty_accumulator zero_entropy = (Ok a, zero_entropy) \<and> ra_err a = None"
    by (simp add: example_updates_def accumulate_def t1 t2 call empty_accumulator_def)
  have cap: "\<exists>a'. add_captured_tool_requests json_lib idx [?req] a zero_entropy = (Ok (), a', zero_entropy) \<and> ra_err a' = ra_err a" for idx a
    by (simp add: captured_call_def mcp_args_to_json_def call)
  obtain a where a: "accumulate_all json_lib (rsr_updates ?res) empty_accumulator zero_entropy = (Ok a, zero_entropy)" "ra_err a = None"
    using acc by blast
  obtain a' where a': "add_captured_tool_requests json_lib (new_client_tool_index (cr_tools example_chat_request)) [?req] a zero_entropy
      = (Ok (), a', zero_entropy)" "ra_err a' = None" using cap a(2) by metis
  obtain rid where rid: "new_response_id zero_entropy = (Ok rid, zero_entropy)" by (simp add: new_response_id_def zero)
  have fields: "rsr_tool_requests ?res = [?req]" "re_lib ?env = json_lib" by simp_all
  have "\<exists>resp left. finish_run ?env example_chat_request ''c'' (Some ?res, Ok ()) c zero_entropy = (Ok resp, left) \<and> resp_error resp = None"
    unfolding finish_run_def Let_def rid prod.case option.case go_result.case fields a(1) a'(1)
    by (simp add: to_chat_completions_response_def Let_def a'(2))
  then obtain resp left where run: "finish_run ?env example_chat_request ''c'' (Some ?res, Ok ()) c zero_entropy = (Ok resp, left)" "resp_error resp = None"
    by blast
  have shell: "completed_function json_lib (Some (Some (''shell_tool_call'', VMsg [(''args'', VMsg [])]))) = Some \<lparr>tcf_name = ''shell_tool_call'', tcf_arguments = ''{}''\<rparr>"
    "completed_function json_lib (Some (Some (''shell_tool_call'', VMsg [(''result'', VMsg [])]))) = None"
    using md by (simp_all add: native_desc_def fb f(3) pm_has_def marshal)
  obtain c' en' where left: "left = (c', en')" by (cases left)
  obtain ch where ch: "resp_choices resp = [ch]" "cm_content (cc_message ch) = ''Hello''"
    "map tc_function (cm_tool_calls (cc_message ch)) = [\<lparr>tcf_name = ''shell_tool_call'', tcf_arguments = ''{}''\<rparr>, \<lparr>tcf_name = ''read'', tcf_arguments = ''{}''\<rparr>]"
    using response_of_run [OF run(1) [unfolded left] run(2)]
    by (auto simp: example_updates_def map_filter_simps shell request_function_def mcp_args_to_json_def simp del: completed_function.simps)
  then have "map tcf_name (map tc_function (cm_tool_calls (cc_message ch))) = [''shell_tool_call'', ''read'']" by simp
  then show "\<exists>resp ch. fst (finish_run ?env example_chat_request ''c'' (Some ?res, Ok ()) c zero_entropy) = Ok resp
     \<and> resp_choices resp = [ch] \<and> cm_content (cc_message ch) = ''Hello''
     \<and> map (tcf_name \<circ> tc_function) (cm_tool_calls (cc_message ch)) = [''shell_tool_call'', ''read'']"
    using run ch by auto
qed

subsection \<open>The parts of a run\<close>

lemma executor_run_parts:
  assumes "executor_run env req c en = (r, c', en')"
  obtains "is_ok r = False" "c' = c"
  | chatReq cid st en1 entry convs where "account_get (ag_accounts c) (er_auth_id req) = (st, None)"
      "conversation_id_for (cr_messages chatReq) en = (cid, en1)"
      "acquire (re_order env) (re_acquired_at env) cid (ag_conversations c) = (entry, convs)"
      "run_conversation env chatReq cid entry (as_access_token st) (c\<lparr>ag_conversations := convs\<rparr>) en1 = (r, c', en')"
  using assms
  by (auto simp: executor_run_def Let_def split: go_result.splits prod.splits option.splits if_splits)

lemma run_conversation_parts:
  assumes "run_conversation env chatReq cid entry tok c en = (r, c', en')"
  obtains b where "is_ok r = False" "c' = c\<lparr>ag_conversations := write_blobs entry b (ag_conversations c)\<rparr>"
  | b rr en1 out b' en2 where
      "build_agent_run_request (re_lib env) (re_aliases env) chatReq cid (ce_checkpoint entry) en
         (deref_blobs (ag_conversations c) entry) = (Ok rr, b, en1)"
      "run_cursor_stream (re_lib env) (client_net c (re_net env))
         (client_version_or_default c) (ag_base_url c) tok rr b en1 = (out, b', en2)"
      "finish_run env chatReq cid out
         (c\<lparr>ag_conversations := write_blobs entry b' (write_blobs entry b (ag_conversations c))\<rparr>) en2 = (r, c', en')"
proof -
  obtain r0 b en1 where build: "build_agent_run_request (re_lib env) (re_aliases env) chatReq cid (ce_checkpoint entry) en
         (deref_blobs (ag_conversations c) entry) = (r0, b, en1)" by (metis prod.collapse)
  show thesis
  proof (cases r0)
    case (Ok rr)
    then show thesis using assms build that(2) [of rr b en1]
      by (auto simp: run_conversation_def Let_def split: prod.splits)
  qed (use assms build that(1) [of b] in \<open>auto simp: run_conversation_def Let_def\<close>)
qed

text \<open>
  a response without an error means that the server ended the turn: some attempt got status 200, its read
  loop returned without an error, and that exchange's result is what was translated.
\<close>

theorem success_means_clean_end:
  assumes "executor_run env req c en = (Ok resp, c', en')" and "resp_error resp = None"
  shows "\<exists>rq n body x0 x. se_transport (re_net env) n rq = Responded 200 body \<and> xs_result x0 = empty_result
    \<and> read_loop (re_lib env) (hb_reads body) (hb_last body) [] x0 = (Ok (), x)"
proof -
  have "\<exists>chatReq cid entry tok c0 en1. run_conversation env chatReq cid entry tok (c\<lparr>ag_conversations := c0\<rparr>) en1 = (Ok resp, c', en')"
    by (rule executor_run_parts [OF assms(1)], simp, blast)
  then obtain chatReq cid entry tok c3 en1 where
    "run_conversation env chatReq cid entry tok c3 en1 = (Ok resp, c', en')" by blast
  then have "\<exists>rr b en2 out b' en3 c2. run_cursor_stream (re_lib env) (client_net c3 (re_net env)) (client_version_or_default c3)
       (ag_base_url c3) tok rr b en2 = (out, b', en3) \<and> finish_run env chatReq cid out c2 en3 = (Ok resp, c', en')"
    by (rule run_conversation_parts, simp, blast)
  then obtain rr b en2 out b' en3 c2 where
    stream: "run_cursor_stream (re_lib env) (client_net c3 (re_net env)) (client_version_or_default c3) (ag_base_url c3)
       tok rr b en2 = (out, b', en3)"
    and fin: "finish_run env chatReq cid out c2 en3 = (Ok resp, c', en')" by blast
  obtain res err where out: "out = (res, err)" by (cases out)
  have ok: "err = Ok ()"
    using fin [unfolded out] by (rule finish_run_cases) (use assms(2) in auto)
  obtain k where "run_cursor_stream (re_lib env) (client_net c3 (re_net env)) (client_version_or_default c3) (ag_base_url c3)
       tok rr b en2 = attempt_outcome (re_lib env) (client_net c3 (re_net env)) (client_version_or_default c3)
         (ag_base_url c3) tok rr b en2 1 k"
    using stream_attempts_outcome [of max_stream_attempts 1] unfolding run_cursor_stream_def
    by (metis Suc_eq_plus1 max_stream_attempts_def zero_less_numeral)
  then obtain n b1 e1 where once: "run_cursor_stream_once (re_lib env) (se_transport (client_net c3 (re_net env)) n)
      (se_fate (client_net c3 (re_net env)) n) (client_version_or_default c3) (ag_base_url c3) tok rr b1 e1
      = ((res, Ok ()), b', en3)"
    using attempt_outcome_once stream unfolding out ok by metis
  from run_once_Ok [OF once] show ?thesis by (simp add: client_net_def) blast
qed

text \<open>An example: one message, and a server that answers with the turn-ended update.\<close>

definition example_payload :: json where
  "example_payload = jobj [(''model'', jstr ''m''), (''messages'', JArr [message_json (zero_message\<lparr>cm_role := ''user'', cm_content := ''hi''\<rparr>)])]"

definition example_executor_request :: executor_request where
  "example_executor_request = \<lparr>er_auth_id = ''a'', er_model = ''m'', er_payload = json_print example_payload\<rparr>"

definition example_body :: http_body where
  "example_body = \<lparr>hb_reads = [(frame_connect_message [7] 0 @ [0, 0], None)], hb_last = ''context canceled''\<rparr>"

definition example_env :: run_env where
  "example_env = \<lparr>re_lib = ending_lib, re_aliases = native_tool_aliases, re_order = (\<lambda>es. es), re_acquired_at = 1,
     re_stored_at = 2, re_net = \<lparr>se_transport = \<lambda>n rq. Responded 200 example_body, se_fate = \<lambda>a n. None, se_ctx_done = \<lambda>a. False\<rparr>\<rparr>"

definition example_client :: agent_client where
  "example_client = new_agent_client (account_set 0 ''a'' (zero_account\<lparr>as_access_token := ''tok''\<rparr>) new_account_store) [] []"

lemma example_decodes:
  "go_bind (json_unmarshal (er_payload example_executor_request)) dec_chat_request
     = Ok \<lparr>cr_model = ''m'', cr_stream = False, cr_messages = [zero_message\<lparr>cm_role := ''user'', cm_content := ''hi''\<rparr>], cr_tools = []\<rparr>"
proof -
  let ?m = "zero_message\<lparr>cm_role := ''user'', cm_content := ''hi''\<rparr>"
  have "\<forall>s \<in> {''m'', ''hi'', ''user''}. utf8_valid s" by (auto intro!: utf8_valid_ascii simp: code_def)
  then have utf8: "utf8_valid ''m''" "message_utf8 ?m" by (simp_all add: message_utf8_def zero_message_def utf8_valid_ascii)
  have "json_ok (Suc 9999) example_payload"
    using json_ok_message [of 9994 ?m] unfolding example_payload_def json_ok_jobj
    by (simp add: eval_nat_numeral)
  then have "json_ok max_nesting example_payload" by (simp add: max_nesting_def)
  moreover have "json_norm example_payload = example_payload" by (simp add: example_payload_def)
  ultimately show ?thesis
    using utf8 unmarshal_message_json [OF utf8(2)]
    by (simp add: example_executor_request_def json_unmarshal_print example_payload_def dec_chat_request_def decode_simps)
qed

lemma example_read: "read_loop ending_lib (hb_reads example_body) e [] x0 =
    (Ok (), x0\<lparr>xs_result := (xs_result x0)\<lparr>rsr_updates := rsr_updates (xs_result x0) @ [TurnEnded]\<rparr>\<rparr>)"
proof -
  let ?f = "\<lparr>cf_flags = 0, cf_payload = [7]\<rparr>"
  have bytes: "read_limited (hb_reads example_body) = concat (map frame_bytes [?f]) @ [0, 0]"
    by (simp add: frame_bytes_def example_body_def)
  have rest: "extract_frame [0, 0] = Ok None" by (simp add: extract_frame_def)
  have "run_frames ending_lib [?f] x0 = (Some (Ok ()), x0\<lparr>xs_result := (xs_result x0)\<lparr>rsr_updates := rsr_updates (xs_result x0) @ [TurnEnded]\<rparr>\<rparr>)"
    by (simp add: handle_frame_def ending_lib_def handle_server_message_def is_turn_ended_def)
  then show ?thesis using read_loop_frames [OF bytes rest, of ending_lib e x0] bytes by (simp add: frame_bytes_def)
qed

lemma ending_marshal [simp]: "pb_marshal ending_lib m = Ok []"
  by (simp add: ending_lib_def)

lemma example_once: "run_cursor_stream_once ending_lib (\<lambda>rq. Responded 200 example_body) fate v u t req b en =
    ((Some (empty_result\<lparr>rsr_updates := [TurnEnded]\<rparr>), Ok ()), b, snd (new_request_id en))"
  by (simp add: run_cursor_stream_once_def Let_def example_read case_prod_unfold) (simp add: empty_result_def)

lemma example_stream: "run_cursor_stream ending_lib (client_net c (re_net example_env)) v u t req b en =
    ((Some (empty_result\<lparr>rsr_updates := [TurnEnded]\<rparr>), Ok ()), b, snd (new_request_id en))"
  by (simp add: run_cursor_stream_def max_stream_attempts_def numeral_3_eq_3 client_net_def example_env_def example_once)

lemma example_builds:
  "\<exists>rr b' en'. build_agent_run_request ending_lib visit
     \<lparr>cr_model = ''m'', cr_stream = False, cr_messages = [zero_message\<lparr>cm_role := ''user'', cm_content := ''hi''\<rparr>], cr_tools = []\<rparr>
     cid base zero_entropy b = (Ok rr, b', en') \<and> en' = zero_entropy"
  by (simp add: build_agent_run_request_def zero_message_def split_action_def new_message_id_def
        rand_read_def zero_entropy_def op_bind_def op_lift_def op_wrap_def build_history_turn_blob_ids_def
        build_root_prompt_message_blob_ids_def build_mcp_tools_def)

lemma example_finish:
  assumes "en = zero_entropy" and "rsr_updates r = [TurnEnded]" and "rsr_tool_requests r = []"
  shows "\<exists>resp c' en'. finish_run env req cid (Some r, Ok ()) c en = (Ok resp, c', en') \<and> resp_error resp = None"
  by (simp add: finish_run_def new_response_id_def rand_read_def assms zero_entropy_def accumulate_def
      empty_accumulator_def to_chat_completions_response_def Let_def)

lemma example_executor_run:
  "\<exists>resp c' en'. executor_run example_env example_executor_request example_client zero_entropy = (Ok resp, c', en')
     \<and> resp_error resp = None"
proof -
  let ?chat = "\<lparr>cr_model = ''m'', cr_stream = False, cr_messages = [zero_message\<lparr>cm_role := ''user'', cm_content := ''hi''\<rparr>], cr_tools = []\<rparr>"
  have acc: "account_get (ag_accounts example_client) (er_auth_id example_executor_request)
      = (zero_account\<lparr>as_access_token := ''tok'', as_status := status_active\<rparr>, None)"
    by (simp add: example_client_def new_agent_client_def account_set_def account_get_def zero_account_def
        example_executor_request_def new_account_store_def)
  obtain cid where cid: "conversation_id_for (cr_messages ?chat) zero_entropy = (cid, zero_entropy)"
    by (simp add: conversation_id_for_def zero_message_def)
  obtain entry convs where acq: "acquire (re_order example_env) (re_acquired_at example_env) cid (ag_conversations example_client) = (entry, convs)"
    by (metis prod.collapse)
  define c1 where "c1 = example_client\<lparr>ag_conversations := convs\<rparr>"
  obtain rr b en1 where build: "build_agent_run_request ending_lib native_tool_aliases ?chat cid (ce_checkpoint entry) zero_entropy
      (deref_blobs (ag_conversations c1) entry) = (Ok rr, b, en1)" and en1: "en1 = zero_entropy"
    using example_builds [of native_tool_aliases cid "ce_checkpoint entry" "deref_blobs (ag_conversations c1) entry"] by blast
  have "snd (new_request_id zero_entropy) = zero_entropy"
    by (simp add: new_request_id_def new_message_id_def rand_read_def zero_entropy_def)
  then have stream: "run_cursor_stream ending_lib (client_net c1 (re_net example_env)) (client_version_or_default c1) (ag_base_url c1) ''tok'' rr b en1
      = ((Some (empty_result\<lparr>rsr_updates := [TurnEnded]\<rparr>), Ok ()), b, zero_entropy)"
    by (simp add: example_stream en1)
  have lib: "re_lib example_env = ending_lib" "re_aliases example_env = native_tool_aliases" by (simp_all add: example_env_def)
  have "\<exists>resp c' en'. run_conversation example_env ?chat cid entry ''tok'' c1 zero_entropy = (Ok resp, c', en') \<and> resp_error resp = None"
    using build stream example_finish [OF refl, of "empty_result\<lparr>rsr_updates := [TurnEnded]\<rparr>"]
    by (simp add: run_conversation_def Let_def lib) (simp add: empty_result_def)
  moreover have "executor_run example_env example_executor_request example_client zero_entropy
      = run_conversation example_env ?chat cid entry ''tok'' c1 zero_entropy"
    using acc cid acq by (simp add: executor_run_def example_decodes c1_def)
  ultimately show ?thesis by simp
qed

lemma success_means_clean_end_witness:
  "\<exists>rq n x0 x. se_transport (re_net example_env) n rq = Responded 200 example_body
    \<and> read_loop ending_lib (hb_reads example_body) (hb_last example_body) [] x0 = (Ok (), x)"
proof -
  obtain resp c' en' where "executor_run example_env example_executor_request example_client zero_entropy = (Ok resp, c', en')"
     "resp_error resp = None" using example_executor_run by blast
  from success_means_clean_end [OF this] show ?thesis by (auto simp: example_env_def)
qed

lemma executor_run_blocked:
  assumes "snd (account_get (ag_accounts c) (er_auth_id req)) = Some reason"
  shows "\<exists>r. executor_run env req c en = (r, c, en) \<and> \<not> is_ok r
    \<and> (is_ok (go_bind (json_unmarshal (er_payload req)) dec_chat_request) \<longrightarrow>
         r = Err (''cursor: executor requires an active account: '' @ reason))"
  using assms
  by (cases "go_bind (json_unmarshal (er_payload req)) dec_chat_request")
     (auto simp: executor_run_def Let_def split: prod.splits)

text \<open>
  a degraded or unknown account is never used: the run fails with the reason, whatever the network and the
  clock would do, and neither the conversation cache nor anything else of the client changes.
\<close>

theorem degraded_account_blocks_run:
  assumes "snd (account_get (ag_accounts c) (er_auth_id req)) = Some reason"
  shows "\<exists>r. executor_run env req c en = (r, c, en) \<and> \<not> is_ok r
    \<and> (is_ok (go_bind (json_unmarshal (er_payload req)) dec_chat_request) \<longrightarrow>
         r = Err (''cursor: executor requires an active account: '' @ reason))"
  using assms by (rule executor_run_blocked)

lemma degraded_account_blocks_run_witness:
  "\<exists>r. executor_run example_env example_executor_request (new_agent_client new_account_store [] []) zero_entropy
      = (r, new_agent_client new_account_store [] [], zero_entropy) \<and> \<not> is_ok r"
  using degraded_account_blocks_run [of "new_agent_client new_account_store [] []" example_executor_request
      "''account: unknown auth id''" example_env zero_entropy]
  by (auto simp: account_get_def new_agent_client_def new_account_store_def)

lemma executor_run_keeps_cache:
  assumes "cache_ok (ag_conversations c)" and "valid_order (re_order env)"
    and "0 < re_acquired_at env" and "0 < re_stored_at env"
    and "executor_run env req c en = (r, c', en')"
  shows "cache_ok (ag_conversations c') \<and> ag_accounts c' = ag_accounts c \<and> ag_client_version c' = ag_client_version c"
proof -
  have fin: "cache_ok (ag_conversations c2) \<Longrightarrow> cache_ok (ag_conversations c') \<and> ag_accounts c' = ag_accounts c2 \<and> ag_client_version c' = ag_client_version c2"
    if "finish_run env chatReq cid out c2 en3 = (r, c', en')" for chatReq cid out c2 en3
    using that assms(4)
    by (auto simp: finish_run_def Let_def intro!: cache_ok_store_checkpoint
        split: go_result.splits prod.splits if_splits unit.splits option.splits)
  show ?thesis
  proof (rule executor_run_parts [OF assms(5)])
    fix chatReq cid st en1 entry convs
    assume acq: "acquire (re_order env) (re_acquired_at env) cid (ag_conversations c) = (entry, convs)"
      and id: "conversation_id_for (cr_messages chatReq) en = (cid, en1)"
      and rc: "run_conversation env chatReq cid entry (as_access_token st) (c\<lparr>ag_conversations := convs\<rparr>) en1 = (r, c', en')"
    have "cid \<noteq> []" using conversation_id_nonempty [of "cr_messages chatReq" en] id by simp
    then have "cache_ok convs" using acquire_facts [OF assms(1,2) _ assms(3) acq] by simp
    then show ?thesis
      using rc by (rule_tac run_conversation_parts [OF rc]) (auto dest: fin)
  qed (use assms(1) in simp)
qed

text \<open>
  a run keeps the conversation cache well-formed, whatever happens in it: at most 64 entries, each with a
  blob store of its own.
\<close>

theorem executor_keeps_cache:
  assumes "cache_ok (ag_conversations c)" and "valid_order (re_order env)"
    and "0 < re_acquired_at env" and "0 < re_stored_at env"
    and "executor_run env req c en = (r, c', en')"
  shows "cache_ok (ag_conversations c') \<and> ag_accounts c' = ag_accounts c \<and> ag_client_version c' = ag_client_version c"
  using assms by (rule executor_run_keeps_cache)

lemma executor_keeps_cache_witness:
  "cache_ok (ag_conversations (fst (snd (executor_run example_env example_executor_request example_client zero_entropy))))"
proof -
  obtain r c' en' where run: "executor_run example_env example_executor_request example_client zero_entropy = (r, c', en')"
    by (metis prod.collapse)
  have "cache_ok (ag_conversations example_client)" by (simp add: example_client_def new_agent_client_def)
  from executor_keeps_cache [OF this _ _ _ run] show ?thesis
    by (simp add: run) (simp add: example_env_def valid_order_def)
qed

subsection \<open>Streaming\<close>

text \<open>What a chunk sequence adds up to for a client that concatenates the deltas.\<close>

definition chunks_content :: "chat_completion_chunk list \<Rightarrow> string" where
  "chunks_content chs = concat (map (cd_content \<circ> ch_delta) (concat (map chunk_choices chs)))"

definition chunks_tool_calls :: "chat_completion_chunk list \<Rightarrow> chat_tool_call list" where
  "chunks_tool_calls chs = concat (map (cd_tool_calls \<circ> ch_delta) (concat (map chunk_choices chs)))"

definition response_content :: "chat_completions_response \<Rightarrow> string \<times> chat_tool_call list" where
  "response_content r = (case resp_choices r of [] \<Rightarrow> ([], []) | c # cs \<Rightarrow> (cm_content (cc_message c), cm_tool_calls (cc_message c)))"

text \<open>
  C31: \<open>ExecuteStream\<close> delivers what \<open>Execute\<close> does, in two chunks that always fit the channel's buffer, so sending them cannot
  block: the deltas add up to the content and the tool calls of the response; the last chunk finishes the choice as the
  response does and carries the usage; a failed run is one error chunk. The response's error is on the first of the two chunks and
  not, as the comments of the code have it, on the terminal one, which ends a failed stream as it would a successful one.
\<close>

theorem stream_delivers_response:
  "case fst (executor_run env req c en) of
     Ok resp \<Rightarrow> (\<exists>first final. fst (execute_stream env req c en) = Ok (map (\<lambda>ch. ChunkPayload (json_print (chunk_json ch))) [first, final])
         \<and> length [first, final] \<le> channel_capacity
         \<and> (chunks_content [first, final], chunks_tool_calls [first, final]) = response_content resp
         \<and> map ch_finish_reason (chunk_choices first) = [None]
         \<and> map ch_finish_reason (chunk_choices final) =
             [Some (case resp_choices resp of [] \<Rightarrow> ''stop'' | ch # _ \<Rightarrow> if cc_finish_reason ch = [] then ''stop'' else cc_finish_reason ch)]
         \<and> chunk_error first = resp_error resp \<and> chunk_error final = None
         \<and> chunk_usage first = None \<and> chunk_usage final = Some (resp_usage resp))
   | Err e \<Rightarrow> fst (execute_stream env req c en) = Ok [ChunkErr e] \<and> length [ChunkErr e] \<le> channel_capacity
   | Panic p \<Rightarrow> fst (execute_stream env req c en) = Panic p"
proof -
  obtain r c' en' where run: "executor_run env req c en = (r, c', en')" by (metis prod.collapse)
  show ?thesis
  proof (cases r)
    case (Ok resp)
    have "\<exists>first final. to_stream_chunks resp = [first, final]
         \<and> (chunks_content [first, final], chunks_tool_calls [first, final]) = response_content resp
         \<and> map ch_finish_reason (chunk_choices first) = [None]
         \<and> map ch_finish_reason (chunk_choices final) =
             [Some (case resp_choices resp of [] \<Rightarrow> ''stop'' | ch # _ \<Rightarrow> if cc_finish_reason ch = [] then ''stop'' else cc_finish_reason ch)]
         \<and> chunk_error first = resp_error resp \<and> chunk_error final = None
         \<and> chunk_usage first = None \<and> chunk_usage final = Some (resp_usage resp)"
      by (auto simp: to_stream_chunks_def chunks_content_def chunks_tool_calls_def response_content_def Let_def split: list.split)
    then show ?thesis using run Ok by (simp add: execute_stream_def channel_capacity_def) fastforce
  qed (use run in \<open>simp_all add: execute_stream_def channel_capacity_def\<close>)
qed

subsection \<open>The blobs of a request\<close>

text \<open>The blob ids the history of a run request is made of: of its turns, of what its turns consist of, and of its root prompt.\<close>

definition history_ids :: "proto_lib \<Rightarrow> alias_table \<Rightarrow> chat_completions_request \<Rightarrow> agent_run_request \<Rightarrow> bytes set" where
  "history_ids pl visit req rr =
     set (cs_turns (arr_conversation_state rr)) \<union> set (cs_root_prompt_messages_json (arr_conversation_state rr))
     \<union> (case abs_turns pl visit (history_of (cr_messages req)) Map.empty of
          Ok ts \<Rightarrow> (\<Union>(text, steps) \<in> set ts. {blob_id pl (PB_UserMessage text [])} \<union> (\<lambda>s. blob_id pl (PB_ConversationStep s)) ` set steps)
        | _ \<Rightarrow> {})"

lemma history_ids_resolve:
  assumes "build_agent_run_request pl visit req cid base en blobs = (Ok rr, blobs', en')" and "i \<in> history_ids pl visit req rr"
  shows "resolves blobs' i"
proof -
  obtain ts where ts: "abs_turns pl visit (history_of (cr_messages req)) Map.empty = Ok ts"
    "cs_turns (arr_conversation_state rr) = map (\<lambda>t. blob_id pl (turn_msg pl t)) ts" "\<forall>t \<in> set ts. turn_stored pl blobs' t"
    and roots: "\<forall>i \<in> set (cs_root_prompt_messages_json (arr_conversation_state rr)). resolves blobs' i"
    using run_request_blobs [OF assms(1)] by blast
  from assms(2) consider "i \<in> set (cs_root_prompt_messages_json (arr_conversation_state rr))"
    | t where "t \<in> set ts" "i = blob_id pl (turn_msg pl t)"
    | t where "t \<in> set ts" "i = blob_id pl (PB_UserMessage (fst t) [])"
    | t s where "t \<in> set ts" "s \<in> set (snd t)" "i = blob_id pl (step_msg s)"
    unfolding history_ids_def ts(1,2) step_msg_def by auto
  then show ?thesis using ts(3) roots by cases (auto simp: turn_stored_def stored_def)
qed

text \<open>
  C21: the server can fetch the history of a run request. Once the request is built, a get of any turn or root prompt id in
  it, or of any id inside one of its turns (the user message, the steps), is answered with data that has that id as its
  digest, at any point of the exchange, unless the server has itself set another blob under that id.
\<close>

theorem request_blobs_are_served:
  assumes "build_agent_run_request pl visit req cid base en blobs = (Ok rr, blobs', en')"
    and "i \<in> history_ids pl visit req rr"
    and "xs_blobs x = blobs'" and "i \<notin> fst ` set (kv_sets msgs)"
    and "x' = foldl (\<lambda>x m. snd (handle_kv_server_message pl m x)) x msgs"
  shows "\<exists>d. sha256 d = i \<and> handle_kv_server_message pl \<lparr>ksm_id = n, ksm_message = Some (GetBlobArgs i)\<rparr> x' =
      (let (r, kv') = kv_write pl (KvClientMessage \<lparr>kcm_id = n, kcm_message = GetBlobResult (blob_data_field (Some d))\<rparr>) (xs_kv x')
       in (r, x'\<lparr>xs_kv := kv'\<rparr>))"
proof -
  have "resolves blobs' i" by (rule history_ids_resolve [OF assms(1,2)])
  moreover have "blob_get (xs_blobs x') i = blob_get blobs' i"
    using assms(3,4) by (simp add: assms(5) handle_kvs_blobs blobs.get_put_all_other)
  ultimately obtain d where "sha256 d = i" "blob_get (xs_blobs x') i = Some d" by (auto simp: resolves_def)
  then show ?thesis by (auto simp: handle_kv_server_message_def)
qed

text \<open>A run request with a history; the server sets a blob of its own and then asks for an entry of the root prompt.\<close>

lemma request_blobs_are_served_witness:
  "\<exists>rr b en x x' d. build_agent_run_request example_lib native_tool_aliases example_history_request ''c'' (Some example_checkpoint)
       example_entropy example_store = (Ok rr, b, en)
     \<and> x = start\<lparr>xs_blobs := b\<rparr> \<and> snd (handle_kv_server_message example_lib \<lparr>ksm_id = 1, ksm_message = Some (SetBlobArgs [9] [8])\<rparr> x) = x'
     \<and> entry_id (''user'', ''q'') \<in> set (cs_root_prompt_messages_json (arr_conversation_state rr))
     \<and> sha256 d = entry_id (''user'', ''q'')
     \<and> handle_kv_server_message example_lib \<lparr>ksm_id = 2, ksm_message = Some (GetBlobArgs (entry_id (''user'', ''q'')))\<rparr> x' =
         (let (r, kv') = kv_write example_lib (KvClientMessage \<lparr>kcm_id = 2, kcm_message = GetBlobResult (blob_data_field (Some d))\<rparr>) (xs_kv x')
          in (r, x'\<lparr>xs_kv := kv'\<rparr>))"
proof (rule example_history_run)
  fix rr b
  assume run: "build_agent_run_request example_lib native_tool_aliases example_history_request ''c'' (Some example_checkpoint)
      example_entropy example_store = (Ok rr, b, \<lambda>k. example_entropy (Suc k))"
  let ?i = "entry_id (''user'', ''q'')" and ?set = "\<lparr>ksm_id = 1, ksm_message = Some (SetBlobArgs [9] [8])\<rparr>"
  have "cr_tools example_history_request = []" by (simp add: example_history_request_def)
  then have mem: "?i \<in> set (cs_root_prompt_messages_json (arr_conversation_state rr))"
    using run_request_blobs [OF run] by (auto simp: example_history_of example_history_entries)
  then have "?i \<in> history_ids example_lib native_tool_aliases example_history_request rr" by (simp add: history_ids_def)
  moreover have "length ?i = 32" by (simp add: entry_id_def)
  then have "?i \<notin> fst ` set (kv_sets [?set])" by (auto simp: kv_sets_def)
  moreover have "xs_blobs (start\<lparr>xs_blobs := b\<rparr>) = b" by simp
  moreover have "snd (handle_kv_server_message example_lib ?set (start\<lparr>xs_blobs := b\<rparr>)) =
      foldl (\<lambda>x m. snd (handle_kv_server_message example_lib m x)) (start\<lparr>xs_blobs := b\<rparr>) [?set]" by simp
  ultimately obtain d where "sha256 d = ?i \<and> handle_kv_server_message example_lib \<lparr>ksm_id = 2, ksm_message = Some (GetBlobArgs ?i)\<rparr>
        (snd (handle_kv_server_message example_lib ?set (start\<lparr>xs_blobs := b\<rparr>))) =
      (let (r, kv') = kv_write example_lib (KvClientMessage \<lparr>kcm_id = 2, kcm_message = GetBlobResult (blob_data_field (Some d))\<rparr>)
           (xs_kv (snd (handle_kv_server_message example_lib ?set (start\<lparr>xs_blobs := b\<rparr>))))
       in (r, (snd (handle_kv_server_message example_lib ?set (start\<lparr>xs_blobs := b\<rparr>)))\<lparr>xs_kv := kv'\<rparr>))"
    using request_blobs_are_served [OF run] by blast
  then show ?thesis using run mem by blast
qed

end
