(* ===== verification/Go_Base64.thy ===== *)
theory Go_Base64
  imports Prelude
begin

section \<open>Package encoding/base64: RawURLEncoding\<close>

text \<open>
  The unpadded URL-safe alphabet, as the PKCE material is written with it (\<open>internal/auth/login.go\<close>)
  and the payload of a JWT is read with it (\<open>internal/auth/expiry.go\<close>). Decoding skips CR and LF
  and ignores the unused low bits of the last digit, as Go's decoder does unless told to be strict.
\<close>

definition b64_alphabet :: string where
  "b64_alphabet = ''ABCDEFGHIJKLMNOPQRSTUVWXYZabcdefghijklmnopqrstuvwxyz0123456789-_''"

definition b64_char :: "nat \<Rightarrow> char" where
  "b64_char n = b64_alphabet ! n"

fun index_of :: "char \<Rightarrow> string \<Rightarrow> nat option" where
  "index_of c [] = None"
| "index_of c (d # ds) = (if c = d then Some 0 else map_option Suc (index_of c ds))"

definition b64_digit :: "char \<Rightarrow> nat option" where
  "b64_digit c = index_of c b64_alphabet"

text \<open>Three bytes are four digits of six bits.\<close>

fun b64_encode_nats :: "nat list \<Rightarrow> nat list" where
  "b64_encode_nats (a # b # c # r) = a div 4 # (a mod 4 * 16 + b div 16) # (b mod 16 * 4 + c div 64) # c mod 64 # b64_encode_nats r"
| "b64_encode_nats [a, b] = [a div 4, a mod 4 * 16 + b div 16, b mod 16 * 4]"
| "b64_encode_nats [a] = [a div 4, a mod 4 * 16]"
| "b64_encode_nats [] = []"

fun b64_decode_nats :: "nat list \<Rightarrow> nat list option" where
  "b64_decode_nats (p # q # r # s # t) =
     map_option (\<lambda>bs. (p * 4 + q div 16) # (q mod 16 * 16 + r div 4) # (r mod 4 * 64 + s) # bs) (b64_decode_nats t)"
| "b64_decode_nats [p, q, r] = Some [p * 4 + q div 16, q mod 16 * 16 + r div 4]"
| "b64_decode_nats [p, q] = Some [p * 4 + q div 16]"
| "b64_decode_nats [p] = None"
| "b64_decode_nats [] = Some []"

definition b64_encode :: "bytes \<Rightarrow> string" where
  "b64_encode bs = map b64_char (b64_encode_nats (map unat bs))"

fun all_some :: "'a option list \<Rightarrow> 'a list option" where
  "all_some [] = Some []"
| "all_some (None # xs) = None"
| "all_some (Some x # xs) = map_option (Cons x) (all_some xs)"

definition b64_decode :: "string \<Rightarrow> bytes option" where
  "b64_decode s =
     (case all_some (map b64_digit (filter (\<lambda>c. c \<noteq> CHR 0x0A \<and> c \<noteq> CHR 0x0D) s)) of
        None \<Rightarrow> None
      | Some ds \<Rightarrow> map_option (map of_nat) (b64_decode_nats ds))"

subsection \<open>Round trip\<close>

lemma length_b64_alphabet: "length b64_alphabet = 64"
  by (simp add: b64_alphabet_def)

lemma distinct_b64_alphabet: "distinct b64_alphabet"
  by (simp add: b64_alphabet_def)

lemma index_of_nth: "distinct s \<Longrightarrow> n < length s \<Longrightarrow> index_of (s ! n) s = Some n"
proof (induction s arbitrary: n)
  case (Cons d ds)
  then show ?case by (cases n) auto
qed simp

lemma b64_digit_char: "n < 64 \<Longrightarrow> b64_digit (b64_char n) = Some n"
  by (simp add: b64_digit_def b64_char_def index_of_nth distinct_b64_alphabet length_b64_alphabet)

lemma b64_alphabet_printable: "list_all (\<lambda>c. c \<noteq> CHR 0x0A \<and> c \<noteq> CHR 0x0D) b64_alphabet"
  by code_simp

lemma b64_char_in: "n < 64 \<Longrightarrow> b64_char n \<in> set b64_alphabet"
  unfolding b64_char_def by (rule nth_mem) (simp add: length_b64_alphabet)

lemma b64_encode_nats_bound: "\<forall>a \<in> set as. a < 256 \<Longrightarrow> \<forall>d \<in> set (b64_encode_nats as). d < 64"
  by (induction as rule: b64_encode_nats.induct) auto

lemma b64_digits:
  assumes "b < (256::nat)"
  shows "(a mod 4 * 16 + b div 16) div 16 = a mod 4" and "(a mod 4 * 16 + b div 16) mod 16 = b div 16"
proof -
  have "b div 16 < 16" using assms by linarith
  then show "(a mod 4 * 16 + b div 16) div 16 = a mod 4" and "(a mod 4 * 16 + b div 16) mod 16 = b div 16" by simp_all
qed

lemma b64_digits':
  assumes "c < (256::nat)"
  shows "(b mod 16 * 4 + c div 64) div 4 = b mod 16" and "(b mod 16 * 4 + c div 64) mod 4 = c div 64"
proof -
  have "c div 64 < 4" using assms by linarith
  then show "(b mod 16 * 4 + c div 64) div 4 = b mod 16" and "(b mod 16 * 4 + c div 64) mod 4 = c div 64" by simp_all
qed

lemma b64_decode_encode_nats: "\<forall>a \<in> set as. a < 256 \<Longrightarrow> b64_decode_nats (b64_encode_nats as) = Some as"
proof (induction as rule: b64_encode_nats.induct)
  case (1 a b c r)
  then show ?case by (simp add: b64_digits b64_digits' del: div_mult_self3 mod_mult_self3)
next
  case (2 a b)
  then have "b div 16 < 16" by auto
  then show ?case by simp
qed simp_all

lemma all_some_map: "(\<And>x. x \<in> set xs \<Longrightarrow> f (g x) = Some x) \<Longrightarrow> all_some (map f (map g xs)) = Some xs"
  by (induction xs) auto

lemma b64_encode_chars: "set (b64_encode bs) \<subseteq> set b64_alphabet"
proof -
  have "\<forall>d \<in> set (b64_encode_nats (map unat bs)). d < 64" by (rule b64_encode_nats_bound) simp
  then show ?thesis using b64_char_in by (auto simp: b64_encode_def)
qed

theorem b64_round_trip: "b64_decode (b64_encode bs) = Some bs"
proof -
  let ?ns = "b64_encode_nats (map unat bs)"
  have bound: "\<forall>d \<in> set ?ns. d < 64" by (rule b64_encode_nats_bound) simp
  have "filter (\<lambda>c. c \<noteq> CHR 0x0A \<and> c \<noteq> CHR 0x0D) (map b64_char ?ns) = map b64_char ?ns"
    using bound b64_char_in b64_alphabet_printable by (auto simp: filter_id_conv list_all_iff)
  moreover have "all_some (map b64_digit (map b64_char ?ns)) = Some ?ns"
    using bound b64_digit_char by (intro all_some_map) simp
  moreover have "b64_decode_nats ?ns = Some (map unat bs)" by (rule b64_decode_encode_nats) simp
  ultimately show ?thesis by (simp add: b64_decode_def b64_encode_def comp_def)
qed

lemma length_b64_encode_nats: "length (b64_encode_nats as) = (4 * length as + 2) div 3"
  by (induction as rule: b64_encode_nats.induct) auto

lemma length_b64_encode: "length (b64_encode bs) = (4 * length bs + 2) div 3"
  by (simp add: b64_encode_def length_b64_encode_nats)

lemma b64_encode_inject: "b64_encode a = b64_encode b \<longleftrightarrow> a = b"
  by (metis b64_round_trip option.inject)

end
