(* ===== verification/Login.thy ===== *)
theory Login
  imports Go_Base64 Go_Decode Go_Sha256
begin

section \<open>Login and polling\<close>

text \<open>
  \<open>internal/auth/login.go\<close>, \<open>internal/auth/pending.go\<close> and \<open>internal/auth/poll.go\<close>: the PKCE material and
  the login URL, the registry of attempts in flight, and one check of an attempt against Cursor's poll
  endpoint. The clock, the random UUID (\<open>github.com/google/uuid\<close>) and the answer of the server are
  arguments. A check reads the registry (\<open>poll_begin\<close>), waits for the server, decides by its answer
  (\<open>poll_end\<close>) and then takes the locks of the poller one after the other (\<open>check_step\<close>): no lock is
  held in between, so overlapping checks see each other's intermediate states (\<open>login_step\<close> in Login_Laws).
\<close>

subsection \<open>PKCE material\<close>

definition cursor_login_url :: string where
  "cursor_login_url = ''https://cursor.com/loginDeepControl''"

definition cursor_poll_url :: string where
  "cursor_poll_url = ''https://api2.cursor.sh/auth/poll''"

definition cursor_refresh_url :: string where
  "cursor_refresh_url = ''https://api2.cursor.sh/auth/exchange_user_api_key''"

record auth_params =
  ap_verifier :: string
  ap_challenge :: string
  ap_uuid :: string
  ap_login_url :: string

definition generate_pkce :: "entropy \<Rightarrow> (string \<times> string) go_result \<times> entropy" where
  "generate_pkce en =
     (case rand_read 96 en of
        (r, en') \<Rightarrow> (wrap_err ''cursor: failed to generate PKCE verifier'' (go_bind r (\<lambda>b.
           let verifier = b64_encode b in Ok (verifier, b64_encode (sha256 (to_bytes verifier))))), en'))"

definition generate_auth_params :: "string \<Rightarrow> entropy \<Rightarrow> auth_params go_result \<times> entropy" where
  "generate_auth_params uuid en =
     (case generate_pkce en of
        (r, en') \<Rightarrow> (go_bind r (\<lambda>(verifier, challenge).
           Ok \<lparr>ap_verifier = verifier, ap_challenge = challenge, ap_uuid = uuid,
               ap_login_url = cursor_login_url @ ''?challenge='' @ challenge @ ''&uuid='' @ uuid
                 @ ''&mode=login&redirectTarget=cli''\<rparr>), en'))"

subsection \<open>Attempts in flight\<close>

record pending_login =
  pl_verifier :: string
  pl_cursor_uuid :: string
  pl_deadline :: time

type_synonym pending_store = "string \<Rightarrow> pending_login option"

definition new_pending_store :: pending_store where
  "new_pending_store = (\<lambda>i. None)"

definition pending_put :: "string \<Rightarrow> pending_login \<Rightarrow> pending_store \<Rightarrow> pending_store" where
  "pending_put attemptID p s = s(attemptID \<mapsto> p)"

definition pending_get :: "pending_store \<Rightarrow> string \<Rightarrow> pending_login option" where
  "pending_get s attemptID = s attemptID"

definition pending_delete :: "string \<Rightarrow> pending_store \<Rightarrow> pending_store" where
  "pending_delete attemptID s = s(attemptID := None)"

interpretation pending: removable_store pending_put pending_get "\<lambda>s. True" pending_delete
  by unfold_locales (simp_all add: pending_put_def pending_get_def pending_delete_def)

subsection \<open>The poller\<close>

definition max_poll_duration :: int where
  "max_poll_duration = 15 * 60 * second"

definition max_consecutive_network_errors :: nat where
  "max_consecutive_network_errors = 3"

datatype login_status = LoginPending | LoginSuccess | LoginError

record poll_result =
  pr_status :: login_status
  pr_message :: string
  pr_access_token :: string
  pr_refresh_token :: string

record poller =
  po_pending :: pending_store
  po_network_errors :: "string \<Rightarrow> nat"

definition new_poller :: poller where
  "new_poller = \<lparr>po_pending = new_pending_store, po_network_errors = (\<lambda>i. 0)\<rparr>"

definition start_login :: "time \<Rightarrow> string \<Rightarrow> poller \<Rightarrow> entropy \<Rightarrow> (auth_params \<times> time) go_result \<times> poller \<times> entropy" where
  "start_login now uuid p en =
     (case generate_auth_params uuid en of
        (Ok params, en') \<Rightarrow>
          (Ok (params, now + max_poll_duration),
           p\<lparr>po_pending := pending_put (ap_uuid params) \<lparr>pl_verifier = ap_verifier params,
               pl_cursor_uuid = ap_uuid params, pl_deadline = now + max_poll_duration\<rparr> (po_pending p)\<rparr>, en')
      | (Err e, en') \<Rightarrow> (Err e, p, en')
      | (Panic e, en') \<Rightarrow> (Panic e, p, en'))"

subsection \<open>The server's answer\<close>

text \<open>
  What comes of a request: it cannot be built, the round trip fails, or a response with its status, the
  bytes \<open>io.ReadAll\<close> gets of its body and the error that cut them off, if any.
\<close>

datatype http_reply = NoRequest string | NoResponse string | Reply nat string "string option"

definition dec_token_response :: "json \<Rightarrow> (string \<times> string) go_result" where
  "dec_token_response = dec_struct (\<lambda>ms.
     go_bind (dec_field ''accessToken'' dec_string [] ms) (\<lambda>a.
     go_bind (dec_field ''refreshToken'' dec_string [] ms) (\<lambda>r. Ok (a, r)))) ([], [])"

subsection \<open>One check\<close>

definition clear_network_errors :: "string \<Rightarrow> poller \<Rightarrow> poller" where
  "clear_network_errors i p = p\<lparr>po_network_errors := (po_network_errors p)(i := 0)\<rparr>"

definition increment_network_errors :: "string \<Rightarrow> poller \<Rightarrow> nat \<times> poller" where
  "increment_network_errors i p =
     (let n = po_network_errors p i + 1 in (n, p\<lparr>po_network_errors := (po_network_errors p)(i := n)\<rparr>))"

definition poll_error :: "string \<Rightarrow> poll_result" where
  "poll_error m = \<lparr>pr_status = LoginError, pr_message = m, pr_access_token = [], pr_refresh_token = []\<rparr>"

definition poll_pending :: "string \<Rightarrow> poll_result" where
  "poll_pending m = \<lparr>pr_status = LoginPending, pr_message = m, pr_access_token = [], pr_refresh_token = []\<rparr>"

text \<open>
  What a check has left to do once its outcome is settled. The counter and the registry have a lock each, so
  each of the first three is an atomic step of its own and other checks may run before the next one.
\<close>

datatype check_pc =
    CountFailure string
  | DropPending poll_result
  | ClearCount poll_result
  | Returns poll_result

fun check_step :: "string \<Rightarrow> check_pc \<Rightarrow> poller \<Rightarrow> check_pc \<times> poller" where
  "check_step i (CountFailure e) p =
     (let (count, p') = increment_network_errors i p in
      (if max_consecutive_network_errors \<le> count
       then DropPending (poll_error (''network_error: too many consecutive poll failures ('' @ nat_str count @ ''): '' @ e))
       else Returns (poll_pending (''network_error: transient poll failure '' @ nat_str count @ ''/''
              @ nat_str max_consecutive_network_errors @ '', retrying: '' @ e)), p'))"
| "check_step i (DropPending r) p = (ClearCount r, p\<lparr>po_pending := pending_delete i (po_pending p)\<rparr>)"
| "check_step i (ClearCount r) p = (Returns r, clear_network_errors i p)"
| "check_step i (Returns r) p = (Returns r, p)"

text \<open>A check that nothing interrupts.\<close>

function run_check :: "string \<Rightarrow> check_pc \<Rightarrow> poller \<Rightarrow> poll_result \<times> poller" where
  "run_check i (Returns r) p = (r, p)"
| "run_check i (ClearCount r) p = (case check_step i (ClearCount r) p of (pc, p') \<Rightarrow> run_check i pc p')"
| "run_check i (DropPending r) p = (case check_step i (DropPending r) p of (pc, p') \<Rightarrow> run_check i pc p')"
| "run_check i (CountFailure e) p = (case check_step i (CountFailure e) p of (pc, p') \<Rightarrow> run_check i pc p')"
  by pat_completeness auto

fun steps_left :: "check_pc \<Rightarrow> nat" where
  "steps_left (CountFailure e) = 3"
| "steps_left (DropPending r) = 2"
| "steps_left (ClearCount r) = 1"
| "steps_left (Returns r) = 0"

termination run_check
  by (relation "measure (\<lambda>(i, pc, p). steps_left pc)") (auto simp: Let_def split: prod.splits if_splits)

text \<open>Before the request: how the check ends there, or the URL to request.\<close>

definition poll_begin :: "time \<Rightarrow> string \<Rightarrow> poller \<Rightarrow> check_pc + string" where
  "poll_begin now i p =
     (case pending_get (po_pending p) i of
        None \<Rightarrow> Inl (Returns (poll_error ''rejected: unknown or already-completed login attempt''))
      | Some pending \<Rightarrow>
          if pl_deadline pending < now
          then Inl (DropPending (poll_error ''timeout: login attempt expired after 15m0s''))
          else Inr (cursor_poll_url @ ''?uuid='' @ pl_cursor_uuid pending @ ''&verifier='' @ pl_verifier pending))"

text \<open>After it.\<close>

definition poll_end :: "http_reply \<Rightarrow> check_pc" where
  "poll_end reply =
     (case reply of
        NoRequest e \<Rightarrow> Returns (poll_error (''rejected: failed to build poll request: '' @ e))
      | NoResponse e \<Rightarrow> CountFailure e
      | Reply status body errRead \<Rightarrow>
          if status = 404 then ClearCount (poll_pending [])
          else (case errRead of
                  Some e \<Rightarrow> CountFailure e
                | None \<Rightarrow>
                    if status \<noteq> 200
                    then DropPending (poll_error (''rejected: cursor poll returned status '' @ nat_str status @ '': '' @ body))
                    else (case go_bind (json_unmarshal body) dec_token_response of
                            Err e \<Rightarrow> DropPending (poll_error (''rejected: failed to parse cursor poll response: '' @ e))
                          | Panic e \<Rightarrow> Returns (poll_error e)
                          | Ok (access, refresh) \<Rightarrow>
                              if access = [] then DropPending (poll_error ''rejected: cursor poll response missing access token'')
                              else DropPending \<lparr>pr_status = LoginSuccess, pr_message = [], pr_access_token = access,
                                     pr_refresh_token = refresh\<rparr>)))"

text \<open>A check on its own; \<open>serve\<close> is the server's answer to a URL.\<close>

definition poll :: "(string \<Rightarrow> http_reply) \<Rightarrow> time \<Rightarrow> string \<Rightarrow> poller \<Rightarrow> poll_result \<times> poller" where
  "poll serve now i p =
     (case poll_begin now i p of
        Inl pc \<Rightarrow> run_check i pc p
      | Inr url \<Rightarrow> run_check i (poll_end (serve url)) p)"

subsection \<open>A check on its own, in one step\<close>

text \<open>What the end of an attempt and a failure come to when nothing interrupts them.\<close>

definition drop_attempt :: "string \<Rightarrow> poller \<Rightarrow> poller" where
  "drop_attempt i p = clear_network_errors i (p\<lparr>po_pending := pending_delete i (po_pending p)\<rparr>)"

definition handle_network_error :: "string \<Rightarrow> string \<Rightarrow> poller \<Rightarrow> poll_result \<times> poller" where
  "handle_network_error i e p = run_check i (CountFailure e) p"

lemma run_drop [simp]: "run_check i (DropPending r) p = (r, drop_attempt i p)"
  by (simp add: drop_attempt_def)

lemma run_count [simp]: "run_check i (CountFailure e) p = handle_network_error i e p"
  by (simp add: handle_network_error_def)

declare run_check.simps(3,4) [simp del]

lemma handle_network_error_eq:
  "handle_network_error i e p =
     (if po_network_errors p i < 2
      then (poll_pending (''network_error: transient poll failure '' @ nat_str (Suc (po_network_errors p i)) @ ''/''
              @ nat_str max_consecutive_network_errors @ '', retrying: '' @ e),
            p\<lparr>po_network_errors := (po_network_errors p)(i := Suc (po_network_errors p i))\<rparr>)
      else (poll_error (''network_error: too many consecutive poll failures ('' @ nat_str (Suc (po_network_errors p i)) @ ''): '' @ e),
            drop_attempt i p))"
proof -
  have "max_consecutive_network_errors \<le> Suc n \<longleftrightarrow> \<not> n < 2" for n by (auto simp: max_consecutive_network_errors_def)
  then show ?thesis
    by (simp add: handle_network_error_def run_check.simps(4) increment_network_errors_def Let_def
        drop_attempt_def clear_network_errors_def del: nat_str.simps run_count)
qed

end
