(* ===== verification/Go_Time.thy ===== *)
theory Go_Time
  imports Go_Decode Go_Json_Laws
begin

section \<open>Package time: RFC 3339\<close>

text \<open>
  \<open>Format(time.RFC3339)\<close> of a UTC time and \<open>time.Parse(time.RFC3339, s)\<close>, as the persisted account
  file uses them (\<open>internal/auth/storage.go\<close>), over the proleptic Gregorian calendar. Parsing follows
  \<open>time.Parse\<close>, with its leniencies: one-digit hours, fractional seconds, zone offsets up to
  24:60.
\<close>

subsection \<open>The calendar\<close>

definition leap_year :: "int \<Rightarrow> bool" where
  "leap_year y = (y mod 4 = 0 \<and> (y mod 100 \<noteq> 0 \<or> y mod 400 = 0))"

definition month_lengths :: "int \<Rightarrow> int list" where
  "month_lengths y = [31, if leap_year y then 29 else 28, 31, 30, 31, 30, 31, 31, 30, 31, 30, 31]"

text \<open>The days before January 1 of a year, counted from January 1 of the year 1.\<close>

definition year_start :: "int \<Rightarrow> int" where
  "year_start y = 365 * (y - 1) + (y - 1) div 4 - (y - 1) div 100 + (y - 1) div 400"

text \<open>The year of a day: cycles of 400, 100, 4 and 1 years.\<close>

definition year_of :: "int \<Rightarrow> int" where
  "year_of d =
     (let n400 = d div 146097; d1 = d mod 146097;
          n100 = min 3 (d1 div 36524); d2 = d1 - 36524 * n100;
          n4 = d2 div 1461; d3 = d2 mod 1461;
          n1 = min 3 (d3 div 365)
      in 400 * n400 + 100 * n100 + 4 * n4 + n1 + 1)"

fun split_month :: "int \<Rightarrow> int \<Rightarrow> int list \<Rightarrow> int \<times> int" where
  "split_month m yday [] = (m, yday + 1)"
| "split_month m yday (l # ls) = (if yday < l then (m, yday + 1) else split_month (m + 1) (yday - l) ls)"

subsection \<open>Formatting\<close>

text \<open>\<open>appendInt\<close>: decimal, zero-padded to a width.\<close>

definition pad_nat :: "nat \<Rightarrow> nat \<Rightarrow> string" where
  "pad_nat w n = replicate (w - length (nat_str n)) CHR ''0'' @ nat_str n"

definition pad_int :: "nat \<Rightarrow> int \<Rightarrow> string" where
  "pad_int w n = (if n < 0 then CHR ''-'' # pad_nat w (nat (- n)) else pad_nat w (nat n))"

definition format_rfc3339 :: "time \<Rightarrow> string" where
  "format_rfc3339 t =
     (let secs = t div second; d = secs div 86400; s = secs mod 86400;
          y = year_of d; (m, md) = split_month 1 (d - year_start y) (month_lengths y)
      in pad_int 4 y @ CHR ''-'' # pad_int 2 m @ CHR ''-'' # pad_int 2 md @ CHR ''T'' #
         pad_int 2 (s div 3600) @ CHR '':'' # pad_int 2 (s mod 3600 div 60) @ CHR '':'' # pad_int 2 (s mod 60) @ ''Z'')"

subsection \<open>Parsing\<close>

definition take_fixed :: "nat \<Rightarrow> string \<Rightarrow> (int \<times> string) option" where
  "take_fixed k s =
     (if k \<le> length s \<and> list_all is_digit (take k s) then Some (int (digits_val 0 (take k s)), drop k s) else None)"

text \<open>One or two digits.\<close>

definition take_hour :: "string \<Rightarrow> (int \<times> string) option" where
  "take_hour s = (case take_fixed 2 s of Some r \<Rightarrow> Some r | None \<Rightarrow> take_fixed 1 s)"

definition skip_char :: "char \<Rightarrow> string \<Rightarrow> string option" where
  "skip_char c s = (case s of d # r \<Rightarrow> if d = c then Some r else None | [] \<Rightarrow> None)"

text \<open>A fraction of a second, to nanoseconds: at most nine digits count.\<close>

definition take_fraction :: "string \<Rightarrow> int \<times> string" where
  "take_fraction s =
     (case s of
        c # d # r \<Rightarrow>
          if (c = CHR ''.'' \<or> c = CHR '','') \<and> is_digit d
          then (let ds = take 9 (takeWhile is_digit (d # r))
                in (int (digits_val 0 ds) * 10 ^ (9 - length ds), dropWhile is_digit (d # r)))
          else (0, s)
      | _ \<Rightarrow> (0, s))"

text \<open>The zone, in seconds east of UTC.\<close>

definition parse_zone :: "string \<Rightarrow> int option" where
  "parse_zone s =
     (case s of
        [] \<Rightarrow> None
      | c # r \<Rightarrow>
          if c = CHR ''Z'' then (if r = [] then Some 0 else None)
          else if length s \<noteq> 6 \<or> s ! 3 \<noteq> CHR '':'' then None
          else (case (take_fixed 2 (take 2 r), take_fixed 2 (drop 4 s)) of
                  (Some (h, _), Some (m, _)) \<Rightarrow>
                    if 24 < h \<or> 60 < m then None
                    else if c = CHR ''+'' then Some ((h * 60 + m) * 60)
                    else if c = CHR ''-'' then Some (- ((h * 60 + m) * 60)) else None
                | _ \<Rightarrow> None))"

definition civil_time :: "int \<Rightarrow> int \<Rightarrow> int \<Rightarrow> int \<Rightarrow> time" where
  "civil_time y m d secs = ((year_start y + sum_list (take (nat (m - 1)) (month_lengths y)) + (d - 1)) * 86400 + secs) * second"

definition opt_bind :: "'a option \<Rightarrow> ('a \<Rightarrow> 'b option) \<Rightarrow> 'b option" where
  "opt_bind m f = (case m of None \<Rightarrow> None | Some x \<Rightarrow> f x)"

definition parse_rfc3339 :: "string \<Rightarrow> time option" where
  "parse_rfc3339 s0 =
     opt_bind (take_fixed 4 s0) (\<lambda>(y, s). opt_bind (skip_char CHR ''-'' s) (\<lambda>s.
     opt_bind (take_fixed 2 s) (\<lambda>(m, s). opt_bind (skip_char CHR ''-'' s) (\<lambda>s.
     opt_bind (take_fixed 2 s) (\<lambda>(d, s). opt_bind (skip_char CHR ''T'' s) (\<lambda>s.
     opt_bind (take_hour s) (\<lambda>(h, s). opt_bind (skip_char CHR '':'' s) (\<lambda>s.
     opt_bind (take_fixed 2 s) (\<lambda>(mi, s). opt_bind (skip_char CHR '':'' s) (\<lambda>s.
     opt_bind (take_fixed 2 s) (\<lambda>(sec, s).
       let (ns, s) = take_fraction s in
       opt_bind (parse_zone s) (\<lambda>offset.
         if m < 1 \<or> 12 < m \<or> 24 \<le> h \<or> 60 \<le> mi \<or> 60 \<le> sec then None
         else if d < 1 \<or> month_lengths y ! nat (m - 1) < d then None
         else Some (civil_time y m d (h * 3600 + mi * 60 + sec - offset) + ns)))))))))))))"

subsection \<open>The calendar's laws\<close>

lemma div_pred:
  assumes "0 < (k :: int)" shows "y div k = (y - 1) div k + (if y mod k = 0 then 1 else 0)"
proof -
  define q r where "q = (y - 1) div k" and "r = (y - 1) mod k"
  have r: "0 \<le> r" "r < k" and "y - 1 = q * k + r"
    using assms by (simp_all add: q_def r_def)
  then have y: "y = r + 1 + q * k" by linarith
  show ?thesis
  proof (cases "r + 1 = k")
    case True
    then have "y = (q + 1) * k" using y by (simp add: algebra_simps)
    then have "y div k = q + 1" and "y mod k = 0" using assms by (metis nonzero_mult_div_cancel_right less_irrefl, metis mod_mult_self2_is_0)
    then show ?thesis using q_def by simp
  next
    case False
    then have r1: "0 \<le> r + 1" "r + 1 < k" using r by simp_all
    then have "(r + 1) div k = 0" and "(r + 1) mod k = r + 1" by (rule div_pos_pos_trivial, rule mod_pos_pos_trivial)
    then have "y div k = q" and "y mod k = r + 1"
      unfolding y using assms by (simp_all del: div_pos_pos_trivial mod_pos_pos_trivial)
    then show ?thesis using r q_def by simp
  qed
qed

lemma year_start_Suc: "year_start (y + 1) = year_start y + (if leap_year y then 366 else 365)"
proof -
  have dv1: "100 dvd y \<Longrightarrow> 4 dvd y" by (rule dvd_trans [of 4 100]) simp_all
  have dv2: "400 dvd y \<Longrightarrow> 100 dvd y" by (rule dvd_trans [of 100 400]) simp_all
  have "year_start (y + 1) = 365 * y + y div 4 - y div 100 + y div 400"
    by (simp add: year_start_def)
  also have "\<dots> = 365 * y + ((y - 1) div 4 + (if 4 dvd y then 1 else 0)) - ((y - 1) div 100 + (if 100 dvd y then 1 else 0))
      + ((y - 1) div 400 + (if 400 dvd y then 1 else 0))"
    using div_pred [of 4 y] div_pred [of 100 y] div_pred [of 400 y] by (simp only: dvd_eq_mod_eq_0 [symmetric])
  also have "\<dots> = year_start y + (if leap_year y then 366 else 365)"
    unfolding year_start_def leap_year_def dvd_eq_mod_eq_0 [symmetric] using dv1 dv2
    by (cases "4 dvd y"; cases "100 dvd y"; cases "400 dvd y") simp_all
  finally show ?thesis .
qed

lemma sum_month_lengths: "sum_list (month_lengths y) = (if leap_year y then 366 else 365)"
  by (simp add: month_lengths_def)

lemma year_start_cycle:
  assumes "0 \<le> b" "b \<le> 3" "0 \<le> c" "c \<le> 24" "0 \<le> e" "e \<le> 3"
  shows "year_start (400 * a + 100 * b + 4 * c + e + 1) = 146097 * a + 36524 * b + 1461 * c + 365 * e"
proof -
  define n where "n = 400 * a + 100 * b + 4 * c + e"
  have "n div 4 = 100 * a + 25 * b + c" "n div 100 = 4 * a + b" "n div 400 = a"
    using assms by (simp_all add: n_def)
  then show ?thesis unfolding year_start_def n_def [symmetric] by (simp add: n_def)
qed

lemma split_min3:
  assumes "0 \<le> d" and "d \<le> 4 * k" and "0 < (k :: int)" and "n = min 3 (d div k)"
  shows "0 \<le> n" and "n \<le> 3" and "0 \<le> d - k * n" and "d - k * n < k \<or> n = 3 \<and> d - k * n \<le> k"
proof -
  have dk: "d = k * (d div k) + d mod k" "0 \<le> d mod k" "d mod k < k" "0 \<le> d div k"
    using assms by (simp_all add: pos_imp_zdiv_nonneg_iff)
  show "0 \<le> n" "n \<le> 3" using assms(4) dk by auto
  show "0 \<le> d - k * n" and "d - k * n < k \<or> n = 3 \<and> d - k * n \<le> k"
  proof (atomize (full), cases "d div k \<le> 3")
    case True
    then have "n = d div k" using assms(4) by simp
    then show "0 \<le> d - k * n \<and> (d - k * n < k \<or> n = 3 \<and> d - k * n \<le> k)" using dk by (simp add: minus_mult_div_eq_mod)
  next
    case False
    then have n: "n = 3" using assms(4) by simp
    have "k * 3 \<le> k * (d div k)" using False assms(3) by (intro mult_left_mono) simp_all
    then show "0 \<le> d - k * n \<and> (d - k * n < k \<or> n = 3 \<and> d - k * n \<le> k)"
      using dk(1,2) assms(2) unfolding n by linarith
  qed
qed

lemma year_of_bounds: "year_start (year_of d) \<le> d \<and> d < year_start (year_of d + 1)"
proof -
  define a d1 where "a = d div 146097" and "d1 = d mod 146097"
  define b where "b = min 3 (d1 div 36524)"
  define d2 where "d2 = d1 - 36524 * b"
  define c d3 where "c = d2 div 1461" and "d3 = d2 mod 1461"
  define e where "e = min 3 (d3 div 365)"
  have y: "year_of d = 400 * a + 100 * b + 4 * c + e + 1"
    by (simp only: year_of_def Let_def a_def d1_def b_def d2_def c_def d3_def e_def)
  have d1: "0 \<le> d1" "d1 \<le> 4 * 36524" "d1 \<le> 146096" "d = 146097 * a + d1"
    unfolding d1_def a_def using pos_mod_bound [of 146097 d] by simp_all
  have b: "0 \<le> b" "b \<le> 3" "0 \<le> d2" "d2 < 36524 \<or> b = 3 \<and> d2 \<le> 36524"
    using split_min3 [OF d1(1,2) _ b_def] unfolding d2_def by simp_all
  have d3: "0 \<le> d3" "d3 \<le> 4 * 365" "d2 = 1461 * c + d3"
    unfolding d3_def c_def using pos_mod_bound [of 1461 d2] by simp_all
  have "d2 \<le> 36524" using b(4) by auto
  then have c: "0 \<le> c" "c \<le> 24" using d3 b(3) by linarith+
  have e: "0 \<le> e" "e \<le> 3" "0 \<le> d3 - 365 * e" "d3 - 365 * e < 365 \<or> e = 3 \<and> d3 - 365 * e \<le> 365"
    using split_min3 [OF d3(1,2) _ e_def] by simp_all
  have ys: "year_start (year_of d) = 146097 * a + 36524 * b + 1461 * c + 365 * e"
    unfolding y using b(1,2) c e(1,2) by (rule year_start_cycle)
  have rest: "d = year_start (year_of d) + (d3 - 365 * e)" using ys d1(4) d3(3) d2_def by linarith
  have leap: "leap_year (year_of d)" if last: "d3 - 365 * e = 365"
  proof -
    have "e = 3" using e(4) last by simp
    then have "d3 = 1460" using last by simp
    show ?thesis
    proof (cases "c = 24")
      case True
      then have "d2 = 36524" using d3(3) \<open>d3 = 1460\<close> by simp
      then have "b = 3" using b(4) by simp
      then have "year_of d = 400 * (a + 1)" using y True \<open>e = 3\<close> by simp
      then have "400 dvd year_of d" by (rule dvdI)
      then show ?thesis
        unfolding leap_year_def using dvd_trans [of 4 400 "year_of d"] by (simp add: dvd_eq_mod_eq_0)
    next
      case False
      then have "0 < 4 * (c + 1)" "4 * (c + 1) < 100" using c by simp_all
      moreover have "year_of d = 4 * (c + 1) + 100 * (4 * a + b)" using y \<open>e = 3\<close> by simp
      ultimately have "year_of d mod 100 = 4 * (c + 1)"
        by (metis mod_mult_self2 mod_pos_pos_trivial less_imp_le)
      moreover have "year_of d = 4 * (c + 1 + 25 * (4 * a + b))" using y \<open>e = 3\<close> by simp
      then have "year_of d mod 4 = 0" by (metis mod_mult_self1_is_0)
      ultimately show ?thesis using \<open>0 < 4 * (c + 1)\<close> unfolding leap_year_def by simp
    qed
  qed
  show ?thesis
  proof (cases "d3 - 365 * e = 365")
    case True
    then show ?thesis using rest leap unfolding year_start_Suc by simp
  next
    case False
    then have "0 \<le> d3 - 365 * e" "d3 - 365 * e < 365" using e(3,4) by auto
    then show ?thesis using rest unfolding year_start_Suc by (simp split: if_splits)
  qed
qed

lemma split_month_inverse:
  assumes "split_month m yday ls = (m', md)" and "0 \<le> yday" and "yday < sum_list ls"
  shows "m \<le> m' \<and> m' < m + int (length ls) \<and> 1 \<le> md \<and> md \<le> ls ! nat (m' - m)
    \<and> sum_list (take (nat (m' - m)) ls) + (md - 1) = yday"
  using assms
proof (induction m yday ls rule: split_month.induct)
  case (2 m yday l ls)
  show ?case
  proof (cases "yday < l")
    case True
    then show ?thesis using 2 by auto
  next
    case False
    then have ih: "m + 1 \<le> m' \<and> m' < m + 1 + int (length ls) \<and> 1 \<le> md \<and> md \<le> ls ! nat (m' - (m + 1))
        \<and> sum_list (take (nat (m' - (m + 1))) ls) + (md - 1) = yday - l"
      using 2 by simp
    then have "nat (m' - m) = Suc (nat (m' - (m + 1)))" by linarith
    then show ?thesis using ih by auto
  qed
qed simp

subsection \<open>Digits\<close>

lemma digits_val_append: "digits_val n (s @ t) = digits_val (digits_val n s) t"
  by (induction s arbitrary: n) auto

lemma pad_nat_digits: "pad_nat w n \<noteq> [] \<and> list_all is_digit (pad_nat w n)"
  using nat_str_digits [of n] by (auto simp: pad_nat_def list_all_iff is_digit_def code_def)

lemma digits_val_zeros: "digits_val 0 (replicate k CHR ''0'' @ s) = digits_val 0 s"
  by (induction k) (simp_all add: code_def)

lemma digits_val_nat_str: "digits_val 0 (nat_str n) = n"
proof (induction n rule: nat_str.induct)
  case (1 n)
  show ?case
  proof (cases "n < 10")
    case True
    then show ?thesis by (subst nat_str.simps) (simp add: code_def)
  next
    case False
    then show ?thesis using 1 by (subst nat_str.simps) (simp add: digits_val_append code_def)
  qed
qed

lemma digits_val_pad_nat: "digits_val 0 (pad_nat w n) = n"
  by (simp add: pad_nat_def digits_val_zeros digits_val_nat_str)

lemma length_nat_str: "n < 10 ^ w \<Longrightarrow> 0 < w \<Longrightarrow> length (nat_str n) \<le> w"
proof (induction n arbitrary: w rule: nat_str.induct)
  case (1 n)
  show ?case
  proof (cases "n < 10")
    case True
    then show ?thesis using 1(3) by (subst nat_str.simps) simp
  next
    case False
    obtain v where w: "w = Suc v" using 1(3) by (cases w) auto
    have "0 < v" using False 1(2) w by (cases v) auto
    moreover have "n div 10 < 10 ^ v" using 1(2) w by (simp add: less_mult_imp_div_less)
    ultimately have "length (nat_str (n div 10)) \<le> v" using 1(1) False by simp
    then show ?thesis using False w by (subst nat_str.simps) simp
  qed
qed

lemma length_pad_nat: "n < 10 ^ w \<Longrightarrow> 0 < w \<Longrightarrow> length (pad_nat w n) = w"
  using length_nat_str [of n w] by (simp add: pad_nat_def)

lemma take_fixed_pad: "0 \<le> n \<Longrightarrow> n < 10 ^ w \<Longrightarrow> 0 < w \<Longrightarrow> take_fixed w (pad_int w n @ s) = Some (n, s)"
proof -
  assume a: "0 \<le> n" "n < 10 ^ w" "0 < w"
  then have "nat n < 10 ^ w" by (simp add: nat_less_iff)
  then show ?thesis using a pad_nat_digits [of w "nat n"]
    by (simp add: take_fixed_def pad_int_def length_pad_nat digits_val_pad_nat)
qed

lemma take_hour_pad: "0 \<le> n \<Longrightarrow> n < 100 \<Longrightarrow> take_hour (pad_int 2 n @ s) = Some (n, s)"
  by (simp add: take_hour_def take_fixed_pad)

lemma year_of_range:
  assumes "0 \<le> d" and "d < 3652059"
  shows "1 \<le> year_of d" and "year_of d \<le> 9999"
proof -
  have mono: "year_start x \<le> year_start y" if "x \<le> y" for x y
    using that by (induction y rule: int_ge_induct) (auto simp: year_start_Suc)
  have "year_start 1 = 0" "year_start 10000 = 3652059" by (simp_all add: year_start_def)
  then show "1 \<le> year_of d" "year_of d \<le> 9999"
    using year_of_bounds [of d] assms mono [of "year_of d + 1" 1] mono [of 10000 "year_of d"] by (cases "year_of d \<le> 0"; cases "10000 \<le> year_of d"; simp)+
qed

lemma parse_rfc3339_canonical:
  assumes "1 \<le> y" "y \<le> 9999" "1 \<le> m" "m < 13" "1 \<le> d" "d \<le> month_lengths y ! nat (m - 1)" "d < 100"
    and "0 \<le> h" "h < 24" "0 \<le> mi" "mi < 60" "0 \<le> sec" "sec < 60"
  shows "parse_rfc3339 (pad_int 4 y @ CHR ''-'' # pad_int 2 m @ CHR ''-'' # pad_int 2 d @ CHR ''T'' #
         pad_int 2 h @ CHR '':'' # pad_int 2 mi @ CHR '':'' # pad_int 2 sec @ ''Z'') =
    Some (civil_time y m d (h * 3600 + mi * 60 + sec))"
  using assms
  by (simp add: parse_rfc3339_def take_fixed_pad take_hour_pad opt_bind_def skip_char_def take_fraction_def parse_zone_def)

text \<open>A time survives formatting and parsing, to the second, in the years a persisted file can hold.\<close>

lemma rfc3339_round_trip:
  assumes "0 \<le> t" and "t < 315537897600 * second"
  shows "parse_rfc3339 (format_rfc3339 t) = Some (t div second * second)"
proof -
  define secs d s y where "secs = t div second" and "d = secs div 86400" and "s = secs mod 86400" and "y = year_of d"
  obtain m md where md: "split_month 1 (d - year_start y) (month_lengths y) = (m, md)" by (meson surj_pair)
  have secs: "0 \<le> secs" "secs < 315537897600" using assms by (simp_all add: secs_def second_def)
  then have d: "0 \<le> d" "d < 3652059" by (simp_all add: d_def)
  have s: "0 \<le> s" "s < 86400" "secs = d * 86400 + s" by (simp_all add: s_def d_def)
  have y: "1 \<le> y" "y \<le> 9999" using year_of_range [OF d] by (simp_all add: y_def)
  have yd: "0 \<le> d - year_start y" "d - year_start y < sum_list (month_lengths y)"
    using year_of_bounds [of d] by (simp_all add: y_def year_start_Suc sum_month_lengths split: if_splits)
  have mm: "1 \<le> m" "m < 13" "1 \<le> md" "md \<le> month_lengths y ! nat (m - 1)"
    "year_start y + sum_list (take (nat (m - 1)) (month_lengths y)) + (md - 1) = d"
    using split_month_inverse [OF md yd] by (simp_all add: month_lengths_def)
  have md31: "md < 100"
  proof -
    have "month_lengths y ! nat (m - 1) \<in> set (month_lengths y)" using mm by (intro nth_mem) (simp add: month_lengths_def)
    then show ?thesis using mm(4) by (auto simp: month_lengths_def split: if_splits)
  qed
  have f: "format_rfc3339 t = pad_int 4 y @ CHR ''-'' # pad_int 2 m @ CHR ''-'' # pad_int 2 md @ CHR ''T'' #
         pad_int 2 (s div 3600) @ CHR '':'' # pad_int 2 (s mod 3600 div 60) @ CHR '':'' # pad_int 2 (s mod 60) @ ''Z''"
    using md by (simp add: format_rfc3339_def Let_def secs_def d_def s_def y_def)
  have h: "0 \<le> s div 3600" "s div 3600 < 24" "0 \<le> s mod 3600 div 60" "s mod 3600 div 60 < 60" "0 \<le> s mod 60" "s mod 60 < 60"
    using s by simp_all
  have hms: "s div 3600 * 3600 + s mod 3600 div 60 * 60 + s mod 60 = s"
  proof -
    have "s mod 3600 div 60 * 60 + s mod 60 = s mod 3600"
      using mod_mod_cancel [of 60 3600 s] div_mult_mod_eq [of "s mod 3600" 60] by simp
    then show ?thesis using div_mult_mod_eq [of s 3600] by linarith
  qed
  have "parse_rfc3339 (format_rfc3339 t) = Some (civil_time y m md (s div 3600 * 3600 + s mod 3600 div 60 * 60 + s mod 60))"
    unfolding f by (rule parse_rfc3339_canonical [OF y mm(1-4) md31 h])
  then have "parse_rfc3339 (format_rfc3339 t) = Some (civil_time y m md s)" unfolding hms .
  moreover have "civil_time y m md s = t div second * second"
    using mm(5) s(3) by (simp add: civil_time_def secs_def)
  ultimately show ?thesis by simp
qed

end
