(* ===== verification/Token_Storage.thy ===== *)
theory Token_Storage
  imports Go_Time Go_Base64 Go_Decode
begin

section \<open>Stored accounts and token expiry\<close>

text \<open>
  \<open>internal/auth/storage.go\<close>: the JSON file an account is persisted in; and
  \<open>internal/auth/expiry.go\<close>: when a token is due for refresh, read from the payload of the JWT.
  The expiry claim is a \<open>float64\<close>, so the literal is rounded as \<open>strconv.ParseFloat\<close> does.
\<close>

subsection \<open>Reading a float64\<close>

fun bit_len :: "nat \<Rightarrow> nat" where
  "bit_len n = (if n = 0 then 0 else Suc (bit_len (n div 2)))"

declare bit_len.simps [simp del]

text \<open>Division rounded to the nearest integer, ties to even.\<close>

definition div_nearest :: "nat \<Rightarrow> nat \<Rightarrow> nat" where
  "div_nearest p q =
     (let n = p div q; r = p mod q in if 2 * r < q \<or> 2 * r = q \<and> even n then n else Suc n)"

text \<open>\<open>p / q\<close> scaled by a power of two.\<close>

definition scale_div :: "nat \<Rightarrow> nat \<Rightarrow> int \<Rightarrow> nat" where
  "scale_div p q k = (if 0 \<le> k then div_nearest p (q * 2 ^ nat k) else div_nearest (p * 2 ^ nat (- k)) q)"

text \<open>
  The \<open>float64\<close> nearest to \<open>p / q\<close>, as a mantissa of at most 53 bits and the exponent of its last bit, which
  is at least -1074.
\<close>

definition float64_of_ratio :: "nat \<Rightarrow> nat \<Rightarrow> nat \<times> int" where
  "float64_of_ratio p q =
     (let e = int (bit_len p) - int (bit_len q);
          below = (if 0 \<le> e then p < q * 2 ^ nat e else p * 2 ^ nat (- e) < q);
          k = max (- 1074) ((if below then e - 1 else e) - 52)
      in (scale_div p q k, k))"

text \<open>The integral part of a decimal literal's \<open>float64\<close>, and whether that \<open>float64\<close> is zero.\<close>

definition float64_trunc :: "string \<Rightarrow> int \<times> bool" where
  "float64_trunc l =
     (let (i, f) = num_mantissa l; m = digits_val 0 (i @ f); e = num_exponent l - int (length f);
          (mant, k) = float64_of_ratio (if 0 \<le> e then m * 10 ^ nat e else m) (if 0 \<le> e then 1 else 10 ^ nat (- e));
          n = (if 0 \<le> k then int mant * 2 ^ nat k else int mant div 2 ^ nat (- k))
      in (if take 1 l = ''-'' then - n else n, mant = 0))"

subsection \<open>getTokenExpiry\<close>

definition default_expiry_fallback :: int where
  "default_expiry_fallback = 3600 * second"

definition refresh_skew :: int where
  "refresh_skew = 5 * 60 * second"

text \<open>A \<open>float64\<close> claim: its integral part and whether it is zero.\<close>

fun dec_float64 :: "int \<times> bool \<Rightarrow> json \<Rightarrow> (int \<times> bool) go_result" where
  "dec_float64 cur (JNum l) = (if float64_overflow l then type_error else Ok (float64_trunc l))"
| "dec_float64 cur JNull = Ok cur"
| "dec_float64 cur v = type_error"

definition dec_jwt_claims :: "json \<Rightarrow> (int \<times> bool) go_result" where
  "dec_jwt_claims = dec_struct (dec_field ''exp'' dec_float64 (0, True)) (0, True)"

text \<open>\<open>strings.Split\<close> at a character.\<close>

fun split_at :: "char \<Rightarrow> string \<Rightarrow> string list" where
  "split_at c [] = [[]]"
| "split_at c (d # s) =
     (if d = c then [] # split_at c s
      else (case split_at c s of p # ps \<Rightarrow> (d # p) # ps | [] \<Rightarrow> [[d]]))"

definition wrap64 :: "int \<Rightarrow> int" where
  "wrap64 n = sint (word_of_int n :: 64 word)"

text \<open>
  \<open>int64\<close> of a \<open>float64\<close>: the integral part, or, out of range, what the processor gives, the parameter
  \<open>huge\<close>. \<open>time.Unix\<close> adds the seconds from the year 1 to the Unix epoch with wrap-around, and
  \<open>Add\<close> saturates.
\<close>

definition int64_of_float :: "(int \<Rightarrow> int) \<Rightarrow> int \<Rightarrow> int" where
  "int64_of_float huge n = (if - (2 ^ 63) \<le> n \<and> n < 2 ^ 63 then n else huge n)"

definition unix_to_internal :: int where
  "unix_to_internal = 62135596800"

definition time_unix :: "int \<Rightarrow> int" where
  "time_unix sec = wrap64 (sec + unix_to_internal)"

definition add_sec :: "int \<Rightarrow> int \<Rightarrow> int" where
  "add_sec ext d =
     (let s = wrap64 (ext + d) in
      if (ext < s) = (0 < d) then s else if 0 < d then 2 ^ 63 - 1 else - (2 ^ 63 - 1))"

definition get_token_expiry :: "(int \<Rightarrow> int) \<Rightarrow> time \<Rightarrow> string \<Rightarrow> time" where
  "get_token_expiry huge now token =
     (let parts = split_at CHR ''.'' token; fallback = now + default_expiry_fallback in
      if length parts \<noteq> 3 \<or> parts ! 1 = [] then fallback
      else case b64_decode (parts ! 1) of
             None \<Rightarrow> fallback
           | Some payload \<Rightarrow>
               (case go_bind (json_unmarshal (of_bytes payload)) dec_jwt_claims of
                  Ok (n, zero) \<Rightarrow>
                    if zero then fallback
                    else add_sec (time_unix (int64_of_float huge n)) (- (refresh_skew div second)) * second
                | _ \<Rightarrow> fallback))"

subsection \<open>TokenStorage\<close>

record token_storage =
  ts_access_token :: string
  ts_refresh_token :: string
  ts_expired :: string
  ts_type :: string

definition new_token_storage :: "string \<Rightarrow> string \<Rightarrow> time \<Rightarrow> token_storage" where
  "new_token_storage accessToken refreshToken expiresAt =
     \<lparr>ts_access_token = accessToken, ts_refresh_token = refreshToken,
      ts_expired = (if expiresAt = 0 then [] else format_rfc3339 expiresAt), ts_type = ''cursor''\<rparr>"

definition token_storage_marshal :: "token_storage \<Rightarrow> string" where
  "token_storage_marshal t = json_print (jobj
     ([(''access_token'', jstr (ts_access_token t)), (''refresh_token'', jstr (ts_refresh_token t))]
      @ (if ts_expired t = [] then [] else [(''expired'', jstr (ts_expired t))])
      @ [(''type'', jstr (ts_type t))]))"

definition parse_token_storage :: "string \<Rightarrow> token_storage go_result" where
  "parse_token_storage raw =
     go_bind (json_unmarshal raw) (dec_struct (\<lambda>ms.
       go_bind (dec_field ''access_token'' dec_string [] ms) (\<lambda>a.
       go_bind (dec_field ''refresh_token'' dec_string [] ms) (\<lambda>r.
       go_bind (dec_field ''expired'' dec_string [] ms) (\<lambda>e.
       go_bind (dec_field ''type'' dec_string [] ms) (\<lambda>t.
       Ok \<lparr>ts_access_token = a, ts_refresh_token = r, ts_expired = e, ts_type = t\<rparr>)))))
       \<lparr>ts_access_token = [], ts_refresh_token = [], ts_expired = [], ts_type = []\<rparr>)"

definition expires_at :: "token_storage \<Rightarrow> time" where
  "expires_at t =
     (if ts_expired t = [] then 0 else case parse_rfc3339 (ts_expired t) of Some x \<Rightarrow> x | None \<Rightarrow> 0)"

text \<open>The metadata map handed to the host: the given entries under \<open>type\<close> and \<open>access_token\<close>.\<close>

definition auth_metadata :: "string \<Rightarrow> (string \<Rightarrow> json option) \<Rightarrow> string \<Rightarrow> json option" where
  "auth_metadata accessToken metadata = metadata(''type'' \<mapsto> jstr ''cursor'', ''access_token'' \<mapsto> jstr accessToken)"

subsection \<open>The persisted file\<close>

lemma digit_ascii: "is_digit c \<Longrightarrow> code c < 128"
  by (simp add: is_digit_def)

lemma pad_int_ascii: "\<forall>c \<in> set (pad_int w n). code c < 128"
  using pad_nat_digits [of w "nat n"] pad_nat_digits [of w "nat (- n)"]
  by (auto simp: pad_int_def list_all_iff code_def dest!: digit_ascii)

lemma format_rfc3339_utf8: "utf8_valid (format_rfc3339 t)"
proof (rule utf8_valid_ascii)
  have "\<forall>c \<in> set ''-T:Z''. code c < 128" by code_simp
  then show "\<forall>c \<in> set (format_rfc3339 t). code c < 128"
    using pad_int_ascii by (auto simp: format_rfc3339_def Let_def split: prod.split)
qed

lemma parse_marshal_storage:
  assumes "utf8_valid (ts_access_token st)" and "utf8_valid (ts_refresh_token st)"
    and "utf8_valid (ts_expired st)" and "utf8_valid (ts_type st)"
  shows "parse_token_storage (token_storage_marshal st) = Ok st"
proof -
  have "json_ok max_nesting (jobj
     ([(''access_token'', jstr (ts_access_token st)), (''refresh_token'', jstr (ts_refresh_token st))]
      @ (if ts_expired st = [] then [] else [(''expired'', jstr (ts_expired st))])
      @ [(''type'', jstr (ts_type st))]))"
    using json_ok_jobj [of "max_nesting - 1"] by (simp add: max_nesting_def)
  then show ?thesis
    using assms unfolding parse_token_storage_def token_storage_marshal_def
    by (simp add: json_unmarshal_print decode_simps)
qed

lemma new_token_storage_fields:
  "utf8_valid (ts_expired (new_token_storage a r t))" "utf8_valid (ts_type (new_token_storage a r t))"
  using format_rfc3339_utf8 by (simp_all add: new_token_storage_def utf8_valid_ascii code_def)

text \<open>
  an account survives a restart of the host: the file written for fresh tokens parses back to the same
  tokens, and its expiry is the original one cut to the second.
\<close>

theorem token_storage_round_trip:
  assumes "utf8_valid a" and "utf8_valid r" and "0 \<le> t" and "t < 315537897600 * second"
  shows "parse_token_storage (token_storage_marshal (new_token_storage a r t)) = Ok (new_token_storage a r t)
    \<and> expires_at (new_token_storage a r t) = t div second * second"
proof
  show "parse_token_storage (token_storage_marshal (new_token_storage a r t)) = Ok (new_token_storage a r t)"
    using assms(1,2) by (intro parse_marshal_storage new_token_storage_fields) (simp_all add: new_token_storage_def)
  have "format_rfc3339 t \<noteq> []" by (auto simp: format_rfc3339_def Let_def split: prod.split)
  then show "expires_at (new_token_storage a r t) = t div second * second"
    using rfc3339_round_trip [OF assms(3,4)] by (simp add: expires_at_def new_token_storage_def)
qed

lemma token_storage_round_trip_witness:
  "expires_at (new_token_storage ''tok'' ''ref'' (63891196500 * second + 7)) = 63891196500 * second"
  using token_storage_round_trip [of "''tok''" "''ref''" "63891196500 * second + 7"]
  by (simp add: utf8_valid_ascii code_def second_def)

subsection \<open>The expiry of a token\<close>

lemma bit_len_simps [simp]: "bit_len 0 = 0" "bit_len (Suc 0) = 1"
  by (simp_all add: bit_len.simps)

lemma bit_len_bounds: "n < 2 ^ bit_len n \<and> (n \<noteq> 0 \<longrightarrow> 2 ^ (bit_len n - 1) \<le> n)"
proof (induction n rule: bit_len.induct)
  case (1 n)
  show ?case
  proof (cases "n = 0")
    case True
    then show ?thesis by simp
  next
    case False
    then have ih: "n div 2 < 2 ^ bit_len (n div 2)" "n div 2 \<noteq> 0 \<longrightarrow> 2 ^ (bit_len (n div 2) - 1) \<le> n div 2"
      using 1 by simp_all
    have len: "bit_len n = Suc (bit_len (n div 2))" using False by (subst bit_len.simps) simp
    show ?thesis
    proof (cases "n div 2 = 0")
      case True
      then have "n = 1" using False by linarith
      then show ?thesis by simp
    next
      case half: False
      then obtain k where k: "bit_len (n div 2) = Suc k" by (subst (asm) bit_len.simps) (simp add: bit_len.simps [of "n div 2"])
      have n2: "n < 2 * (n div 2) + 2" "2 * (n div 2) \<le> n" by linarith+
      have "n div 2 < 2 * 2 ^ k" "2 ^ k \<le> n div 2" using ih half k by simp_all
      then have "n < 4 * 2 ^ k" "2 * 2 ^ k \<le> n" using n2 by linarith+
      then show ?thesis by (simp add: len k)
    qed
  qed
qed

lemma bit_len_le: "n < 2 ^ k \<Longrightarrow> bit_len n \<le> k"
proof (rule ccontr)
  assume n: "n < 2 ^ k" and "\<not> bit_len n \<le> k"
  then have "n \<noteq> 0" and "k \<le> bit_len n - 1" by (auto intro: Nat.gr0I)
  then have "2 ^ k \<le> n" using bit_len_bounds [of n] power_increasing [of k "bit_len n - 1" "2::nat"] by linarith
  then show False using n by simp
qed

lemma nat_str_number:
  "num_mantissa (nat_str n) = (nat_str n, [])" "num_exponent (nat_str n) = 0" "take 1 (nat_str n) \<noteq> ''-''"
proof -
  obtain c cs where s: "nat_str n = c # cs" using nat_str_digits [of n] by (cases "nat_str n") auto
  have all: "\<forall>c \<in> set (nat_str n). is_digit c" using nat_str_digits [of n] by auto
  have plain: "d \<noteq> CHR ''e'' \<and> d \<noteq> CHR ''E'' \<and> d \<noteq> CHR ''-''" if "d \<in> set (nat_str n)" for d
    using all that by (auto simp: is_digit_def code_def)
  have tw: "takeWhile (\<lambda>c. c \<noteq> CHR ''e'' \<and> c \<noteq> CHR ''E'') (nat_str n) = nat_str n"
    "dropWhile (\<lambda>c. c \<noteq> CHR ''e'' \<and> c \<noteq> CHR ''E'') (nat_str n) = []"
    "takeWhile is_digit (nat_str n) = nat_str n" "dropWhile is_digit (nat_str n) = []"
    using plain all by (auto simp: takeWhile_eq_all_conv dropWhile_eq_Nil_conv)
  show minus: "take 1 (nat_str n) \<noteq> ''-''" using plain s by auto
  show "num_exponent (nat_str n) = 0" by (simp add: num_exponent_def tw)
  show "num_mantissa (nat_str n) = (nat_str n, [])" using minus by (simp add: num_mantissa_def tw)
qed

text \<open>An integer of at most 53 bits is a \<open>float64\<close>.\<close>

lemma float64_trunc_nat: "n < 2 ^ 53 \<Longrightarrow> float64_trunc (nat_str n) = (int n, n = 0)"
proof -
  assume n: "n < 2 ^ 53"
  define b where "b = bit_len n"
  have b: "b \<le> 53" using n bit_len_le b_def by simp
  have near: "div_nearest p (Suc 0) = p" for p by (simp add: div_nearest_def)
  have "float64_trunc (nat_str n) = (let (m, k) = float64_of_ratio n 1 in
      ((if 0 \<le> k then int m * 2 ^ nat k else int m div 2 ^ nat (- k)), m = 0))"
    using nat_str_number by (simp add: float64_trunc_def Let_def digits_val_nat_str split: prod.split)
  also have "\<dots> = (int n, n = 0)"
  proof (cases "n = 0")
    case True
    then show ?thesis by (simp add: float64_of_ratio_def scale_div_def div_nearest_def Let_def)
  next
    case False
    then have pos: "0 < b" using bit_len_bounds [of n] by (cases b) (auto simp: b_def)
    then have "\<not> n < 2 ^ nat (int b - 1)" using bit_len_bounds [of n] False by (simp add: b_def nat_diff_distrib)
    then have "float64_of_ratio n 1 = (scale_div n 1 (int b - 53), int b - 53)"
      using pos b by (simp add: float64_of_ratio_def Let_def b_def [symmetric])
    then show ?thesis using b False
      by (cases "b = 53") (simp_all add: scale_div_def near)
  qed
  finally show ?thesis .
qed

text \<open>The token \<open>h.payload.s\<close> whose payload holds just an expiry of \<open>n\<close> seconds after the Unix epoch.\<close>

definition jwt_with_exp :: "string \<Rightarrow> nat \<Rightarrow> string \<Rightarrow> string" where
  "jwt_with_exp h n s = h @ ''.'' @ b64_encode (to_bytes (json_print (jobj [(''exp'', jnat n)]))) @ ''.'' @ s"

lemma split_at_none: "c \<notin> set s \<Longrightarrow> split_at c s = [s]"
  by (induction s) auto

lemma split_at_append: "c \<notin> set s \<Longrightarrow> split_at c (s @ c # t) = s # split_at c t"
  by (induction s) auto

lemma float64_in_range: "n < 2 ^ 53 \<Longrightarrow> \<not> float64_overflow (nat_str n)"
proof -
  define limit :: nat where "limit = 2 ^ 1024 - 2 ^ 970"
  assume "n < 2 ^ 53"
  also have "(2 :: nat) ^ 53 \<le> limit" unfolding limit_def by simp
  finally have "\<not> limit \<le> n" by simp
  then show ?thesis
    unfolding float64_overflow_def nat_str_number limit_def [symmetric] by (simp add: digits_val_nat_str)
qed

lemma wrap64_id: "- (2 ^ 63) \<le> n \<Longrightarrow> n < 2 ^ 63 \<Longrightarrow> wrap64 n = n"
  unfolding wrap64_def sint_sbintrunc' by (rule signed_take_bit_int_eq_self) simp_all

text \<open>
  a JWT whose payload carries an expiry of a positive whole number of seconds (below 2^53) is due five minutes before
  it; anything that is not three parts with a payload counts as due in an hour.
\<close>

theorem token_expiry:
  assumes "CHR ''.'' \<notin> set h" and "CHR ''.'' \<notin> set s" and "n < 2 ^ 53"
  shows "get_token_expiry huge now (jwt_with_exp h n s) =
      (if n = 0 then now + 3600 * second else (int n + unix_to_internal - 300) * second)
    \<and> (length (split_at CHR ''.'' token) \<noteq> 3 \<longrightarrow> get_token_expiry huge now token = now + 3600 * second)"
proof -
  let ?v = "jobj [(''exp'', jnat n)]"
  have dot: "CHR ''.'' \<notin> set (b64_encode bs)" for bs
  proof -
    have "CHR ''.'' \<notin> set b64_alphabet" by code_simp
    then show ?thesis using b64_encode_chars [of bs] by auto
  qed
  have parts: "split_at CHR ''.'' (jwt_with_exp h n s) = [h, b64_encode (to_bytes (json_print ?v)), s]"
    using assms(1,2) dot by (simp add: jwt_with_exp_def split_at_append split_at_none)
  have ne: "b64_encode (to_bytes (json_print ?v)) \<noteq> []"
    using length_b64_encode [of "to_bytes (json_print ?v)"] by (auto simp: jobj_def)
  have "json_ok max_nesting ?v" using json_ok_jobj [of "max_nesting - 1"] by (simp add: max_nesting_def)
  then have "json_unmarshal (json_print ?v) = Ok ?v" by (simp add: json_unmarshal_print)
  moreover have "plain_key ''exp''" by code_simp
  then have "dec_jwt_claims ?v = Ok (int n, n = 0)"
    using float64_in_range [OF assms(3)] float64_trunc_nat [OF assms(3)]
    by (simp add: dec_jwt_claims_def decode_simps jnat_def)
  ultimately have d: "go_bind (json_unmarshal (json_print ?v)) dec_jwt_claims = Ok (int n, n = 0)" by simp
  have "int n < 2 ^ 53" using assms(3) by (metis of_nat_less_iff of_nat_numeral of_nat_power)
  then have "add_sec (time_unix (int64_of_float huge (int n))) (- 300) = int n + unix_to_internal - 300"
    by (simp add: int64_of_float_def time_unix_def add_sec_def Let_def unix_to_internal_def wrap64_id)
  then show ?thesis
    by (simp add: get_token_expiry_def Let_def parts ne b64_round_trip d refresh_skew_def default_expiry_fallback_def second_def)
qed

lemma token_expiry_witness:
  "get_token_expiry id 0 (jwt_with_exp ''h'' 1755600000 ''s'') = 63891196500 * second"
  using token_expiry [of "''h''" "''s''" 1755600000 id 0] by (simp add: unix_to_internal_def)

end
