(* ===== verification/Provider.thy ===== *)
theory Provider
  imports Login Token_Storage Account
begin

section \<open>The auth provider\<close>

text \<open>
  \<open>internal/auth/refresh.go\<close> and \<open>internal/auth/provider.go\<close>: token refresh, and the provider the host
  calls to parse a stored account, log in, poll and refresh. It is the only writer of the account store.
  The requests and responses of the host's SDK (\<open>pluginapi\<close>) are records of the fields the code uses.
  Arguments stand for the outside: the clock, random UUIDs, the server's answers, what \<open>int64\<close> makes of a
  float that does not fit (\<open>huge\<close>), and the calls that \<open>singleflight\<close> coalesces.
\<close>

subsection \<open>Refresh\<close>

record refresh_result =
  rf_access_token :: string
  rf_refresh_token :: string
  rf_expires_at :: time

text \<open>The request: URL, headers and body.\<close>

definition refresh_request :: "string \<Rightarrow> string \<times> (string \<times> string) list \<times> string" where
  "refresh_request token =
     (cursor_refresh_url, [(''Authorization'', ''Bearer '' @ token), (''Content-Type'', ''application/json'')], ''{}'')"

definition refresh_single_flight ::
  "(int \<Rightarrow> int) \<Rightarrow> (string \<times> (string \<times> string) list \<times> string \<Rightarrow> http_reply) \<Rightarrow> time \<Rightarrow> string \<Rightarrow> refresh_result go_result" where
  "refresh_single_flight huge serve now token =
     (case serve (refresh_request token) of
        NoRequest e \<Rightarrow> Err (''cursor: failed to build refresh request: '' @ e)
      | NoResponse e \<Rightarrow> Err (''cursor: refresh request failed: '' @ e)
      | Reply status body errRead \<Rightarrow>
          (case errRead of
             Some e \<Rightarrow> Err (''cursor: failed to read refresh response: '' @ e)
           | None \<Rightarrow>
               if status = 401 \<or> status = 403
               then Err (''cursor: refresh token rejected (status '' @ nat_str status @ '')'')
               else if status \<noteq> 200
               then Err (''cursor: refresh failed with status '' @ nat_str status @ '': '' @ body)
               else go_bind (wrap_err ''cursor: failed to parse refresh response''
                               (go_bind (json_unmarshal body) dec_token_response))
                      (\<lambda>(access, refresh).
                         if access = [] then Err ''cursor: empty access token in refresh response''
                         else Ok \<lparr>rf_access_token = access, rf_refresh_token = (if refresh = [] then token else refresh),
                                  rf_expires_at = get_token_expiry huge now access\<rparr>)))"

text \<open>
  \<open>refreshGroup.Do\<close> runs the call, or waits for one of the same account that is in progress and returns
  its result, \<open>joined\<close>.
\<close>

definition refresh ::
  "(int \<Rightarrow> int) \<Rightarrow> (string \<times> (string \<times> string) list \<times> string \<Rightarrow> http_reply) \<Rightarrow> time
    \<Rightarrow> (string \<Rightarrow> refresh_result go_result option) \<Rightarrow> string \<Rightarrow> string \<Rightarrow> refresh_result go_result" where
  "refresh huge serve now joined accountID token =
     (case joined accountID of Some r \<Rightarrow> r | None \<Rightarrow> refresh_single_flight huge serve now token)"

subsection \<open>The host's records\<close>

record auth_data =
  ad_provider :: string
  ad_id :: string
  ad_file_name :: string
  ad_label :: string
  ad_storage_json :: string
  ad_metadata :: "string \<Rightarrow> json option"
  ad_attributes :: "string \<Rightarrow> string option"
  ad_next_refresh_after :: time

record auth_parse_request =
  apq_file_name :: string
  apq_raw_json :: string

record auth_refresh_request =
  arq_auth_id :: string
  arq_storage_json :: string
  arq_metadata :: "string \<Rightarrow> json option"
  arq_attributes :: "string \<Rightarrow> string option"

text \<open>The answer to \<open>auth.login.start\<close>: login URL, attempt id and deadline.\<close>

record login_start_response =
  lsr_provider :: string
  lsr_url :: string
  lsr_state :: string
  lsr_expires_at :: time

record login_poll_response =
  lpr_status :: login_status
  lpr_message :: string
  lpr_auth :: "auth_data option"

subsection \<open>The provider\<close>

record provider =
  pv_poller :: poller
  pv_accounts :: account_store

text \<open>What an operation gets from the outside.\<close>

record auth_env =
  ae_now :: time
  ae_stored_at :: time
  ae_uuid :: string
  ae_huge :: "int \<Rightarrow> int"

definition new_provider :: "account_store \<Rightarrow> provider" where
  "new_provider accounts = \<lparr>pv_poller = new_poller, pv_accounts = accounts\<rparr>"

definition provider_identifier :: string where
  "provider_identifier = ''cursor''"

definition new_account_id :: "auth_env \<Rightarrow> string" where
  "new_account_id env = provider_identifier @ ''-'' @ ae_uuid env"

definition account_id_from_file_name :: "auth_env \<Rightarrow> string \<Rightarrow> string" where
  "account_id_from_file_name env fileName =
     (let trimmed = trim_suffix fileName ''.json'' in if trimmed = [] then new_account_id env else trimmed)"

definition provider_set :: "auth_env \<Rightarrow> string \<Rightarrow> string \<Rightarrow> string \<Rightarrow> time \<Rightarrow> provider \<Rightarrow> provider" where
  "provider_set env i accessToken refreshToken expires p =
     p\<lparr>pv_accounts := account_set (ae_stored_at env) i
         (zero_account\<lparr>as_access_token := accessToken, as_refresh_token := refreshToken, as_expires_at := expires,
            as_status := status_active\<rparr>) (pv_accounts p)\<rparr>"

definition provider_degrade :: "auth_env \<Rightarrow> string \<Rightarrow> status \<Rightarrow> string \<Rightarrow> provider \<Rightarrow> provider" where
  "provider_degrade env i st message p = p\<lparr>pv_accounts := mark_degraded (ae_stored_at env) i st message (pv_accounts p)\<rparr>"

text \<open>
  \<open>None\<close>: not handled. \<open>Marshal\<close> cannot fail on a struct of strings, so the operations below have no such branch.
\<close>

definition parse_auth :: "auth_env \<Rightarrow> auth_parse_request \<Rightarrow> provider \<Rightarrow> auth_data option \<times> provider" where
  "parse_auth env req p =
     (case parse_token_storage (apq_raw_json req) of
        Ok storage \<Rightarrow>
          if ts_type storage \<noteq> ''cursor'' then (None, p)
          else
            let accountID = account_id_from_file_name env (apq_file_name req) in
            (Some \<lparr>ad_provider = provider_identifier, ad_id = accountID, ad_file_name = apq_file_name req,
                   ad_label = ''Cursor'', ad_storage_json = apq_raw_json req,
                   ad_metadata = auth_metadata (ts_access_token storage) (\<lambda>k. None),
                   ad_attributes = (\<lambda>k. None), ad_next_refresh_after = expires_at storage\<rparr>,
             provider_set env accountID (ts_access_token storage) (ts_refresh_token storage) (expires_at storage) p)
      | _ \<Rightarrow> (None, p))"

definition provider_start_login :: "auth_env \<Rightarrow> provider \<Rightarrow> entropy \<Rightarrow> login_start_response go_result \<times> provider \<times> entropy" where
  "provider_start_login env p en =
     (case start_login (ae_now env) (ae_uuid env) (pv_poller p) en of
        (r, poller, en') \<Rightarrow>
          (go_bind (wrap_err ''cursor: failed to start login'' r) (\<lambda>(params, deadline).
             Ok \<lparr>lsr_provider = provider_identifier, lsr_url = ap_login_url params, lsr_state = ap_uuid params,
                 lsr_expires_at = deadline\<rparr>),
           p\<lparr>pv_poller := poller\<rparr>, en'))"

definition poll_login :: "auth_env \<Rightarrow> (string \<Rightarrow> http_reply) \<Rightarrow> string \<Rightarrow> provider \<Rightarrow> login_poll_response \<times> provider" where
  "poll_login env serve attemptID p =
     (let (result, poller) = poll serve (ae_now env) attemptID (pv_poller p); p1 = p\<lparr>pv_poller := poller\<rparr> in
      if pr_status result \<noteq> LoginSuccess
      then (\<lparr>lpr_status = pr_status result, lpr_message = pr_message result, lpr_auth = None\<rparr>, p1)
      else
        let expiresAt = get_token_expiry (ae_huge env) (ae_now env) (pr_access_token result);
            storage = new_token_storage (pr_access_token result) (pr_refresh_token result) expiresAt;
            accountID = new_account_id env
        in (\<lparr>lpr_status = LoginSuccess, lpr_message = [],
             lpr_auth = Some \<lparr>ad_provider = provider_identifier, ad_id = accountID, ad_file_name = accountID @ ''.json'',
               ad_label = ''Cursor'', ad_storage_json = token_storage_marshal storage,
               ad_metadata = auth_metadata (pr_access_token result) (\<lambda>k. None),
               ad_attributes = (\<lambda>k. None), ad_next_refresh_after = expiresAt\<rparr>\<rparr>,
            provider_set env accountID (pr_access_token result) (pr_refresh_token result) expiresAt p1))"

definition refresh_auth ::
  "auth_env \<Rightarrow> (string \<times> (string \<times> string) list \<times> string \<Rightarrow> http_reply) \<Rightarrow> (string \<Rightarrow> refresh_result go_result option)
    \<Rightarrow> auth_refresh_request \<Rightarrow> provider \<Rightarrow> auth_data go_result \<times> provider" where
  "refresh_auth env serve joined req p =
     (case parse_token_storage (arq_storage_json req) of
        Err e \<Rightarrow> (Err (''cursor: failed to parse stored auth for refresh: '' @ e),
                   provider_degrade env (arq_auth_id req) status_needs_reauth (''failed to parse stored auth: '' @ e) p)
      | Panic e \<Rightarrow> (Panic e, p)
      | Ok storage \<Rightarrow>
          let token = (if ts_refresh_token storage = [] then ts_access_token storage else ts_refresh_token storage) in
          (case refresh (ae_huge env) serve (ae_now env) joined (arq_auth_id req) token of
             Err e \<Rightarrow> (Err (''cursor: refresh failed: '' @ e),
                        provider_degrade env (arq_auth_id req) status_needs_reauth e p)
           | Panic e \<Rightarrow> (Panic e, p)
           | Ok result \<Rightarrow>
               (Ok \<lparr>ad_provider = provider_identifier, ad_id = arq_auth_id req, ad_file_name = [], ad_label = ''Cursor'',
                   ad_storage_json = token_storage_marshal
                     (new_token_storage (rf_access_token result) (rf_refresh_token result) (rf_expires_at result)),
                   ad_metadata = auth_metadata (rf_access_token result) (arq_metadata req),
                   ad_attributes = arq_attributes req, ad_next_refresh_after = rf_expires_at result\<rparr>,
                provider_set env (arq_auth_id req) (rf_access_token result) (rf_refresh_token result)
                  (rf_expires_at result) p)))"

end
