(* ===== verification/Login_Laws.thy ===== *)
theory Login_Laws
  imports Login
begin

section \<open>Laws of login and polling\<close>

text \<open>
  The checks of a login attempt refine a small automaton; the material sent for an attempt is that
  of its login URL; and what interleaved checks of one attempt can do.
\<close>

subsection \<open>The automaton of an attempt\<close>

text \<open>What a check learns, and the state of an attempt: waiting after so many network failures in a row, or over.\<close>

datatype check_outcome = Unbuilt | Lost | NotYet | Refused | Granted string string

datatype attempt = Waiting nat | Over

fun granted_tokens :: "(string \<times> string) go_result \<Rightarrow> check_outcome" where
  "granted_tokens (Ok (access, refresh)) = (if access = [] then Refused else Granted access refresh)"
| "granted_tokens r = Refused"

fun outcome_of :: "http_reply \<Rightarrow> check_outcome" where
  "outcome_of (NoRequest e) = Unbuilt"
| "outcome_of (NoResponse e) = Lost"
| "outcome_of (Reply status body errRead) =
     (if status = 404 then NotYet
      else if errRead \<noteq> None then Lost
      else if status = 200 then granted_tokens (go_bind (json_unmarshal body) dec_token_response)
      else Refused)"

text \<open>The status a check reports and the attempt it leaves.\<close>

fun attempt_step :: "check_outcome \<Rightarrow> attempt \<Rightarrow> login_status \<times> attempt" where
  "attempt_step oc Over = (LoginError, Over)"
| "attempt_step Unbuilt (Waiting n) = (LoginError, Waiting n)"
| "attempt_step Lost (Waiting n) = (if n < 2 then (LoginPending, Waiting (n + 1)) else (LoginError, Over))"
| "attempt_step NotYet (Waiting n) = (LoginPending, Waiting 0)"
| "attempt_step Refused (Waiting n) = (LoginError, Over)"
| "attempt_step (Granted access refresh) (Waiting n) = (LoginSuccess, Over)"

definition abs_attempt :: "poller \<Rightarrow> string \<Rightarrow> attempt" where
  "abs_attempt p i = (if pending_get (po_pending p) i = None then Over else Waiting (po_network_errors p i))"

text \<open>Past its deadline an attempt is over at its next check.\<close>

definition expired :: "time \<Rightarrow> string \<Rightarrow> poller \<Rightarrow> bool" where
  "expired now i p = (case pending_get (po_pending p) i of None \<Rightarrow> False | Some pl \<Rightarrow> pl_deadline pl < now)"

definition poll_url :: "string \<Rightarrow> poller \<Rightarrow> string" where
  "poll_url i p = (case pending_get (po_pending p) i of None \<Rightarrow> []
     | Some pl \<Rightarrow> cursor_poll_url @ ''?uuid='' @ pl_cursor_uuid pl @ ''&verifier='' @ pl_verifier pl)"

lemma dec_token_response_no_panic [simp]: "\<not> is_panic (dec_token_response v)"
  by (auto simp: dec_token_response_def is_panic_go_bind intro!: dec_struct_no_panic)

lemma json_result_cases: "go_bind (json_unmarshal body) dec_token_response = Panic e \<Longrightarrow> False"
proof -
  have "\<not> is_panic (go_bind (json_unmarshal body) dec_token_response)" by (simp add: is_panic_go_bind)
  then show "go_bind (json_unmarshal body) dec_token_response = Panic e \<Longrightarrow> False" by simp
qed

lemma abs_drop_attempt [simp]: "abs_attempt (drop_attempt i p) j = (if j = i then Over else abs_attempt p j)"
  by (simp add: abs_attempt_def drop_attempt_def clear_network_errors_def pending_delete_def pending_get_def)

lemma abs_clear [simp]: "abs_attempt (clear_network_errors i p) j =
    (if j = i \<and> abs_attempt p j \<noteq> Over then Waiting 0 else abs_attempt p j)"
  by (simp add: abs_attempt_def clear_network_errors_def)

lemma network_error_step:
  assumes "abs_attempt p i = Waiting n"
  shows "pr_status (fst (handle_network_error i e p)) = fst (attempt_step Lost (Waiting n))
    \<and> abs_attempt (snd (handle_network_error i e p)) j = (if j = i then snd (attempt_step Lost (Waiting n)) else abs_attempt p j)"
  using assms
  by (auto simp: handle_network_error_eq poll_error_def poll_pending_def)
     (auto simp: abs_attempt_def drop_attempt_def clear_network_errors_def pending_delete_def pending_get_def split: if_splits)

lemma poll_end_step:
  assumes "abs_attempt p i = Waiting n"
  shows "pr_status (fst (run_check i (poll_end reply) p)) = fst (attempt_step (outcome_of reply) (Waiting n))
    \<and> abs_attempt (snd (run_check i (poll_end reply) p)) j = (if j = i then snd (attempt_step (outcome_of reply) (Waiting n)) else abs_attempt p j)"
proof (cases reply)
  case (NoResponse e)
  then show ?thesis using network_error_step [OF assms] by (simp add: poll_end_def)
next
  case (Reply status body err)
  show ?thesis
  proof (cases "status = 404 \<or> err \<noteq> None \<or> status \<noteq> 200")
    case True
    then show ?thesis using assms network_error_step [OF assms] Reply
      by (auto simp: poll_end_def poll_pending_def poll_error_def)
  next
    case False
    then show ?thesis using assms Reply json_result_cases [of body]
      by (cases "go_bind (json_unmarshal body) dec_token_response") (auto simp: poll_end_def poll_error_def)
  qed
qed (use assms in \<open>auto simp: poll_end_def poll_error_def\<close>)

lemma poll_step:
  "pr_status (fst (poll serve now i p)) =
     (if expired now i p then LoginError else fst (attempt_step (outcome_of (serve (poll_url i p))) (abs_attempt p i)))
   \<and> abs_attempt (snd (poll serve now i p)) j =
     (if j \<noteq> i then abs_attempt p j else if expired now i p then Over
      else snd (attempt_step (outcome_of (serve (poll_url i p))) (abs_attempt p i)))"
proof (cases "pending_get (po_pending p) i")
  case None
  then have "abs_attempt p i = Over" by (simp add: abs_attempt_def)
  then show ?thesis using None by (simp add: poll_def poll_begin_def expired_def poll_error_def)
next
  case (Some pl)
  then have "abs_attempt p i = Waiting (po_network_errors p i)" by (simp add: abs_attempt_def)
  then show ?thesis
    using Some poll_end_step [of p i "po_network_errors p i" "serve (poll_url i p)" j]
    by (auto simp: poll_def poll_begin_def expired_def poll_url_def poll_error_def)
qed

text \<open>
  C9: the checks of a login attempt refine the automaton: before the deadline a check reports and leaves what
  the automaton says of the server's answer (a 404 or fewer than three network failures in a row keep it waiting, the third
  failure, a refusal and a grant end it), past the deadline it is over, and checks of other attempts do not touch it.
\<close>

theorem poll_refines_attempt:
  "pr_status (fst (poll serve now i p)) =
     (if expired now i p then LoginError else fst (attempt_step (outcome_of (serve (poll_url i p))) (abs_attempt p i)))
   \<and> abs_attempt (snd (poll serve now i p)) i =
     (if expired now i p then Over else snd (attempt_step (outcome_of (serve (poll_url i p))) (abs_attempt p i)))
   \<and> (j \<noteq> i \<longrightarrow> abs_attempt (snd (poll serve now i p)) j = abs_attempt p j)"
  using poll_step [of serve now i p i] poll_step [of serve now i p j] by simp

lemma poll_refines_attempt_witness:
  "let p = \<lparr>po_pending = pending_put ''u'' \<lparr>pl_verifier = ''v'', pl_cursor_uuid = ''u'', pl_deadline = 9\<rparr> new_pending_store,
            po_network_errors = (\<lambda>i. 2)\<rparr> in
     abs_attempt (snd (poll (\<lambda>url. NoResponse ''refused'') 0 ''u'' p)) ''u'' = Over
   \<and> abs_attempt (snd (poll (\<lambda>url. NoResponse ''refused'') 0 ''u'' p)) ''w'' = abs_attempt p ''w''"
  using poll_refines_attempt [of "\<lambda>url. NoResponse ''refused''" 0 "''u''" _ "''w''"]
  by (simp add: Let_def expired_def pending_put_def pending_get_def abs_attempt_def)

subsection \<open>Sequences of checks\<close>

text \<open>A check: the moment, the attempt and the server's behaviour.\<close>

type_synonym check = "time \<times> string \<times> (string \<Rightarrow> http_reply)"

fun run_checks :: "check list \<Rightarrow> poller \<Rightarrow> (string \<times> poll_result) list \<times> poller" where
  "run_checks [] p = ([], p)"
| "run_checks ((now, i, serve) # cs) p =
     (let (r, p') = poll serve now i p; (rs, p'') = run_checks cs p' in ((i, r) # rs, p''))"

definition successes :: "string \<Rightarrow> (string \<times> poll_result) list \<Rightarrow> nat" where
  "successes i rs = length (filter (\<lambda>(j, r). j = i \<and> pr_status r = LoginSuccess) rs)"

lemma over_no_success: "abs_attempt p i = Over \<Longrightarrow> successes i (fst (run_checks cs p)) = 0"
proof (induction cs p rule: run_checks.induct)
  case (2 now j serve cs p)
  obtain r p' where r: "poll serve now j p = (r, p')" by (meson surj_pair)
  have "abs_attempt p' i = Over" and "j = i \<longrightarrow> pr_status r \<noteq> LoginSuccess"
    using poll_step [of serve now j p i] r 2(2) by (auto split: if_splits)
  then show ?case using 2(1) r by (auto simp: successes_def split: prod.splits)
qed (simp add: successes_def)

lemma successes_le_1: "successes i (fst (run_checks cs p)) \<le> 1"
proof (induction cs p rule: run_checks.induct)
  case (2 now j serve cs p)
  obtain r p' where r: "poll serve now j p = (r, p')" by (meson surj_pair)
  show ?case
  proof (cases "j = i \<and> pr_status r = LoginSuccess")
    case True
    then have "abs_attempt p' i = Over"
      using poll_step [of serve now i p i] r
      by (cases "outcome_of (serve (poll_url i p))"; cases "abs_attempt p i") (auto split: if_splits)
    then have "successes i (fst (run_checks cs p')) = 0" by (rule over_no_success)
    then show ?thesis using r by (auto simp: successes_def split: prod.splits)
  next
    case False
    then show ?thesis using 2 r by (auto simp: successes_def split: prod.splits)
  qed
qed (simp add: successes_def)

text \<open>
  checked one after the other, an attempt succeeds at most once, whatever the server answers and however the checks of
  other attempts fall in between; and an attempt that is over stays over.
\<close>

theorem login_succeeds_once:
  "successes i (fst (run_checks cs p)) \<le> 1
   \<and> (abs_attempt p i = Over \<longrightarrow> successes i (fst (run_checks cs p)) = 0)"
  using successes_le_1 over_no_success by blast

lemma login_succeeds_once_witness: "successes ''u'' (fst (run_checks [(0, ''u'', \<lambda>url. NoResponse ''x'')] new_poller)) = 0"
proof -
  have "abs_attempt new_poller ''u'' = Over"
    by (simp add: abs_attempt_def new_poller_def new_pending_store_def pending_get_def)
  then show ?thesis using login_succeeds_once [of "''u''" "[(0, ''u'', \<lambda>url. NoResponse ''x'')]" new_poller] by blast
qed

subsection \<open>What a success means\<close>

lemma pending_start:
  assumes "start_login now uuid p en = (Ok (params, deadline), p', en')"
  shows "ap_uuid params = uuid \<and> deadline = now + max_poll_duration
    \<and> ap_challenge params = b64_encode (sha256 (to_bytes (ap_verifier params)))
    \<and> ap_login_url params = cursor_login_url @ ''?challenge='' @ ap_challenge params @ ''&uuid='' @ uuid
        @ ''&mode=login&redirectTarget=cli''
    \<and> pending_get (po_pending p') uuid = Some \<lparr>pl_verifier = ap_verifier params, pl_cursor_uuid = uuid, pl_deadline = deadline\<rparr>
    \<and> (\<forall>i. i \<noteq> uuid \<longrightarrow> pending_get (po_pending p') i = pending_get (po_pending p) i)"
  using assms
  by (auto simp: start_login_def generate_auth_params_def generate_pkce_def go_simps Let_def pending_put_def pending_get_def
      split: prod.splits go_result.splits)

lemma handle_network_error_pending:
  "pending_get (po_pending (snd (handle_network_error j e p))) i = pending_get (po_pending p) i
   \<or> pending_get (po_pending (snd (handle_network_error j e p))) i = None"
  by (auto simp: handle_network_error_eq drop_attempt_def clear_network_errors_def pending_delete_def pending_get_def)

lemma poll_pending_kept:
  "pending_get (po_pending (snd (poll serve now j p))) i = pending_get (po_pending p) i
   \<or> pending_get (po_pending (snd (poll serve now j p))) i = None"
proof -
  have drop: "pending_get (po_pending (drop_attempt j p)) i = pending_get (po_pending p) i
      \<or> pending_get (po_pending (drop_attempt j p)) i = None" for p
    by (simp add: drop_attempt_def clear_network_errors_def pending_delete_def pending_get_def)
  have pend: "pending_get (po_pending (snd (run_check j (poll_end reply) p))) i = pending_get (po_pending p) i
      \<or> pending_get (po_pending (snd (run_check j (poll_end reply) p))) i = None" for reply p
    using drop [of p] handle_network_error_pending [of j _ p i]
    by (auto simp: poll_end_def clear_network_errors_def split: http_reply.split option.split go_result.split)
  show ?thesis
    using drop [of p] pend [of _ p] by (auto simp: poll_def poll_begin_def split: option.splits)
qed

lemma run_checks_pending:
  "pending_get (po_pending (snd (run_checks cs p))) i = pending_get (po_pending p) i
   \<or> pending_get (po_pending (snd (run_checks cs p))) i = None"
proof (induction cs p rule: run_checks.induct)
  case (2 now j serve cs p)
  obtain r p' where r: "poll serve now j p = (r, p')" by (meson surj_pair)
  show ?case using 2 [OF r [symmetric] refl] poll_pending_kept [of serve now j p i] r
    by (cases "run_checks cs p'") auto
qed simp

lemma poll_success:
  assumes "fst (poll serve now i p) = r" and "pr_status r = LoginSuccess"
  shows "\<exists>pl body. pending_get (po_pending p) i = Some pl \<and> now \<le> pl_deadline pl
    \<and> serve (cursor_poll_url @ ''?uuid='' @ pl_cursor_uuid pl @ ''&verifier='' @ pl_verifier pl) = Reply 200 body None
    \<and> go_bind (json_unmarshal body) dec_token_response = Ok (pr_access_token r, pr_refresh_token r)
    \<and> pr_access_token r \<noteq> []"
proof (cases "pending_get (po_pending p) i")
  case None
  then have "pr_status r = LoginError" unfolding assms(1) [symmetric] by (simp add: poll_def poll_begin_def poll_error_def)
  then show ?thesis using assms(2) by simp
next
  case (Some pl)
  have net: "pr_status (fst (handle_network_error i e p)) \<noteq> LoginSuccess" for e
    by (simp add: handle_network_error_eq poll_error_def poll_pending_def)
  show ?thesis
    using Some assms net
    by (auto simp: poll_def poll_begin_def poll_end_def poll_error_def poll_pending_def
        split: if_splits http_reply.splits option.splits go_result.splits)
qed

text \<open>
  C22: a login succeeds only by a grant to its own attempt: between the start of an attempt and its
  success there are at most 15 minutes, the server answered 200 with a non-empty access token to the verifier whose SHA-256 is the
  challenge of the attempt's login URL, and the tokens are the server's.
\<close>

theorem success_is_a_grant:
  assumes "start_login t uuid p en = (Ok (params, deadline), p', en')"
    and "fst (poll serve now uuid (snd (run_checks cs p'))) = r" and "pr_status r = LoginSuccess"
  shows "now \<le> t + 15 * 60 * second
    \<and> ap_login_url params = cursor_login_url @ ''?challenge='' @ b64_encode (sha256 (to_bytes (ap_verifier params)))
        @ ''&uuid='' @ uuid @ ''&mode=login&redirectTarget=cli''
    \<and> (\<exists>body. serve (cursor_poll_url @ ''?uuid='' @ uuid @ ''&verifier='' @ ap_verifier params) = Reply 200 body None
        \<and> go_bind (json_unmarshal body) dec_token_response = Ok (pr_access_token r, pr_refresh_token r)
        \<and> pr_access_token r \<noteq> [])"
proof -
  note s = pending_start [OF assms(1)]
  obtain pl body where pl: "pending_get (po_pending (snd (run_checks cs p'))) uuid = Some pl" "now \<le> pl_deadline pl"
    "serve (cursor_poll_url @ ''?uuid='' @ pl_cursor_uuid pl @ ''&verifier='' @ pl_verifier pl) = Reply 200 body None"
    "go_bind (json_unmarshal body) dec_token_response = Ok (pr_access_token r, pr_refresh_token r)" "pr_access_token r \<noteq> []"
    using poll_success [OF assms(2,3)] by blast
  have "pl = \<lparr>pl_verifier = ap_verifier params, pl_cursor_uuid = uuid, pl_deadline = deadline\<rparr>"
    using run_checks_pending [of cs p' uuid] pl(1) s by auto
  then show ?thesis using pl s by (simp add: max_poll_duration_def)
qed

definition grant_body :: string where
  "grant_body = ''{'' @ [CHR 0x22] @ ''accessToken'' @ [CHR 0x22] @ '':'' @ [CHR 0x22] @ ''tok'' @ [CHR 0x22] @ ''}''"

lemma grant_body_decodes: "go_bind (json_unmarshal grant_body) dec_token_response = Ok (''tok'', [])"
  by code_simp

lemma success_is_a_grant_witness:
  "(0 :: int) \<le> 0 + 15 * 60 * second
   \<and> (\<exists>params p' en'. start_login 0 ''u'' new_poller (\<lambda>n. Some (\<lambda>k. 0)) = (Ok (params, max_poll_duration), p', en')
       \<and> pr_access_token (fst (poll (\<lambda>url. Reply 200 grant_body None) 0 ''u'' p')) = ''tok'')"
proof -
  let ?serve = "\<lambda>url :: string. Reply 200 grant_body None"
  obtain params p' en' where st: "start_login 0 ''u'' new_poller (\<lambda>n. Some (\<lambda>k. 0)) = (Ok (params, max_poll_duration), p', en')"
    by (auto simp: start_login_def generate_auth_params_def generate_pkce_def rand_read_def Let_def)
  then have "pending_get (po_pending p') ''u'' =
      Some \<lparr>pl_verifier = ap_verifier params, pl_cursor_uuid = ''u'', pl_deadline = max_poll_duration\<rparr>"
    using pending_start by blast
  then have r: "fst (poll ?serve 0 ''u'' p') =
      \<lparr>pr_status = LoginSuccess, pr_message = [], pr_access_token = ''tok'', pr_refresh_token = []\<rparr>"
    by (simp add: poll_def poll_begin_def poll_end_def grant_body_decodes max_poll_duration_def second_def)
  have "(0 :: int) \<le> 0 + 15 * 60 * second"
    using success_is_a_grant [OF st, of ?serve 0 "[]"] r by simp
  then show ?thesis using st r by auto
qed

subsection \<open>Interleaved checks\<close>




text \<open>The checks that are about to end the attempt: their outcome is final and the count is still to be cleared.\<close>

definition ending :: "string \<Rightarrow> (string \<times> check_pc) list \<Rightarrow> nat" where
  "ending i cs = length (filter (\<lambda>(j, pc). j = i \<and> (\<exists>r. pc = DropPending r \<or> pc = ClearCount r)) cs)"


lemma ending_simps [simp]:
  "ending i [] = 0"
  "ending i ((j, CountFailure e) # cs) = ending i cs"
  "ending i ((j, DropPending r) # cs) = (if i = j then 1 else 0) + ending i cs"
  "ending i ((j, ClearCount r) # cs) = (if i = j then 1 else 0) + ending i cs"
  "ending i ((j, Returns r) # cs) = ending i cs"
  by (auto simp: ending_def)



















lemma increment_simps [simp]:
  "po_network_errors (snd (increment_network_errors i p)) j = (if j = i then Suc (po_network_errors p i) else po_network_errors p j)"
  "po_pending (snd (increment_network_errors i p)) = po_pending p"
  by (simp_all add: increment_network_errors_def Let_def)



subsection \<open>Every attempt ends\<close>

text \<open>The poller after the first \<open>n\<close> checks of a schedule, each with its time, its attempt and the server then.\<close>

fun run_schedule :: "(nat \<Rightarrow> time \<times> string \<times> (string \<Rightarrow> http_reply)) \<Rightarrow> nat \<Rightarrow> poller \<Rightarrow> poller" where
  "run_schedule sched 0 p = p"
| "run_schedule sched (Suc n) p =
     (let (now, i, serve) = sched n in snd (poll serve now i (run_schedule sched n p)))"

lemma poll_keeps_or_drops:
  "pending_get (po_pending (snd (poll serve now i p))) j \<in> {None, pending_get (po_pending p) j}"
  by (auto simp: poll_def poll_begin_def poll_end_def handle_network_error_eq drop_attempt_def
      clear_network_errors_def pending_delete_def pending_get_def split: option.split http_reply.split go_result.split prod.split)

lemma poll_late_drops:
  "\<forall>q. pending_get (po_pending p) i = Some q \<longrightarrow> pl_deadline q < now \<Longrightarrow> pending_get (po_pending (snd (poll serve now i p))) i = None"
  by (auto simp: poll_def poll_begin_def drop_attempt_def clear_network_errors_def pending_delete_def pending_get_def split: option.splits)

lemma schedule_keeps_or_drops:
  "n \<le> m \<Longrightarrow> pending_get (po_pending (run_schedule sched m p)) j \<in> {None, pending_get (po_pending (run_schedule sched n p)) j}"
proof (induction m)
  case (Suc m)
  then show ?case
  proof (cases "n = Suc m")
    case False
    obtain now i serve where s: "sched m = (now, i, serve)" by (metis prod_cases3)
    show ?thesis
      using False Suc poll_keeps_or_drops [of serve now i "run_schedule sched m p" j] by (auto simp: s)
  qed simp
qed simp

text \<open>
  A login attempt does not wait for ever: when it is checked again and again, at times that do not stay below any bound,
  then whatever the server answers, and whatever other attempts are checked in between, it is over from some check on.
\<close>

theorem login_attempt_ends:
  assumes "\<forall>T. \<exists>n now serve. sched n = (now, i, serve) \<and> T < now"
  shows "\<exists>n. \<forall>m \<ge> n. pending_get (po_pending (run_schedule sched m p)) i = None"
proof -
  define deadline where "deadline = (case pending_get (po_pending p) i of None \<Rightarrow> 0 | Some q \<Rightarrow> pl_deadline q)"
  obtain n now serve where n: "sched n = (now, i, serve)" "deadline < now" using assms by blast
  have "\<forall>q. pending_get (po_pending (run_schedule sched n p)) i = Some q \<longrightarrow> pl_deadline q < now"
    using schedule_keeps_or_drops [of 0 n sched p i] n(2) by (auto simp: deadline_def)
  then have "pending_get (po_pending (run_schedule sched (Suc n) p)) i = None"
    using poll_late_drops by (simp add: n(1))
  then have "\<forall>m \<ge> Suc n. pending_get (po_pending (run_schedule sched m p)) i = None"
    using schedule_keeps_or_drops [of "Suc n" _ sched p i] by auto
  then show ?thesis by blast
qed

lemma login_attempt_ends_witness:
  "\<exists>p n. pending_get (po_pending p) ''u'' \<noteq> None
    \<and> (\<forall>m \<ge> n. pending_get (po_pending (run_schedule (\<lambda>k. (int k, ''u'', \<lambda>url. Reply 404 [] None)) m p)) ''u'' = None)"
proof -
  have "\<exists>n now serve. (int n, ''u'', \<lambda>url. Reply 404 [] None) = (now, ''u'', serve) \<and> T < now" for T
    by (rule exI [of _ "nat (T + 1)"]) auto
  then have "\<exists>n. \<forall>m \<ge> n. pending_get (po_pending (run_schedule (\<lambda>k. (int k, ''u'', \<lambda>url. Reply 404 [] None)) m p)) ''u'' = None" for p
    by (intro login_attempt_ends) blast
  moreover have "pending_get (po_pending (new_poller\<lparr>po_pending := pending_put ''u'' \<lparr>pl_verifier = ''v'', pl_cursor_uuid = ''u'',
      pl_deadline = 9\<rparr> new_pending_store\<rparr>)) ''u'' \<noteq> None" by (simp add: pending_get_def pending_put_def)
  ultimately show ?thesis by blast
qed

end
