(* ===== verification/Provider_Laws.thy ===== *)
theory Provider_Laws
  imports Provider Login_Laws
begin

section \<open>Laws of the auth provider\<close>

text \<open>
  What each operation of the provider leaves in the account store: refreshes are recorded whichever way they go,
  logins are added without touching other accounts, and the persisted file brings an account back.
\<close>

subsection \<open>The account store after an operation\<close>

definition fresh_account :: "auth_env \<Rightarrow> string \<Rightarrow> string \<Rightarrow> time \<Rightarrow> account_state" where
  "fresh_account env accessToken refreshToken expires =
     \<lparr>as_access_token = accessToken, as_refresh_token = refreshToken, as_expires_at = expires,
      as_status = status_active, as_status_message = [], as_updated_at = ae_stored_at env\<rparr>"

lemma provider_set_accounts:
  "pv_accounts (provider_set env i a r t p) = (pv_accounts p)(i \<mapsto> fresh_account env a r t)"
  by (simp add: provider_set_def account_set_def zero_account_def fresh_account_def status_active_def)

lemma provider_set_poller [simp]: "pv_poller (provider_set env i a r t p) = pv_poller p"
  by (simp add: provider_set_def)

lemma fresh_account_get: "s i = Some (fresh_account env a r t) \<Longrightarrow> account_get s i = (fresh_account env a r t, None)"
  by (simp add: account_get_def fresh_account_def)

lemma degraded_get:
  assumes "st \<noteq> status_active"
  shows "snd (account_get (pv_accounts (provider_degrade env i st m p)) i) =
      Some (err_account_degraded @ [CHR 0x0A] @ (if m = [] then st else m))
    \<and> tokens_of (pv_accounts (provider_degrade env i st m p) i) = tokens_of (pv_accounts p i)
    \<and> (\<forall>j. j \<noteq> i \<longrightarrow> pv_accounts (provider_degrade env i st m p) j = pv_accounts p j)"
  using assms
  by (auto simp: provider_degrade_def mark_degraded_def account_get_def err_account_degraded_with_reason_def Let_def
      tokens_of_def zero_account_def split: option.split)

lemma needs_reauth_inactive: "status_needs_reauth \<noteq> status_active"
  by (simp add: status_needs_reauth_def status_active_def)

subsection \<open>Refresh\<close>

lemma parse_token_storage_no_panic: "\<not> is_panic (parse_token_storage raw)"
  by (auto simp: parse_token_storage_def is_panic_go_bind intro!: dec_struct_no_panic)

lemma refresh_no_panic: "\<not> is_panic (refresh_single_flight huge serve now token)"
  by (auto simp: refresh_single_flight_def is_panic_go_bind split: http_reply.split option.split)

lemma refresh_failed:
  assumes "refresh_auth env serve joined req p = (Err e, p')"
  shows "(\<exists>reason. snd (account_get (pv_accounts p') (arq_auth_id req)) = Some (err_account_degraded @ [CHR 0x0A] @ reason))
    \<and> tokens_of (pv_accounts p' (arq_auth_id req)) = tokens_of (pv_accounts p (arq_auth_id req))
    \<and> (\<forall>j. j \<noteq> arq_auth_id req \<longrightarrow> pv_accounts p' j = pv_accounts p j) \<and> pv_poller p' = pv_poller p"
proof -
  obtain m where "p' = provider_degrade env (arq_auth_id req) status_needs_reauth m p"
    using assms by (auto simp: refresh_auth_def Let_def split: go_result.splits)
  then show ?thesis
    using degraded_get [OF needs_reauth_inactive, of env "arq_auth_id req" m p] by (auto simp: provider_degrade_def)
qed

text \<open>
  C8: a refresh is never silently dropped: when it fails, every later \<open>Get\<close> of the account fails with a reason until
  it is set again, and its tokens are kept; when it succeeds the account is active with the new tokens, and
  the storage returned to the host holds the same tokens and expiry. No other account changes. This also holds for a
  call that joined another one's refresh.
\<close>

theorem refresh_recorded:
  assumes "refresh_auth env serve joined req p = (r, p')"
    and "\<And>x. joined (arq_auth_id req) = Some x \<Longrightarrow> \<not> is_panic x"
  shows "(case r of
       Ok d \<Rightarrow> (\<exists>a t exp. account_get (pv_accounts p') (arq_auth_id req) = (fresh_account env a t exp, None)
                \<and> ad_id d = arq_auth_id req \<and> ad_storage_json d = token_storage_marshal (new_token_storage a t exp)
                \<and> ad_next_refresh_after d = exp)
     | Err e \<Rightarrow> (\<exists>reason. snd (account_get (pv_accounts p') (arq_auth_id req)) = Some (err_account_degraded @ [CHR 0x0A] @ reason))
                \<and> tokens_of (pv_accounts p' (arq_auth_id req)) = tokens_of (pv_accounts p (arq_auth_id req))
     | Panic e \<Rightarrow> False)
   \<and> (\<forall>j. j \<noteq> arq_auth_id req \<longrightarrow> pv_accounts p' j = pv_accounts p j)"
proof (cases "parse_token_storage (arq_storage_json req)")
  case (Ok storage)
  let ?token = "if ts_refresh_token storage = [] then ts_access_token storage else ts_refresh_token storage"
  let ?r = "refresh (ae_huge env) serve (ae_now env) joined (arq_auth_id req) ?token"
  have np: "\<not> is_panic ?r"
    using assms(2) refresh_no_panic by (auto simp: refresh_def split: option.split)
  show ?thesis
  proof (cases ?r)
    case ok: (Ok res)
    then have p': "pv_accounts p' = (pv_accounts p)(arq_auth_id req \<mapsto>
        fresh_account env (rf_access_token res) (rf_refresh_token res) (rf_expires_at res))"
      using assms(1) Ok by (auto simp: refresh_auth_def Let_def provider_set_accounts)
    then have "account_get (pv_accounts p') (arq_auth_id req) =
        (fresh_account env (rf_access_token res) (rf_refresh_token res) (rf_expires_at res), None)"
      by (intro fresh_account_get) simp
    moreover obtain d where d: "r = Ok d" "ad_id d = arq_auth_id req" "ad_next_refresh_after d = rf_expires_at res"
      "ad_storage_json d = token_storage_marshal (new_token_storage (rf_access_token res) (rf_refresh_token res) (rf_expires_at res))"
      using assms(1) Ok ok by (auto simp: refresh_auth_def Let_def)
    moreover have "\<forall>j. j \<noteq> arq_auth_id req \<longrightarrow> pv_accounts p' j = pv_accounts p j" using p' by simp
    ultimately show ?thesis unfolding d(1) go_result.case by blast
  next
    case err: (Err e)
    then have "r = Err (''cursor: refresh failed: '' @ e)"
      "p' = provider_degrade env (arq_auth_id req) status_needs_reauth e p"
      using assms(1) Ok by (auto simp: refresh_auth_def Let_def)
    then show ?thesis using degraded_get [OF needs_reauth_inactive, of env "arq_auth_id req" e p] by auto
  qed (use np in simp)
next
  case (Err e)
  then have "r = Err (''cursor: failed to parse stored auth for refresh: '' @ e)"
    "p' = provider_degrade env (arq_auth_id req) status_needs_reauth (''failed to parse stored auth: '' @ e) p"
    using assms(1) by (auto simp: refresh_auth_def)
  then show ?thesis using degraded_get [OF needs_reauth_inactive, of env "arq_auth_id req" _ p] by auto
qed (use parse_token_storage_no_panic [of "arq_storage_json req"] in simp)

definition example_auth_env :: auth_env where
  "example_auth_env = \<lparr>ae_now = 63891196500 * second, ae_stored_at = 63891196501 * second, ae_uuid = ''0-1'', ae_huge = id\<rparr>"

text \<open>A stored account, and the request to refresh it.\<close>

definition example_refresh :: auth_refresh_request where
  "example_refresh = \<lparr>arq_auth_id = ''cursor-0'', arq_storage_json = token_storage_marshal (new_token_storage ''old'' ''ref'' 0),
     arq_metadata = (\<lambda>k. None), arq_attributes = (\<lambda>k. None)\<rparr>"

lemma example_refresh_parses: "parse_token_storage (arq_storage_json example_refresh) = Ok (new_token_storage ''old'' ''ref'' 0)"
  using parse_marshal_storage [of "new_token_storage ''old'' ''ref'' 0"] new_token_storage_fields [of "''old''" "''ref''" 0]
  by (simp add: example_refresh_def new_token_storage_def utf8_valid_ascii code_def)

lemma refresh_recorded_witness:
  "\<exists>reason. snd (account_get (pv_accounts (snd (refresh_auth example_auth_env (\<lambda>rq. NoResponse ''reset'') (\<lambda>i. None)
      example_refresh (new_provider new_account_store)))) ''cursor-0'') = Some (err_account_degraded @ [CHR 0x0A] @ reason)"
proof -
  obtain r p' where r: "refresh_auth example_auth_env (\<lambda>rq. NoResponse ''reset'') (\<lambda>i. None)
      example_refresh (new_provider new_account_store) = (r, p')" by (meson surj_pair)
  have "\<exists>e. r = Err e"
    using r by (auto simp: refresh_auth_def example_refresh_parses refresh_def refresh_single_flight_def Let_def)
  then show ?thesis using refresh_recorded [OF r] r by (auto simp: example_refresh_def)
qed

text \<open>
  a refresh succeeds only on a grant: the server answered 200, and a non-empty access token, to the token that
  was presented; and when the server does not rotate the refresh token the account keeps the one it has, so a
  successful refresh never leaves an account without one.
\<close>

theorem refresh_is_a_grant:
  assumes "refresh_single_flight huge serve now token = Ok res"
  shows "(\<exists>body access refreshToken. serve (refresh_request token) = Reply 200 body None
      \<and> go_bind (json_unmarshal body) dec_token_response = Ok (access, refreshToken) \<and> access \<noteq> []
      \<and> res = \<lparr>rf_access_token = access, rf_refresh_token = (if refreshToken = [] then token else refreshToken),
               rf_expires_at = get_token_expiry huge now access\<rparr>)
    \<and> (token \<noteq> [] \<longrightarrow> rf_refresh_token res \<noteq> [])"
proof -
  obtain body where s: "serve (refresh_request token) = Reply 200 body None"
    using assms by (simp add: refresh_single_flight_def split: http_reply.splits option.splits if_splits)
  obtain x where "go_bind (json_unmarshal body) dec_token_response = Ok x"
    using assms s by (cases "go_bind (json_unmarshal body) dec_token_response") (simp_all add: refresh_single_flight_def)
  then obtain access refreshToken where d: "go_bind (json_unmarshal body) dec_token_response = Ok (access, refreshToken)"
    by (cases x) simp
  have "access \<noteq> []" using assms by (cases access) (simp_all add: refresh_single_flight_def s d)
  moreover from this have "res = \<lparr>rf_access_token = access, rf_refresh_token = (if refreshToken = [] then token else refreshToken),
      rf_expires_at = get_token_expiry huge now access\<rparr>"
    using assms by (simp add: refresh_single_flight_def s d)
  ultimately show ?thesis using s d by (intro conjI exI impI) simp_all
qed

lemma refresh_is_a_grant_witness:
  "\<exists>res. refresh_single_flight id (\<lambda>rq. Reply 200 grant_body None) 0 ''ref'' = Ok res \<and> rf_refresh_token res = ''ref''"
proof -
  obtain res where res: "refresh_single_flight id (\<lambda>rq. Reply 200 grant_body None) 0 ''ref'' = Ok res"
    by (simp add: refresh_single_flight_def grant_body_decodes)
  from refresh_is_a_grant [OF res] grant_body_decodes have "rf_refresh_token res = ''ref''" by auto
  then show ?thesis using res by blast
qed

subsection \<open>Login and restart\<close>

lemma parse_auth_cursor:
  assumes "parse_token_storage raw = Ok st" and "ts_type st = ''cursor''" and "i \<noteq> []"
  shows "\<exists>d. parse_auth env \<lparr>apq_file_name = i @ ''.json'', apq_raw_json = raw\<rparr> p =
      (Some d, provider_set env i (ts_access_token st) (ts_refresh_token st) (expires_at st) p)
    \<and> ad_id d = i \<and> ad_next_refresh_after d = expires_at st"
  using assms by (simp add: parse_auth_def account_id_from_file_name_def Let_def)

lemma poll_login_success:
  assumes "poll serve (ae_now env) i (pv_poller p) = (res, po)" and "pr_status res = LoginSuccess"
  shows "\<exists>d. poll_login env serve i p = (\<lparr>lpr_status = LoginSuccess, lpr_message = [], lpr_auth = Some d\<rparr>,
      provider_set env (new_account_id env) (pr_access_token res) (pr_refresh_token res)
        (get_token_expiry (ae_huge env) (ae_now env) (pr_access_token res)) (p\<lparr>pv_poller := po\<rparr>))
    \<and> ad_id d = new_account_id env \<and> ad_file_name d = new_account_id env @ ''.json''
    \<and> ad_storage_json d = token_storage_marshal (new_token_storage (pr_access_token res) (pr_refresh_token res)
        (get_token_expiry (ae_huge env) (ae_now env) (pr_access_token res)))"
  using assms by (simp add: poll_login_def Let_def)

text \<open>
  C7: a login survives a restart: it adds one account, under an id of its own, and leaves every other account as it
  was; and when any later instance of the plugin parses the file the host stored for it, the same id is active again
  with the same tokens and with the expiry cut to the second.
\<close>

theorem login_survives_restart:
  assumes "poll_login env serve attemptID p = (resp, p')" and "lpr_auth resp = Some d"
    and "account_get (pv_accounts p') (ad_id d) = (st, e)"
    and "utf8_valid (as_access_token st)" and "utf8_valid (as_refresh_token st)"
    and "0 \<le> as_expires_at st" and "as_expires_at st < 315537897600 * second"
  shows "e = None \<and> ad_id d = ''cursor-'' @ ae_uuid env \<and> (\<forall>j. j \<noteq> ad_id d \<longrightarrow> pv_accounts p' j = pv_accounts p j)
    \<and> (\<exists>d2 q'. parse_auth env2 \<lparr>apq_file_name = ad_file_name d, apq_raw_json = ad_storage_json d\<rparr> q = (Some d2, q')
         \<and> ad_id d2 = ad_id d
         \<and> account_get (pv_accounts q') (ad_id d) =
             (fresh_account env2 (as_access_token st) (as_refresh_token st) (as_expires_at st div second * second), None))"
proof -
  obtain a t exp where d: "ad_id d = new_account_id env" "ad_file_name d = new_account_id env @ ''.json''"
    "ad_storage_json d = token_storage_marshal (new_token_storage a t exp)"
    and p': "pv_accounts p' = (pv_accounts p)(new_account_id env \<mapsto> fresh_account env a t exp)"
  proof -
    obtain res po where po: "poll serve (ae_now env) attemptID (pv_poller p) = (res, po)" by (meson surj_pair)
    then have "pr_status res = LoginSuccess" using assms(1,2) by (auto simp: poll_login_def Let_def split: if_splits)
    from poll_login_success [OF po this] assms(1,2) show thesis by (intro that) (auto simp: provider_set_accounts)
  qed
  have st: "st = fresh_account env a t exp" and e: "e = None"
    using assms(3) fresh_account_get [of "pv_accounts p'" "new_account_id env" env a t exp] d p' by auto
  have fields: "utf8_valid a" "utf8_valid t" "0 \<le> exp" "exp < 315537897600 * second"
    using assms(4-7) st by (simp_all add: fresh_account_def)
  have "parse_token_storage (ad_storage_json d) = Ok (new_token_storage a t exp)"
    unfolding d(3) using fields(1,2) new_token_storage_fields by (intro parse_marshal_storage) (simp_all add: new_token_storage_def)
  moreover have "expires_at (new_token_storage a t exp) = exp div second * second"
  proof -
    have "format_rfc3339 exp \<noteq> []" by (auto simp: format_rfc3339_def Let_def split: prod.split)
    then show ?thesis using rfc3339_round_trip [OF fields(3,4)] by (simp add: expires_at_def new_token_storage_def)
  qed
  moreover have "new_account_id env \<noteq> []" by (simp add: new_account_id_def)
  ultimately obtain d2 where d2: "parse_auth env2 \<lparr>apq_file_name = ad_file_name d, apq_raw_json = ad_storage_json d\<rparr> q =
      (Some d2, provider_set env2 (new_account_id env) a t (exp div second * second) q)" "ad_id d2 = new_account_id env"
    using parse_auth_cursor [of "ad_storage_json d" "new_token_storage a t exp" "new_account_id env" env2 q] d(2)
    by (auto simp: new_token_storage_def)
  have "account_get (pv_accounts (provider_set env2 (new_account_id env) a t (exp div second * second) q)) (new_account_id env)
      = (fresh_account env2 a t (exp div second * second), None)"
    by (rule fresh_account_get) (simp add: provider_set_accounts)
  moreover have "as_access_token st = a" "as_refresh_token st = t" "as_expires_at st = exp"
    by (simp_all add: st fresh_account_def)
  ultimately show ?thesis
    using e d p' d2 by (auto simp: new_account_id_def provider_identifier_def)
qed

lemma login_survives_restart_witness:
  "\<exists>(d :: auth_data) (p' :: provider) d2 q'. snd (account_get (pv_accounts p') ''cursor-0-1'') = None \<and> ad_id d = ''cursor-0-1''
    \<and> parse_auth example_auth_env \<lparr>apq_file_name = ad_file_name d, apq_raw_json = ad_storage_json d\<rparr> (new_provider new_account_store)
        = (Some d2, q')"
proof -
  let ?serve = "\<lambda>url :: string. Reply 200 grant_body None"
  define po where "po = new_poller\<lparr>po_pending := pending_put ''u'' \<lparr>pl_verifier = ''v'', pl_cursor_uuid = ''u'', pl_deadline = 63891196600 * second\<rparr> new_pending_store\<rparr>"
  define p where "p = (new_provider new_account_store)\<lparr>pv_poller := po\<rparr>"
  have exp: "get_token_expiry id (63891196500 * second) ''tok'' = 63891200100 * second"
    by (simp add: get_token_expiry_def Let_def default_expiry_fallback_def second_def)
  have pr: "fst (poll ?serve (63891196500 * second) ''u'' po) =
      \<lparr>pr_status = LoginSuccess, pr_message = [], pr_access_token = ''tok'', pr_refresh_token = []\<rparr>"
    by (simp add: po_def new_poller_def poll_def poll_begin_def poll_end_def grant_body_decodes pending_put_def pending_get_def second_def)
  then obtain po' where po': "poll ?serve (63891196500 * second) ''u'' po =
      (\<lparr>pr_status = LoginSuccess, pr_message = [], pr_access_token = ''tok'', pr_refresh_token = []\<rparr>, po')"
    by (metis prod.collapse)
  have env: "ae_now example_auth_env = 63891196500 * second" "ae_huge example_auth_env = id"
    "new_account_id example_auth_env = ''cursor-0-1''"
    by (simp_all add: example_auth_env_def new_account_id_def provider_identifier_def)
  have "pv_poller p = po" by (simp add: p_def)
  then obtain d p' where r: "poll_login example_auth_env ?serve ''u'' p = (\<lparr>lpr_status = LoginSuccess, lpr_message = [], lpr_auth = Some d\<rparr>, p')"
    and p': "p' = provider_set example_auth_env ''cursor-0-1'' ''tok'' [] (63891200100 * second) (p\<lparr>pv_poller := po'\<rparr>)"
    and d: "ad_id d = ''cursor-0-1''"
    using poll_login_success [of ?serve example_auth_env "''u''" p _ po'] po' unfolding env by (auto simp: exp)
  have g: "account_get (pv_accounts p') (ad_id d) = (fresh_account example_auth_env ''tok'' [] (63891200100 * second), None)"
    unfolding d p' by (rule fresh_account_get) (simp add: provider_set_accounts)
  have "utf8_valid ''tok''" by (rule utf8_valid_ascii) (simp add: code_def)
  then obtain d2 q' where "parse_auth example_auth_env \<lparr>apq_file_name = ad_file_name d, apq_raw_json = ad_storage_json d\<rparr>
      (new_provider new_account_store) = (Some d2, q')"
    using login_survives_restart [OF r _ g, of example_auth_env "new_provider new_account_store"]
    by (auto simp: fresh_account_def second_def utf8_valid_ascii)
  moreover have "snd (account_get (pv_accounts p') ''cursor-0-1'') = None" using g unfolding d by simp
  ultimately show ?thesis using d by blast
qed

subsection \<open>What a failed refresh means\<close>

text \<open>
  C40: a network failure during a refresh marks the account as \<open>needs_reauth\<close>, as if its refresh token had been
  rejected; yet parsing the account's stored file again makes it active, with the same tokens and without any refresh.
\<close>

theorem failed_refresh_until_reparse:
  assumes "parse_token_storage (arq_storage_json req) = Ok storage" and "ts_type storage = ''cursor''"
    and "arq_auth_id req \<noteq> []" and "joined (arq_auth_id req) = None" and "\<And>rq. serve rq = NoResponse e"
  shows "\<exists>p' d p''. refresh_auth env serve joined req p = (Err (''cursor: refresh failed: cursor: refresh request failed: '' @ e), p')
    \<and> map_option as_status (pv_accounts p' (arq_auth_id req)) = Some status_needs_reauth
    \<and> parse_auth env \<lparr>apq_file_name = arq_auth_id req @ ''.json'', apq_raw_json = arq_storage_json req\<rparr> p' = (Some d, p'')
    \<and> account_get (pv_accounts p'') (arq_auth_id req) =
        (fresh_account env (ts_access_token storage) (ts_refresh_token storage) (expires_at storage), None)"
proof -
  let ?p' = "provider_degrade env (arq_auth_id req) status_needs_reauth (''cursor: refresh request failed: '' @ e) p"
  have r: "refresh_auth env serve joined req p = (Err (''cursor: refresh failed: cursor: refresh request failed: '' @ e), ?p')"
    using assms by (simp add: refresh_auth_def Let_def refresh_def refresh_single_flight_def)
  moreover have "map_option as_status (pv_accounts ?p' (arq_auth_id req)) = Some status_needs_reauth"
    by (simp add: provider_degrade_def mark_degraded_def Let_def)
  moreover obtain d where "parse_auth env \<lparr>apq_file_name = arq_auth_id req @ ''.json'', apq_raw_json = arq_storage_json req\<rparr> ?p' =
      (Some d, provider_set env (arq_auth_id req) (ts_access_token storage) (ts_refresh_token storage) (expires_at storage) ?p')"
    using parse_auth_cursor [OF assms(1-3), of env ?p'] by blast
  moreover have "account_get (pv_accounts (provider_set env (arq_auth_id req) (ts_access_token storage)
        (ts_refresh_token storage) (expires_at storage) ?p')) (arq_auth_id req) =
      (fresh_account env (ts_access_token storage) (ts_refresh_token storage) (expires_at storage), None)"
    by (rule fresh_account_get) (simp add: provider_set_accounts)
  ultimately show ?thesis by blast
qed

lemma failed_refresh_until_reparse_witness:
  "\<forall>p. map_option as_status (pv_accounts (snd (refresh_auth example_auth_env (\<lambda>rq. NoResponse ''reset'') (\<lambda>i. None)
      example_refresh p)) ''cursor-0'') = Some status_needs_reauth"
proof
  fix p
  have "arq_auth_id example_refresh = ''cursor-0''" "arq_auth_id example_refresh \<noteq> []" by (simp_all add: example_refresh_def)
  then show "map_option as_status (pv_accounts (snd (refresh_auth example_auth_env (\<lambda>rq. NoResponse ''reset'') (\<lambda>i. None)
      example_refresh p)) ''cursor-0'') = Some status_needs_reauth"
    using failed_refresh_until_reparse [OF example_refresh_parses, of "\<lambda>i. None" "\<lambda>rq. NoResponse ''reset''" "''reset''" example_auth_env p]
    by (auto simp: new_token_storage_def)
qed

end
