(* ===== verification/Reflect_Types.thy ===== *)
theory Reflect_Types
  imports Result_Fields Exec_Message
begin

section \<open>Types of the dynamic messages\<close>

text \<open>
  protobuf-go panics when a message built by reflection does not fit its descriptor, and the server cannot read it. A message
  has the type of a descriptor when its fields are declared there, each once, with values of their kinds, and at most one
  member of each oneof. The reflective code only ever builds messages of the type it walks.
\<close>

subsection \<open>Typing\<close>

text \<open>No two populated fields share a oneof.\<close>

definition oneofs_ok :: "mdesc \<Rightarrow> string list \<Rightarrow> bool" where
  "oneofs_ok md ns = list_all (\<lambda>f. list_all (\<lambda>g. pf_name f \<noteq> pf_name g \<and> pf_oneof f \<noteq> None \<and> pf_oneof f = pf_oneof g \<longrightarrow>
       \<not> (pf_name f \<in> set ns \<and> pf_name g \<in> set ns)) (md_fields md)) (md_fields md)"

fun pv_typed :: "pkind \<Rightarrow> bool \<Rightarrow> pval \<Rightarrow> bool" where
  "pv_typed k r (VString s) = (\<not> r \<and> k = KString)"
| "pv_typed k r (VBytes b) = (\<not> r \<and> k = KBytes)"
| "pv_typed k r (VScalar s) = (\<not> r \<and> (case k of KScalar t \<Rightarrow> True | _ \<Rightarrow> False))"
| "pv_typed k r (VList vs) = (r \<and> list_all (pv_typed k False) vs)"
| "pv_typed k r (VMap kvs) = (r \<and> kind_is_message k)"
| "pv_typed k r (VMsg kvs) = (\<not> r \<and> (case k of
       KMessage md \<Rightarrow> distinct (map fst kvs) \<and> oneofs_ok md (map fst kvs)
         \<and> list_all (\<lambda>(n, v). case fields_by_name (md_fields md) n of
              Some f \<Rightarrow> pv_typed (pf_kind f) (pf_repeated f) v | None \<Rightarrow> False) kvs
     | KMessageRef n \<Rightarrow> True
     | _ \<Rightarrow> False))"
| "pv_typed k r VNil = False"

definition msg_typed :: "mdesc \<Rightarrow> pmsg \<Rightarrow> bool" where
  "msg_typed md m = pv_typed (KMessage md) False (VMsg m)"

text \<open>Descriptors name their fields uniquely, at every level.\<close>

fun desc_ok :: "mdesc \<Rightarrow> bool" and field_ok :: "pfield \<Rightarrow> bool" and kind_ok :: "pkind \<Rightarrow> bool" where
  "desc_ok (MD n oo fs) = (distinct (map pf_name fs) \<and> list_all field_ok fs)"
| "field_ok (PField n k r oo) = kind_ok k"
| "kind_ok (KMessage md) = desc_ok md"
| "kind_ok k = True"

lemma desc_ok_iff: "desc_ok md \<longleftrightarrow> distinct (map pf_name (md_fields md)) \<and> (\<forall>f \<in> set (md_fields md). kind_ok (pf_kind f))"
proof (cases md)
  case (MD n oo fs)
  have "field_ok f \<longleftrightarrow> kind_ok (pf_kind f)" for f by (cases f) simp
  then show ?thesis using MD by (simp add: list_all_iff)
qed

lemma msg_typed_iff:
  "msg_typed md m \<longleftrightarrow> distinct (map fst m) \<and> oneofs_ok md (map fst m)
     \<and> (\<forall>(n, v) \<in> set m. \<exists>f. fields_by_name (md_fields md) n = Some f \<and> pv_typed (pf_kind f) (pf_repeated f) v)"
  by (auto simp: msg_typed_def list_all_iff split: option.splits)

lemma msg_typed_Nil [simp]: "msg_typed md []"
  by (simp add: msg_typed_iff oneofs_ok_def list_all_iff)

lemma desc_ok_field_desc:
  assumes "desc_ok md" and "f \<in> set (md_fields md)" and "field_desc f = Ok fd"
  shows "desc_ok fd \<and> pf_kind f = KMessage fd \<and> \<not> pf_repeated f"
  using assms by (cases "pf_kind f") (auto simp: desc_ok_iff [of md] field_desc_def split: if_splits)

lemma fields_by_name_mem:
  assumes "desc_ok md" and "f \<in> set (md_fields md)" shows "fields_by_name (md_fields md) (pf_name f) = Some f"
proof -
  obtain g where g: "fields_by_name (md_fields md) (pf_name f) = Some g"
    using assms(2) by (cases "fields_by_name (md_fields md) (pf_name f)") (auto simp: fields_by_name_def find_None_iff)
  then have "g \<in> set (md_fields md)" "pf_name g = pf_name f" using fields_by_name_Some by auto
  then have "g = f" using assms by (auto simp: desc_ok_iff distinct_map inj_on_def)
  then show ?thesis using g by simp
qed

subsection \<open>Setting a field keeps the type\<close>

lemma oneofs_ok_iff:
  "oneofs_ok md ns \<longleftrightarrow> (\<forall>f \<in> set (md_fields md). \<forall>g \<in> set (md_fields md).
     pf_name f \<in> set ns \<and> pf_name g \<in> set ns \<and> pf_oneof f \<noteq> None \<and> pf_oneof f = pf_oneof g \<longrightarrow> pf_name f = pf_name g)"
  unfolding oneofs_ok_def list_all_iff by blast

lemma oneofs_ok_subset: "oneofs_ok md ns \<Longrightarrow> set ms \<subseteq> set ns \<Longrightarrow> oneofs_ok md ms"
  unfolding oneofs_ok_iff by blast

lemma set_fst_clear: "fst ` set (pm_clear p m) = {n \<in> fst ` set m. \<not> p n}"
  by (force simp: pm_clear_def)

lemma pm_clear_typed:
  assumes "msg_typed md m" shows "msg_typed md (pm_clear p m)"
proof -
  have "distinct (map fst (pm_clear p m))" using assms by (auto simp: msg_typed_iff pm_clear_def distinct_map_filter)
  moreover have "oneofs_ok md (map fst (pm_clear p m))"
    using assms oneofs_ok_subset by (auto simp: msg_typed_iff set_fst_clear)
  ultimately show ?thesis using assms by (auto simp: msg_typed_iff pm_clear_def)
qed

lemma same_oneof_iff:
  "same_oneof md f n \<longleftrightarrow> pf_oneof f \<noteq> None \<and> (\<exists>g \<in> set (md_fields md). pf_oneof g = pf_oneof f \<and> pf_name g = n)"
  by (auto simp: same_oneof_def oneof_fields_def split: option.split)

lemma pm_set_typed:
  assumes "desc_ok md" and "msg_typed md m" and "f \<in> set (md_fields md)"
    and "pv_typed (pf_kind f) False v" and "pm_set md f v m = Ok m'"
  shows "msg_typed md m'"
proof -
  define rest where "rest = pm_clear (\<lambda>n. n = pf_name f \<or> same_oneof md f n) m"
  have typed: "msg_typed md rest" unfolding rest_def using assms(2) by (rule pm_clear_typed)
  have names: "n \<noteq> pf_name f" "\<not> same_oneof md f n" if "n \<in> fst ` set rest" for n
    using that unfolding rest_def set_fst_clear by auto
  have "m' = rest \<or> (m' = (pf_name f, v) # rest \<and> \<not> pf_repeated f)"
    using assms(5) by (auto simp: pm_set_def Let_def rest_def split: if_splits)
  moreover have "msg_typed md ((pf_name f, v) # rest)" if "\<not> pf_repeated f"
  proof -
    have uniq: "g = f" if "g \<in> set (md_fields md)" "pf_name g = pf_name f" for g
      using that assms(1,3) by (auto simp: desc_ok_iff distinct_map inj_on_def)
    have rest_ok: "oneofs_ok md (map fst rest)" using typed by (simp add: msg_typed_iff)
    have apart: "pf_name g \<notin> set (map fst rest)" if "g \<in> set (md_fields md)" "pf_oneof f \<noteq> None" "pf_oneof f = pf_oneof g" for g
      using that names(2) [of "pf_name g"] by (force simp: same_oneof_iff)
    have "oneofs_ok md (pf_name f # map fst rest)"
      unfolding oneofs_ok_iff
    proof (intro ballI impI)
      fix g h assume g: "g \<in> set (md_fields md)" and h: "h \<in> set (md_fields md)"
        and gh: "pf_name g \<in> set (pf_name f # map fst rest) \<and> pf_name h \<in> set (pf_name f # map fst rest) \<and> pf_oneof g \<noteq> None \<and> pf_oneof g = pf_oneof h"
      show "pf_name g = pf_name h"
      proof (cases "g = f \<or> h = f")
        case True
        then show ?thesis using apart [OF g] apart [OF h] gh unfolding list.set insert_iff by metis
      next
        case False
        then have "pf_name g \<in> set (map fst rest)" "pf_name h \<in> set (map fst rest)" using gh uniq g h by auto
        then show ?thesis using rest_ok g h gh unfolding oneofs_ok_iff by blast
      qed
    qed
    then show ?thesis
      using typed names(1) fields_by_name_mem [OF assms(1,3)] assms(4) that by (auto simp: msg_typed_iff)
  qed
  ultimately show ?thesis using typed by blast
qed

subsection \<open>The reflective code\<close>

lemma find_mem: "find P xs = Some x \<Longrightarrow> x \<in> set xs \<and> P x"
  by (auto simp: find_Some_iff)

lemma is_string_field_iff: "is_string_field f \<longleftrightarrow> pf_kind f = KString"
  by (simp add: is_string_field_def split: pkind.split)

lemma first_string_field_mem:
  "first_string_field ps fs = Some f \<Longrightarrow> f \<in> set fs \<and> pf_kind f = KString"
  by (induction ps fs rule: first_string_field.induct)
     (auto simp: is_string_field_iff dest!: find_mem split: option.splits)

lemma set_first_string_field_typed:
  assumes "desc_ok md" and "msg_typed md m" and "set_first_string_field md t m = Ok m'"
  shows "msg_typed md m'"
  using assms first_string_field_mem pm_set_typed [OF assms(1,2), of _ "VString t" m']
  by (auto simp: set_first_string_field_def split: option.splits)

lemma choose_case_mem: "choose_case fs = Some f \<Longrightarrow> f \<in> set fs"
  by (cases fs) (auto simp: find_Some_iff split: option.splits if_splits)

lemma populate_result_message_typed:
  assumes "desc_ok md" and "msg_typed md m" and "populate_result_message md t d m = Ok m'"
  shows "msg_typed md m'"
  using assms
proof (induction md t d m arbitrary: m' rule: populate_result_message.induct)
  case (1 md t d m)
  show ?case
  proof (cases "\<exists>oo c cd. \<not> d \<ge> max_result_descend_depth \<and> first_real_oneof md = Some oo \<and> choose_case (oneof_fields md oo) = Some c
      \<and> is_message_field c \<and> field_desc c = Ok cd")
    case True
    then obtain oo c cd where d: "\<not> d \<ge> max_result_descend_depth" "first_real_oneof md = Some oo"
      "choose_case (oneof_fields md oo) = Some c" "is_message_field c" "field_desc c = Ok cd" by blast
    have c: "c \<in> set (md_fields md)" using choose_case_mem [OF d(3)] by (simp add: oneof_fields_def)
    note fd = desc_ok_field_desc [OF 1(2) c d(5)]
    obtain x where x: "populate_result_message cd t (d + 1) [] = Ok x" "pm_set md c (VMsg x) m = Ok m'"
      using 1(4) d by (auto simp: populate_result_message.simps [of md] go_simps)
    have "msg_typed cd x" using 1(1) [OF d(1,2,3) _ _ _ x(1)] d(4) fd by simp
    then show ?thesis using pm_set_typed [OF 1(2,3) c _ x(2)] fd by (simp add: msg_typed_def)
  next
    case False
    then show ?thesis
      using 1(4) set_first_string_field_typed [OF 1(2,3)] 1(3)
      by (auto simp: populate_result_message.simps [of md] go_simps split: if_splits option.splits)
  qed
qed

lemma set_generic_result_field_typed:
  assumes "desc_ok md" and "msg_typed md m" and "set_generic_result_field md t d m = Ok m'"
  shows "msg_typed md m'"
proof (cases "find (\<lambda>f. pf_name f = ''result'' \<and> is_message_field f) (md_fields md)")
  case None
  then show ?thesis using assms by (auto simp: set_generic_result_field_def split: if_splits)
next
  case (Some f)
  then have f: "f \<in> set (md_fields md)" by (auto simp: find_Some_iff)
  show ?thesis
  proof (cases "d \<ge> max_result_descend_depth")
    case False
    then obtain rd r where r: "field_desc f = Ok rd" "populate_result_message rd t (d + 1) [] = Ok r" "pm_set md f (VMsg r) m = Ok m'"
      using assms(3) Some by (auto simp: set_generic_result_field_def go_simps)
    note fd = desc_ok_field_desc [OF assms(1) f r(1)]
    then have "msg_typed rd r" using populate_result_message_typed [OF _ _ r(2)] by simp
    then show ?thesis using pm_set_typed [OF assms(1,2) f _ r(3)] fd by (simp add: msg_typed_def)
  qed (use assms in \<open>simp add: set_generic_result_field_def\<close>)
qed

lemma decline_with_typed:
  assumes "desc_ok md" and "msg_typed md m" and "set fds \<subseteq> set (md_fields md)" and "decline_with md fds names m = Ok m'"
  shows "msg_typed md m'"
  using assms
proof (induction md fds names m rule: decline_with.induct)
  case (2 md fds name names m)
  show ?case
  proof (cases "\<exists>f. fields_by_name fds name = Some f \<and> is_message_field f")
    case True
    then obtain f where f: "fields_by_name fds name = Some f" "is_message_field f" by blast
    then have mem: "f \<in> set (md_fields md)" using fields_by_name_Some 2(5) by blast
    obtain fd inner where fd: "field_desc f = Ok fd" "msg_typed fd inner" "pm_set md f (VMsg inner) m = Ok m'"
    proof -
      obtain fd where fd: "field_desc f = Ok fd"
        using 2(6) f by (auto simp: go_simps)
      show ?thesis
      proof (cases "set_first_string_field fd decline_text []")
        case (Ok inner)
        then have "msg_typed fd inner" using set_first_string_field_typed [of fd] desc_ok_field_desc [OF 2(3) mem fd] msg_typed_Nil by blast
        then show ?thesis using that fd 2(6) f Ok by simp
      qed (use 2(6) f fd that [OF fd, of "[]"] in simp_all)
    qed
    then show ?thesis
      using pm_set_typed [OF 2(3,4) mem _ fd(3)] desc_ok_field_desc [OF 2(3) mem fd(1)] by (simp add: msg_typed_def)
  next
    case False
    then show ?thesis using 2 by (auto split: option.splits if_splits)
  qed
qed simp

lemma schemas_ok: "desc_ok md_ToolCall" "desc_ok md_ExecClientMessage"
  by code_simp+

lemma exec_result_field_mem: "exec_result_field n = Some f \<Longrightarrow> f \<in> set (md_fields md_ExecClientMessage)"
  by (auto simp: exec_result_field_def oneof_fields_def dest!: fields_by_name_Some)

lemma build_rejected_result_typed:
  assumes "exec_result_field n = Some f" and "field_desc f = Ok md" and "build_rejected_result n = Ok (Some m)"
  shows "msg_typed md m"
proof -
  have "desc_ok md" using desc_ok_field_desc [OF schemas_ok(2) exec_result_field_mem [OF assms(1)] assms(2)] by blast
  moreover obtain oo where d: "decline_with md (oneof_fields md oo) decline_outcome_field_priority [] = Ok m"
    using assms by (auto simp: build_rejected_result_def populate_decline_outcome_def go_simps split: if_splits option.splits)
  moreover have "set (oneof_fields md oo) \<subseteq> set (md_fields md)" by (auto simp: oneof_fields_def)
  ultimately show ?thesis using decline_with_typed [OF _ msg_typed_Nil _ d] by blast
qed

text \<open>
  C29: The messages the plugin builds by reflection have the type of their descriptor. Whatever variant of \<open>ToolCall\<close> a result is
  written into, a message of the variant's type stays one: every field set is declared there with that kind, set once, and no
  two are members of the same oneof. And a decline has the type of the reply that its field of \<open>ExecClientMessage\<close> takes.
\<close>

theorem reflective_messages_typed:
  assumes "g \<in> set (oneof_fields md_ToolCall ''tool'')" and "field_desc g = Ok md" and "msg_typed md m"
  shows "(\<forall>m'. set_generic_result_field md content depth m = Ok m' \<longrightarrow> msg_typed md m')
    \<and> (\<forall>n f fd r. exec_result_field n = Some f \<and> field_desc f = Ok fd \<and> build_rejected_result n = Ok (Some r) \<longrightarrow> msg_typed fd r)"
proof -
  have "g \<in> set (md_fields md_ToolCall)" using assms(1) by (simp add: oneof_fields_def)
  then have "desc_ok md" using desc_ok_field_desc [OF schemas_ok(1) _ assms(2)] by blast
  then show ?thesis using set_generic_result_field_typed [OF _ assms(3)] build_rejected_result_typed by blast
qed

lemma reflective_messages_typed_witness:
  "\<exists>g md m'. pf_name g = ''shell_tool_call'' \<and> field_desc g = Ok md
    \<and> set_generic_result_field md ''x'' 0 [] = Ok m' \<and> pm_strings m' = [''x''] \<and> msg_typed md m'"
proof -
  have "list_ex (\<lambda>f. pf_name f = ''shell_tool_call'' \<and>
      (case field_desc f of Ok md \<Rightarrow> (case set_generic_result_field md ''x'' 0 [] of Ok m \<Rightarrow> pm_strings m = [''x''] | _ \<Rightarrow> False) | _ \<Rightarrow> False))
      (oneof_fields md_ToolCall ''tool'')" by code_simp
  then obtain g where g: "g \<in> set (oneof_fields md_ToolCall ''tool'')" "pf_name g = ''shell_tool_call''"
    and r: "case field_desc g of Ok md \<Rightarrow> (case set_generic_result_field md ''x'' 0 [] of Ok m \<Rightarrow> pm_strings m = [''x''] | _ \<Rightarrow> False) | _ \<Rightarrow> False"
    unfolding list_ex_iff by blast
  from r obtain md where md: "field_desc g = Ok md" by (cases "field_desc g") simp_all
  with r obtain m' where m': "set_generic_result_field md ''x'' 0 [] = Ok m'" "pm_strings m' = [''x'']"
    by (cases "set_generic_result_field md ''x'' 0 []") simp_all
  then show ?thesis using reflective_messages_typed [OF g(1) md msg_typed_Nil] g(2) md m' by blast
qed

end
