(* ===== verification/Go_Bytes.thy ===== *)
theory Go_Bytes
  imports Go_Base64 Go_Decode
begin

section \<open>Byte slices and unsigned integers in JSON\<close>

text \<open>
  \<open>encoding/json\<close> writes a \<open>[]byte\<close> as a string in padded standard base64 and reads it back, from a
  string or from an array of numbers; the host's configuration and the chunks of a stream travel this way
  (\<open>internal/dispatch/dispatch.go\<close>). The digits are those of \<open>Go_Base64\<close>, two of them under other characters.
\<close>

definition std_char :: "nat \<Rightarrow> char" where
  "std_char n = (if n = 62 then CHR ''+'' else if n = 63 then CHR ''/'' else b64_char n)"

definition std_digit :: "char \<Rightarrow> nat option" where
  "std_digit c =
     (if c = CHR ''+'' then Some 62 else if c = CHR ''/'' then Some 63
      else if c = CHR ''-'' \<or> c = CHR ''_'' then None else b64_digit c)"

definition std_encode :: "bytes \<Rightarrow> string" where
  "std_encode bs =
     map std_char (b64_encode_nats (map unat bs)) @ replicate ((3 - length bs mod 3) mod 3) CHR ''=''"

text \<open>The digits before the padding; the padding must fill the last group of four.\<close>

definition strip_padding :: "string \<Rightarrow> string option" where
  "strip_padding s =
     (let d = (if has_suffix s ''=='' then take (length s - 2) s
               else if has_suffix s ''='' then take (length s - 1) s else s)
      in if length s mod 4 = 0 then Some d else None)"

definition std_decode :: "string \<Rightarrow> bytes option" where
  "std_decode s =
     (case strip_padding (filter (\<lambda>c. c \<noteq> CHR 0x0A \<and> c \<noteq> CHR 0x0D) s) of
        None \<Rightarrow> None
      | Some d \<Rightarrow> (case all_some (map std_digit d) of
                    None \<Rightarrow> None
                  | Some ds \<Rightarrow> map_option (map of_nat) (b64_decode_nats ds)))"

text \<open>\<open>strconv.ParseUint\<close> of a literal, below a bound; \<open>null\<close> leaves the current value.\<close>

fun dec_uint :: "nat \<Rightarrow> nat \<Rightarrow> json \<Rightarrow> nat go_result" where
  "dec_uint bound cur (JNum l) =
     (if list_all is_digit l \<and> digits_val 0 l < bound then Ok (digits_val 0 l) else type_error)"
| "dec_uint bound cur JNull = Ok cur"
| "dec_uint bound cur v = type_error"

fun dec_bytes :: "bytes \<Rightarrow> json \<Rightarrow> bytes go_result" where
  "dec_bytes cur (JStr l) = (case std_decode (unquote l) of Some b \<Rightarrow> Ok b | None \<Rightarrow> Err ''illegal base64 data'')"
| "dec_bytes cur JNull = Ok []"
| "dec_bytes cur (JArr xs) = go_bind (go_mapM (dec_uint 256 0) xs) (\<lambda>ns. Ok (map of_nat ns))"
| "dec_bytes cur v = type_error"

definition bytes_json :: "bytes \<Rightarrow> json" where
  "bytes_json b = jstr (std_encode b)"

subsection \<open>Round trip\<close>

lemma b64_alphabet_no_specials: "CHR ''+'' \<notin> set b64_alphabet" "CHR ''/'' \<notin> set b64_alphabet" "CHR ''='' \<notin> set b64_alphabet"
  by code_simp+

lemma b64_char_62: "b64_char 62 = CHR ''-''" "b64_char 63 = CHR ''_''"
  by code_simp+

lemma b64_char_plain:
  assumes "n < 62" shows "b64_char n \<noteq> CHR ''-''" "b64_char n \<noteq> CHR ''_''"
proof -
  have "b64_char n \<noteq> b64_char 62" and "b64_char n \<noteq> b64_char 63"
    using b64_digit_char [of n] b64_digit_char [of 62] b64_digit_char [of 63] assms by auto
  then show "b64_char n \<noteq> CHR ''-''" "b64_char n \<noteq> CHR ''_''" by (simp_all add: b64_char_62)
qed

lemma std_digit_char: "n < 64 \<Longrightarrow> std_digit (std_char n) = Some n"
proof -
  assume n: "n < 64"
  then have "b64_char n \<noteq> CHR ''+''" "b64_char n \<noteq> CHR ''/''"
    using b64_char_in [of n] b64_alphabet_no_specials by auto
  then show ?thesis
    using n b64_digit_char [of n] b64_char_plain [of n] by (auto simp: std_digit_def std_char_def)
qed

lemma std_char_in: "n < 64 \<Longrightarrow> std_char n \<in> set (''+/'' @ b64_alphabet)"
  using b64_char_in [of n] by (simp add: std_char_def)

lemma std_chars_plain:
  "list_all (\<lambda>c. c \<noteq> CHR ''='' \<and> c \<noteq> CHR 0x0A \<and> c \<noteq> CHR 0x0D \<and> code c < 128) (''+/'' @ b64_alphabet)"
  by code_simp

lemma std_char_not_special:
  assumes "n < 64" shows "std_char n \<noteq> CHR ''='' \<and> std_char n \<noteq> CHR 0x0A \<and> std_char n \<noteq> CHR 0x0D \<and> code (std_char n) < 128"
  using std_chars_plain std_char_in [OF assms] unfolding list_all_iff by blast

lemma strip_padding_digits:
  assumes "CHR ''='' \<notin> set d" and "k \<le> 2" and "(length d + k) mod 4 = 0"
  shows "strip_padding (d @ replicate k CHR ''='') = Some d"
proof -
  have none: "\<not> has_suffix d (s @ ''='')" for s
    using assms(1) by (auto simp: has_suffix_iff)
  consider "k = 0" | "k = 1" | "k = 2" using assms(2) by linarith
  then show ?thesis
  proof cases
    case 1
    have "\<not> has_suffix d ''==''" "\<not> has_suffix d ''=''" using none [of "[]"] none [of "''=''"] by simp_all
    then show ?thesis using 1 assms(3) unfolding strip_padding_def Let_def by simp
  next
    case 2
    have "\<not> has_suffix (d @ ''='') ''==''"
    proof
      assume "has_suffix (d @ ''='') ''==''"
      then obtain p where "d @ ''='' = (p @ ''='') @ ''=''" by (auto simp: has_suffix_iff)
      then have "d = p @ ''=''" by simp
      then show False using assms(1) by simp
    qed
    then show ?thesis using 2 assms(3) by (simp add: strip_padding_def)
  next
    case 3
    then have "d @ replicate k CHR ''='' = d @ ''==''" by (simp add: eval_nat_numeral)
    then show ?thesis using 3 assms(3) has_suffix_append [of d "''==''"] by (simp add: strip_padding_def)
  qed
qed

lemma b64_padding_length: "(length (b64_encode_nats as) + (3 - length as mod 3) mod 3) mod 4 = 0"
proof (induction as rule: b64_encode_nats.induct)
  case (1 a b c r)
  have "length (a # b # c # r) mod 3 = length r mod 3" by simp
  moreover have "length (b64_encode_nats (a # b # c # r)) = length (b64_encode_nats r) + 4" by simp
  ultimately show ?case
    using 1 mod_add_self2 [of "length (b64_encode_nats r) + (3 - length r mod 3) mod 3" 4] by (simp only: ac_simps)
qed simp_all

theorem std_round_trip: "std_decode (std_encode bs) = Some bs"
proof -
  let ?ns = "b64_encode_nats (map unat bs)" and ?k = "(3 - length bs mod 3) mod 3"
  have bound: "\<forall>d \<in> set ?ns. d < 64" by (rule b64_encode_nats_bound) simp
  have f: "filter (\<lambda>c. c \<noteq> CHR 0x0A \<and> c \<noteq> CHR 0x0D) (std_encode bs) = std_encode bs"
    using bound std_char_not_special by (auto simp: std_encode_def filter_id_conv)
  have len: "(length ?ns + ?k) mod 4 = 0" using b64_padding_length [of "map unat bs"] by simp
  have "strip_padding (std_encode bs) = Some (map std_char ?ns)"
    unfolding std_encode_def
  proof (rule strip_padding_digits)
    show "CHR ''='' \<notin> set (map std_char ?ns)" using bound std_char_not_special by force
    show "?k \<le> 2" by linarith
    show "(length (map std_char ?ns) + ?k) mod 4 = 0" using len by simp
  qed
  moreover have "all_some (map std_digit (map std_char ?ns)) = Some ?ns"
    using bound std_digit_char by (intro all_some_map) simp
  moreover have "b64_decode_nats ?ns = Some (map unat bs)" by (rule b64_decode_encode_nats) simp
  ultimately show ?thesis by (simp add: std_decode_def f comp_def)
qed

lemma std_encode_utf8: "utf8_valid (std_encode bs)"
proof (rule utf8_valid_ascii)
  have "\<forall>d \<in> set (b64_encode_nats (map unat bs)). d < 64" by (rule b64_encode_nats_bound) simp
  then show "\<forall>c \<in> set (std_encode bs). code c < 128"
    using std_char_not_special by (auto simp: std_encode_def code_def)
qed

lemma dec_bytes_json [decode_simps]: "dec_bytes cur (bytes_json b) = Ok b"
  by (simp add: bytes_json_def jstr_def unquote_quote_lit std_encode_utf8 std_round_trip)

end
