(* ===== verification/Discovery.thy ===== *)
theory Discovery
  imports Client
begin

section \<open>Model discovery\<close>

text \<open>
  \<open>internal/discovery/discovery.go\<close>: the catalog of models an account can use, from the unary call
  \<open>GetUsableModels\<close> through the client's transport. What the call returns is a parameter; an element
  of its list may be nil.
\<close>

record model_details =
  mdl_model_id :: string
  mdl_display_name :: string
  mdl_display_model_id :: string

text \<open>The entry of the host's catalog (\<open>pluginapi.ModelInfo\<close>), with the fields the code sets.\<close>

record model_info =
  mi_id :: string
  mi_object :: string
  mi_owned_by :: string
  mi_display_name :: string
  mi_methods :: "string list"

definition normalize_model :: "model_details option \<Rightarrow> model_info" where
  "normalize_model m =
     (case m of
        None \<Rightarrow> \<lparr>mi_id = [], mi_object = [], mi_owned_by = [], mi_display_name = [], mi_methods = []\<rparr>
      | Some d \<Rightarrow>
          let name1 = mdl_display_name d;
              name2 = (if name1 = [] then mdl_display_model_id d else name1);
              name3 = (if name2 = [] then mdl_model_id d else name2)
          in \<lparr>mi_id = mdl_model_id d, mi_object = ''model'', mi_owned_by = ''cursor'', mi_display_name = name3,
              mi_methods = [''chat'']\<rparr>)"

definition get_usable_models_procedure :: string where
  "get_usable_models_procedure = ''/agent.v1.AgentService/GetUsableModels''"

text \<open>The generated client (\<open>genconnect\<close>) cuts the slashes at the end of the base URL before it appends a procedure.\<close>

definition trim_right_slashes :: "string \<Rightarrow> string" where
  "trim_right_slashes s = rev (dropWhile (\<lambda>c. c = CHR ''/'') (rev s))"

definition agent_service_url :: "string \<Rightarrow> string \<Rightarrow> string" where
  "agent_service_url baseURL procedure = trim_right_slashes baseURL @ procedure"

text \<open>The request with the account's token, as the transport sends it.\<close>

definition usable_models_request :: "agent_client \<Rightarrow> string \<Rightarrow> entropy \<Rightarrow> http_request \<times> entropy" where
  "usable_models_request c accessToken en =
     static_header_round_trip c
       (with_auth accessToken \<lparr>hr_method = ''POST'', hr_url = agent_service_url (ag_base_url c) get_usable_models_procedure, hr_headers = []\<rparr>) en"

definition models_for_auth ::
  "(http_request \<Rightarrow> model_details option list go_result) \<Rightarrow> string \<Rightarrow> agent_client \<Rightarrow> entropy \<Rightarrow> model_info list go_result \<times> entropy" where
  "models_for_auth serve authID c en =
     (case account_get (ag_accounts c) authID of
        (_, Some e) \<Rightarrow> (Err (''cursor: model discovery requires an active account: '' @ e), en)
      | (accountState, None) \<Rightarrow>
          let (req, en') = usable_models_request c (as_access_token accountState) en
          in (go_bind (wrap_err ''cursor: GetUsableModels failed'' (serve req)) (\<lambda>ms. Ok (map normalize_model ms)), en'))"

text \<open>There is no catalog without an account.\<close>

definition static_models :: "model_info list go_result" where
  "static_models = Ok []"

subsection \<open>Facts\<close>

lemma normalize_model_named:
  "mi_display_name (normalize_model m) = [] \<longleftrightarrow>
     (case m of None \<Rightarrow> True | Some d \<Rightarrow> mdl_display_name d = [] \<and> mdl_display_model_id d = [] \<and> mdl_model_id d = [])"
  by (auto simp: normalize_model_def Let_def split: option.split)

text \<open>
  Discovery uses an account only when it is active, sends its token under Cursor's headers, and lists the catalog in the
  server's order, every model under its own id.
\<close>

theorem discovery_of_active_account:
  assumes "models_for_auth serve i c en = (Ok infos, en')"
  shows "\<exists>st req ms. account_get (ag_accounts c) i = (st, None) \<and> serve req = Ok ms \<and> infos = map normalize_model ms
    \<and> hr_url req = trim_right_slashes (ag_base_url c) @ ''/agent.v1.AgentService/GetUsableModels''
    \<and> header_get (hr_headers req) ''authorization'' = ''Bearer '' @ as_access_token st
    \<and> header_get (hr_headers req) ''x-cursor-client-version'' = client_version_or_default c"
proof -
  obtain st where st: "account_get (ag_accounts c) i = (st, None)"
    using assms by (cases "account_get (ag_accounts c) i") (auto simp: models_for_auth_def split: option.splits)
  obtain req en1 where req: "usable_models_request c (as_access_token st) en = (req, en1)" by (meson surj_pair)
  obtain ms where ms: "serve req = Ok ms" "infos = map normalize_model ms"
    using assms st req by (cases "serve req") (auto simp: models_for_auth_def)
  have "hr_url req = trim_right_slashes (ag_base_url c) @ ''/agent.v1.AgentService/GetUsableModels''"
    using req by (auto simp: usable_models_request_def static_header_round_trip_def with_auth_def Let_def agent_service_url_def
        get_usable_models_procedure_def split: prod.splits if_splits)
  moreover have "header_get (hr_headers req) ''authorization'' = ''Bearer '' @ as_access_token st"
    "header_get (hr_headers req) ''x-cursor-client-version'' = client_version_or_default c"
    using req by (auto simp: usable_models_request_def static_header_round_trip_def with_auth_def Let_def
        client_version_or_default_def client_version_def split: prod.splits if_splits)
  ultimately show ?thesis using st ms by blast
qed

end
