(* ===== verification/Dispatch.thy ===== *)
theory Dispatch
  imports Go_Bytes Discovery Executor Provider
begin

section \<open>Dispatch\<close>

text \<open>
  \<open>internal/dispatch/dispatch.go\<close>: the table of the plugin's methods. A call names a method and carries a JSON
  request; it is decoded, handled by the auth provider, the discoverer or the executor, and answered by an
  envelope. These share one account store, that of the agent client. The SDK of the host
  (\<open>pluginabi\<close>, \<open>pluginapi\<close>) and \<open>yaml.v3\<close> are parameters: the method names, the decoding of requests, the
  encoding of responses, and the value of the one configuration key.
\<close>

subsection \<open>The host's SDK\<close>

datatype plugin_method =
    PluginRegister | PluginReconfigure | AuthIdentifier | AuthParse | AuthLoginStart | AuthLoginPoll | AuthRefresh
  | ModelRegister | ModelStatic | ModelForAuth | ExecutorIdentifier | ExecutorExecute | ExecutorExecuteStream
  | ExecutorCountTokens | ExecutorHTTPRequest

definition plugin_methods :: "plugin_method list" where
  "plugin_methods = [PluginRegister, PluginReconfigure, AuthIdentifier, AuthParse, AuthLoginStart, AuthLoginPoll,
     AuthRefresh, ModelRegister, ModelStatic, ModelForAuth, ExecutorIdentifier, ExecutorExecute,
     ExecutorExecuteStream, ExecutorCountTokens, ExecutorHTTPRequest]"

text \<open>The fields of the metadata the plugin declares, and of its one configuration field.\<close>

record plugin_metadata =
  pm_name :: string
  pm_version :: string
  pm_author :: string
  pm_repository :: string
  pm_logo :: string
  pm_config_field :: string
  pm_config_description :: string

record host_sdk =
  hs_name :: "plugin_method \<Rightarrow> string"
  hs_schema_version :: nat
  hs_model_scope_both :: string
  hs_dec_auth_parse :: "string \<Rightarrow> auth_parse_request go_result"
  hs_dec_login_start :: "string \<Rightarrow> unit go_result"
  hs_dec_login_poll :: "string \<Rightarrow> string go_result"
  hs_dec_refresh :: "string \<Rightarrow> auth_refresh_request go_result"
  hs_dec_static :: "string \<Rightarrow> unit go_result"
  hs_dec_for_auth :: "string \<Rightarrow> string go_result"
  hs_dec_executor :: "string \<Rightarrow> executor_request go_result"
  hs_enc_metadata :: "plugin_metadata \<Rightarrow> json go_result"
  hs_enc_auth_parse :: "auth_data option \<Rightarrow> json go_result"
  hs_enc_login_start :: "login_start_response \<Rightarrow> json go_result"
  hs_enc_login_poll :: "login_poll_response \<Rightarrow> json go_result"
  hs_enc_refresh :: "auth_data \<Rightarrow> json go_result"
  hs_enc_registration :: "string \<Rightarrow> json go_result"
  hs_enc_models :: "model_info list \<Rightarrow> json go_result"
  hs_enc_executor :: "string \<Rightarrow> json go_result"
  hs_yaml :: "bytes \<Rightarrow> string go_result"

text \<open>What a call gets from the outside, and the version set at link time.\<close>

record plugin_env =
  pe_auth :: auth_env
  pe_poll :: "string \<Rightarrow> http_reply"
  pe_refresh :: "string \<times> (string \<times> string) list \<times> string \<Rightarrow> http_reply"
  pe_joined :: "string \<Rightarrow> refresh_result go_result option"
  pe_models :: "http_request \<Rightarrow> model_details option list go_result"
  pe_run :: run_env
  pe_version :: string

subsection \<open>State\<close>

record plugin_state =
  ps_client :: agent_client
  ps_poller :: poller

definition initial_plugin :: plugin_state where
  "initial_plugin = \<lparr>ps_client = new_agent_client new_account_store [] [], ps_poller = new_poller\<rparr>"

text \<open>An operation of the provider, on the shared account store.\<close>

definition on_provider :: "(provider \<Rightarrow> 'a \<times> provider) \<Rightarrow> plugin_state \<Rightarrow> 'a \<times> plugin_state" where
  "on_provider f s =
     (let (r, p) = f \<lparr>pv_poller = ps_poller s, pv_accounts = ag_accounts (ps_client s)\<rparr>
      in (r, s\<lparr>ps_poller := pv_poller p, ps_client := (ps_client s)\<lparr>ag_accounts := pv_accounts p\<rparr>\<rparr>))"

subsection \<open>Envelopes\<close>

definition ok_envelope :: "json go_result \<Rightarrow> string go_result" where
  "ok_envelope r = go_bind r (\<lambda>v. Ok (json_print (jobj [(''ok'', JBool True), (''result'', v)])))"

definition error_envelope :: "string \<Rightarrow> string \<Rightarrow> string" where
  "error_envelope errCode message = json_print (jobj [(''ok'', JBool False),
     (''error'', jobj [(''code'', jstr errCode), (''message'', jstr message)])])"

definition not_implemented_envelope :: "string \<Rightarrow> string" where
  "not_implemented_envelope name =
     error_envelope ''not_implemented'' (name @ '' is not yet implemented (scheduled in a later story)'')"

definition identifier_response :: "string \<Rightarrow> json" where
  "identifier_response i = jobj [(''identifier'', jstr i)]"

subsection \<open>Registration\<close>

definition plugin_identifier :: string where
  "plugin_identifier = ''cursor''"

definition cursor_logo_url :: string where
  "cursor_logo_url = ''https://cursor.com/marketing-static/favicon-light.svg''"

definition plugin_repository_url :: string where
  "plugin_repository_url = ''https://github.com/yaminyassin/cliproxy-cursor-plugin''"

definition registration_capability :: "host_sdk \<Rightarrow> json" where
  "registration_capability sdk = jobj [(''auth_provider'', JBool True), (''model_registrar'', JBool True),
     (''model_provider'', JBool True), (''executor'', JBool True),
     (''executor_model_scope'', jstr (hs_model_scope_both sdk)),
     (''executor_input_formats'', JArr [jstr ''chat-completions'']),
     (''executor_output_formats'', JArr [jstr ''chat-completions''])]"

definition current_registration :: "host_sdk \<Rightarrow> string \<Rightarrow> json go_result" where
  "current_registration sdk version =
     go_bind (hs_enc_metadata sdk \<lparr>pm_name = ''cursor'', pm_version = version, pm_author = ''router-for-me'',
         pm_repository = plugin_repository_url, pm_logo = cursor_logo_url, pm_config_field = ''x_cursor_client_version'',
         pm_config_description = ''Overrides the x-cursor-client-version header sent on every Cursor backend request. Defaults to the plugin'' @ [CHR 0x27] @ ''s compiled-in value.''\<rparr>)
       (\<lambda>metadata. Ok (jobj [(''schema_version'', jnat (hs_schema_version sdk)), (''metadata'', metadata),
          (''capabilities'', registration_capability sdk)]))"

subsection \<open>Configuration\<close>

definition dec_lifecycle_request :: "json \<Rightarrow> bytes go_result" where
  "dec_lifecycle_request = dec_struct (\<lambda>ms.
     go_bind (dec_field ''config_yaml'' dec_bytes [] ms) (\<lambda>config.
     go_bind (dec_field ''schema_version'' (dec_uint (2 ^ 32)) 0 ms) (\<lambda>_. Ok config))) []"

definition apply_lifecycle_config_to :: "host_sdk \<Rightarrow> string \<Rightarrow> agent_client \<Rightarrow> agent_client" where
  "apply_lifecycle_config_to sdk request c =
     (if request = [] then c
      else case go_bind (json_unmarshal request) dec_lifecycle_request of
             Ok config \<Rightarrow>
               if config = [] then c
               else (case hs_yaml sdk config of Ok version \<Rightarrow> set_client_version version c | _ \<Rightarrow> c)
           | _ \<Rightarrow> c)"

definition apply_lifecycle_config :: "host_sdk \<Rightarrow> string \<Rightarrow> plugin_state \<Rightarrow> plugin_state" where
  "apply_lifecycle_config sdk request s = s\<lparr>ps_client := apply_lifecycle_config_to sdk request (ps_client s)\<rparr>"

subsection \<open>Handlers\<close>

text \<open>
  What every handler does: a request that does not decode is answered \<open>invalid_request\<close>, an operation
  that fails with its own code, and otherwise the response is encoded.
\<close>

definition handle ::
  "'q go_result \<Rightarrow> string \<Rightarrow> string \<Rightarrow> ('a \<Rightarrow> json go_result)
    \<Rightarrow> ('q \<Rightarrow> plugin_state \<Rightarrow> entropy \<Rightarrow> 'a go_result \<times> plugin_state \<times> entropy)
    \<Rightarrow> plugin_state \<Rightarrow> entropy \<Rightarrow> string go_result \<times> plugin_state \<times> entropy" where
  "handle decoded name errCode enc f s en =
     (case decoded of
        Err e \<Rightarrow> (Ok (error_envelope ''invalid_request'' (''failed to decode '' @ name @ '' request: '' @ e)), s, en)
      | Panic p \<Rightarrow> (Panic p, s, en)
      | Ok req \<Rightarrow>
          (case f req s en of
             (Err e, s', en') \<Rightarrow> (Ok (error_envelope errCode e), s', en')
           | (Panic p, s', en') \<Rightarrow> (Panic p, s', en')
           | (Ok resp, s', en') \<Rightarrow> (ok_envelope (enc resp), s', en')))"

definition handle_auth_parse where
  "handle_auth_parse sdk env request =
     handle (hs_dec_auth_parse sdk request) ''auth.parse'' ''auth_parse_failed'' (hs_enc_auth_parse sdk)
       (\<lambda>req s en. let (r, s') = on_provider (parse_auth (pe_auth env) req) s in (Ok r, s', en))"

definition handle_auth_login_start where
  "handle_auth_login_start sdk env request =
     handle (hs_dec_login_start sdk request) ''auth.login.start'' ''auth_login_start_failed'' (hs_enc_login_start sdk)
       (\<lambda>_ s en. let ((r, en'), s') = on_provider (\<lambda>p. let (r, p', en') = provider_start_login (pe_auth env) p en in ((r, en'), p')) s
                 in (r, s', en'))"

definition handle_auth_login_poll where
  "handle_auth_login_poll sdk env request =
     handle (hs_dec_login_poll sdk request) ''auth.login.poll'' ''auth_login_poll_failed'' (hs_enc_login_poll sdk)
       (\<lambda>attemptID s en. let (r, s') = on_provider (poll_login (pe_auth env) (pe_poll env) attemptID) s in (Ok r, s', en))"

definition handle_auth_refresh where
  "handle_auth_refresh sdk env request =
     handle (hs_dec_refresh sdk request) ''auth.refresh'' ''auth_refresh_failed'' (hs_enc_refresh sdk)
       (\<lambda>req s en. let (r, s') = on_provider (refresh_auth (pe_auth env) (pe_refresh env) (pe_joined env) req) s in (r, s', en))"

definition handle_model_static where
  "handle_model_static sdk env request =
     handle (hs_dec_static sdk request) ''model.static'' ''model_static_failed'' (hs_enc_models sdk)
       (\<lambda>_ s en. (static_models, s, en))"

definition handle_model_for_auth where
  "handle_model_for_auth sdk env request =
     handle (hs_dec_for_auth sdk request) ''model.for_auth'' ''model_for_auth_failed'' (hs_enc_models sdk)
       (\<lambda>authID s en. let (r, en') = models_for_auth (pe_models env) authID (ps_client s) en in (r, s, en'))"

definition handle_executor_execute where
  "handle_executor_execute sdk env request =
     handle (hs_dec_executor sdk request) ''executor.execute'' ''executor_execute_failed'' (hs_enc_executor sdk)
       (\<lambda>req s en. let (r, c, en') = execute (pe_run env) req (ps_client s) en in (r, s\<lparr>ps_client := c\<rparr>, en'))"

definition stream_error_payload :: "string \<Rightarrow> string" where
  "stream_error_payload e =
     json_print (jobj [(''error'', jobj [(''message'', jstr e), (''type'', jstr ''cursor_stream_error'')])])"

text \<open>
  The chunks drained from the channel: only payloads cross the boundary, so an error becomes one; an
  empty payload is left out.
\<close>

fun chunk_payload :: "stream_chunk \<Rightarrow> string list" where
  "chunk_payload (ChunkPayload payload) = (if payload = [] then [] else [payload])"
| "chunk_payload (ChunkErr e) = [stream_error_payload e]"

definition stream_result_json :: "stream_chunk list \<Rightarrow> json" where
  "stream_result_json chunks =
     (let payloads = concat (map chunk_payload chunks) in
      jobj (if payloads = [] then []
            else [(''chunks'', JArr (map (\<lambda>p. jobj [(''payload'', bytes_json (to_bytes p))]) payloads))]))"

definition handle_executor_execute_stream where
  "handle_executor_execute_stream sdk env request =
     handle (hs_dec_executor sdk request) ''executor.execute_stream'' ''executor_execute_stream_failed''
       (\<lambda>chunks. Ok (stream_result_json chunks))
       (\<lambda>req s en. let (r, c, en') = execute_stream (pe_run env) req (ps_client s) en in (r, s\<lparr>ps_client := c\<rparr>, en'))"

definition handle_executor_count_tokens where
  "handle_executor_count_tokens sdk env request =
     handle (hs_dec_executor sdk request) ''executor.count_tokens'' ''executor_count_tokens_failed'' (hs_enc_executor sdk)
       (\<lambda>req s en. (count_tokens req, s, en))"

subsection \<open>HandleMethod\<close>

definition handle_method ::
  "host_sdk \<Rightarrow> plugin_env \<Rightarrow> string \<Rightarrow> string \<Rightarrow> plugin_state \<Rightarrow> entropy \<Rightarrow> string go_result \<times> plugin_state \<times> entropy" where
  "handle_method sdk env name request s en =
     (case List.find (\<lambda>m. hs_name sdk m = name) plugin_methods of
        None \<Rightarrow> (Ok (error_envelope ''unknown_method'' (''unknown method: '' @ name)), s, en)
      | Some m \<Rightarrow>
          (case m of
             PluginRegister \<Rightarrow> (ok_envelope (current_registration sdk (pe_version env)), apply_lifecycle_config sdk request s, en)
           | PluginReconfigure \<Rightarrow> (ok_envelope (current_registration sdk (pe_version env)), apply_lifecycle_config sdk request s, en)
           | AuthIdentifier \<Rightarrow> (ok_envelope (Ok (identifier_response provider_identifier)), s, en)
           | AuthParse \<Rightarrow> handle_auth_parse sdk env request s en
           | AuthLoginStart \<Rightarrow> handle_auth_login_start sdk env request s en
           | AuthLoginPoll \<Rightarrow> handle_auth_login_poll sdk env request s en
           | AuthRefresh \<Rightarrow> handle_auth_refresh sdk env request s en
           | ModelRegister \<Rightarrow> (ok_envelope (hs_enc_registration sdk plugin_identifier), s, en)
           | ModelStatic \<Rightarrow> handle_model_static sdk env request s en
           | ModelForAuth \<Rightarrow> handle_model_for_auth sdk env request s en
           | ExecutorIdentifier \<Rightarrow> (ok_envelope (Ok (identifier_response executor_identifier)), s, en)
           | ExecutorExecute \<Rightarrow> handle_executor_execute sdk env request s en
           | ExecutorExecuteStream \<Rightarrow> handle_executor_execute_stream sdk env request s en
           | ExecutorCountTokens \<Rightarrow> handle_executor_count_tokens sdk env request s en
           | ExecutorHTTPRequest \<Rightarrow> (Ok (not_implemented_envelope name), s, en)))"

text \<open>A sequence of calls, each with what the outside does during it.\<close>

fun run_calls :: "host_sdk \<Rightarrow> (plugin_env \<times> string \<times> string) list \<Rightarrow> plugin_state \<Rightarrow> entropy
    \<Rightarrow> string go_result list \<times> plugin_state \<times> entropy" where
  "run_calls sdk [] s en = ([], s, en)"
| "run_calls sdk ((env, name, request) # calls) s en =
     (let (r, s', en') = handle_method sdk env name request s en; (rs, s'', en'') = run_calls sdk calls s' en'
      in (r # rs, s'', en''))"

end
