(* ===== verification/Dispatch_Laws.thy ===== *)
theory Dispatch_Laws
  imports Dispatch Executor_Laws Provider_Laws
begin

section \<open>Laws of the dispatch table\<close>

text \<open>
  What holds of every call and of every sequence of calls: answers are envelopes unless the call panics, calls that cannot be handled change
  nothing, the state stays well-formed, the configuration takes effect, and what one component
  records about an account decides what the others do with it.
\<close>

subsection \<open>Answers\<close>

text \<open>What a call whose name is known and whose request does not decode is told.\<close>

fun error_text :: "'a go_result \<Rightarrow> string option" where
  "error_text (Err e) = Some e"
| "error_text r = None"

fun undecodable :: "host_sdk \<Rightarrow> plugin_method \<Rightarrow> string \<Rightarrow> string option" where
  "undecodable sdk AuthParse request = error_text (hs_dec_auth_parse sdk request)"
| "undecodable sdk AuthLoginStart request = error_text (hs_dec_login_start sdk request)"
| "undecodable sdk AuthLoginPoll request = error_text (hs_dec_login_poll sdk request)"
| "undecodable sdk AuthRefresh request = error_text (hs_dec_refresh sdk request)"
| "undecodable sdk ModelStatic request = error_text (hs_dec_static sdk request)"
| "undecodable sdk ModelForAuth request = error_text (hs_dec_for_auth sdk request)"
| "undecodable sdk ExecutorExecute request = error_text (hs_dec_executor sdk request)"
| "undecodable sdk ExecutorExecuteStream request = error_text (hs_dec_executor sdk request)"
| "undecodable sdk ExecutorCountTokens request = error_text (hs_dec_executor sdk request)"
| "undecodable sdk m request = None"

lemmas handlers = handle_auth_parse_def handle_auth_login_start_def handle_auth_login_poll_def handle_auth_refresh_def
  handle_model_static_def handle_model_for_auth_def handle_executor_execute_def handle_executor_execute_stream_def
  handle_executor_count_tokens_def

lemma error_text_Some: "error_text r = Some e \<Longrightarrow> r = Err e"
  by (cases r) auto

definition invalid_request :: "string \<Rightarrow> string \<Rightarrow> string" where
  "invalid_request what e = error_envelope ''invalid_request'' (''failed to decode '' @ what @ '' request: '' @ e)"

lemma handle_undecodable: "handle (Err e) name errCode enc f s en = (Ok (invalid_request name e), s, en)"
  by (simp add: handle_def invalid_request_def)

lemma undecodable_changes_nothing:
  assumes "List.find (\<lambda>m. hs_name sdk m = name) plugin_methods = Some m" and "undecodable sdk m request = Some e"
  shows "\<exists>what. handle_method sdk env name request s en = (Ok (invalid_request what e), s, en)"
  using assms
  by (cases m) (auto simp: handle_method_def handlers handle_undecodable dest!: error_text_Some)

text \<open>An answer of the plugin: the two shapes of an envelope.\<close>

definition is_envelope :: "string \<Rightarrow> bool" where
  "is_envelope raw = ((\<exists>v. raw = json_print (jobj [(''ok'', JBool True), (''result'', v)]))
     \<or> (\<exists>c m. raw = error_envelope c m))"

definition encoders_total :: "host_sdk \<Rightarrow> bool" where
  "encoders_total sdk = ((\<forall>x. is_ok (hs_enc_metadata sdk x)) \<and> (\<forall>x. is_ok (hs_enc_auth_parse sdk x))
     \<and> (\<forall>x. is_ok (hs_enc_login_start sdk x)) \<and> (\<forall>x. is_ok (hs_enc_login_poll sdk x))
     \<and> (\<forall>x. is_ok (hs_enc_refresh sdk x)) \<and> (\<forall>x. is_ok (hs_enc_registration sdk x))
     \<and> (\<forall>x. is_ok (hs_enc_models sdk x)) \<and> (\<forall>x. is_ok (hs_enc_executor sdk x)))"

definition answered :: "string go_result \<Rightarrow> bool" where
  "answered r = ((\<exists>raw. r = Ok raw \<and> is_envelope raw) \<or> is_panic r)"

lemma answered_error: "answered (Ok (error_envelope c m))" "answered (Ok (not_implemented_envelope name))"
  by (auto simp: answered_def is_envelope_def not_implemented_envelope_def)

lemma answered_result: "is_ok r \<Longrightarrow> answered (ok_envelope r)"
  by (auto simp: is_ok_iff ok_envelope_def answered_def is_envelope_def)

lemma answered_handle:
  assumes "\<And>x. is_ok (enc x)" shows "answered (fst (handle d name errCode enc f s en))"
proof (cases d)
  case (Ok req)
  obtain r s' en' where f: "f req s en = (r, s', en')" by (metis prod_cases3)
  show ?thesis
    using Ok f answered_result assms answered_error by (cases r) (auto simp: handle_def answered_def)
qed (auto simp: handle_def answered_error answered_def is_envelope_def)

lemma answered_method:
  assumes "encoders_total sdk" shows "answered (fst (handle_method sdk env name request s en))"
proof (cases "List.find (\<lambda>m. hs_name sdk m = name) plugin_methods")
  case None
  then show ?thesis by (simp add: handle_method_def answered_error)
next
  case (Some m)
  note enc = assms [unfolded encoders_total_def]
  have "is_ok (current_registration sdk v)" for v
    using enc by (auto simp: current_registration_def is_ok_iff) (metis go_bind.simps(1))
  then show ?thesis
    unfolding handle_method_def Some
    by (cases m) (simp_all add: handlers enc answered_handle answered_result answered_error)
qed

text \<open>
  What the plugin asks of its surroundings when it is not to panic: the SDK's decoders, the discovery call and the refreshes of other
  calls return.
\<close>

definition outside_returns :: "host_sdk \<Rightarrow> plugin_env \<Rightarrow> bool" where
  "outside_returns sdk env = ((\<forall>q. \<not> is_panic (hs_dec_auth_parse sdk q)) \<and> (\<forall>q. \<not> is_panic (hs_dec_login_start sdk q))
     \<and> (\<forall>q. \<not> is_panic (hs_dec_login_poll sdk q)) \<and> (\<forall>q. \<not> is_panic (hs_dec_refresh sdk q))
     \<and> (\<forall>q. \<not> is_panic (hs_dec_static sdk q)) \<and> (\<forall>q. \<not> is_panic (hs_dec_for_auth sdk q))
     \<and> (\<forall>q. \<not> is_panic (hs_dec_executor sdk q)) \<and> (\<forall>rq. \<not> is_panic (pe_models env rq))
     \<and> (\<forall>i r. pe_joined env i = Some r \<longrightarrow> \<not> is_panic r))"

lemma no_panic_handle:
  assumes "\<not> is_panic d" and "\<And>req. \<not> is_panic (fst (f req s en))" and "\<And>x. is_ok (enc x)"
  shows "\<not> is_panic (fst (handle d name errCode enc f s en))"
proof (cases d)
  case (Ok req)
  obtain r s' en' where f: "f req s en = (r, s', en')" by (metis prod_cases3)
  have "\<not> is_panic (ok_envelope (enc x))" for x using assms(3) [of x] by (auto simp: is_ok_iff ok_envelope_def)
  then show ?thesis using Ok f assms(2) [of req] by (cases r) (auto simp: handle_def)
qed (use assms(1) in \<open>auto simp: handle_def\<close>)

declare parse_token_storage_no_panic [simp]

lemma refresh_joined_no_panic: "(\<And>r. joined i = Some r \<Longrightarrow> \<not> is_panic r) \<Longrightarrow> \<not> is_panic (refresh huge serve now joined i token)"
  by (auto simp: refresh_def refresh_no_panic split: option.split)

lemma provider_no_panic:
  "\<not> is_panic (fst (provider_start_login env p en))"
  "(\<And>i r. joined i = Some r \<Longrightarrow> \<not> is_panic r) \<Longrightarrow> \<not> is_panic (fst (refresh_auth env serve joined req p))"
  "(\<And>rq. \<not> is_panic (models rq)) \<Longrightarrow> \<not> is_panic (fst (models_for_auth models i c en))"
proof -
  obtain r en' where r: "rand_read 96 en = (r, en')" by (metis prod.collapse)
  then have "\<not> is_panic r" by (rule rand_read_no_panic)
  then show "\<not> is_panic (fst (provider_start_login env p en))"
    using r by (cases r) (simp_all add: provider_start_login_def start_login_def generate_auth_params_def generate_pkce_def Let_def)
next
  assume j: "\<And>i r. joined i = Some r \<Longrightarrow> \<not> is_panic r"
  have r: "refresh huge serve now joined i token \<noteq> Panic e" for huge now i token e
    using refresh_joined_no_panic [of joined i huge serve now token] j by (metis is_panic.simps(3))
  have "parse_token_storage raw \<noteq> Panic e" for raw e by (metis parse_token_storage_no_panic is_panic.simps(3))
  then show "\<not> is_panic (fst (refresh_auth env serve joined req p))"
    using r by (auto simp: refresh_auth_def Let_def split: go_result.split)
next
  assume "\<And>rq. \<not> is_panic (models rq)"
  then show "\<not> is_panic (fst (models_for_auth models i c en))"
    by (auto simp: models_for_auth_def is_panic_go_bind split: prod.split option.split)
qed

lemma handlers_no_panic:
  assumes "encoders_total sdk" and "outside_returns sdk env"
  shows "\<not> is_panic (fst (handle_auth_parse sdk env q s en))" "\<not> is_panic (fst (handle_auth_login_start sdk env q s en))"
    "\<not> is_panic (fst (handle_auth_login_poll sdk env q s en))" "\<not> is_panic (fst (handle_auth_refresh sdk env q s en))"
    "\<not> is_panic (fst (handle_model_static sdk env q s en))" "\<not> is_panic (fst (handle_model_for_auth sdk env q s en))"
    "\<not> is_panic (fst (handle_executor_count_tokens sdk env q s en))"
proof -
  note facts = assms [unfolded encoders_total_def outside_returns_def]
  show "\<not> is_panic (fst (handle_auth_parse sdk env q s en))" "\<not> is_panic (fst (handle_auth_login_poll sdk env q s en))"
    "\<not> is_panic (fst (handle_model_static sdk env q s en))" "\<not> is_panic (fst (handle_executor_count_tokens sdk env q s en))"
    unfolding handlers by (rule no_panic_handle; use facts in \<open>simp add: static_models_def count_tokens_def split: prod.split\<close>)+
  show "\<not> is_panic (fst (handle_auth_login_start sdk env q s en))"
    unfolding handlers using facts provider_no_panic(1)
    by (intro no_panic_handle) (auto simp: on_provider_def Let_def split: prod.split, metis fst_conv)
  show "\<not> is_panic (fst (handle_auth_refresh sdk env q s en))"
    unfolding handlers using facts provider_no_panic(2) [of "pe_joined env"]
    by (intro no_panic_handle) (auto simp: on_provider_def Let_def split: prod.split, metis fst_conv)
  show "\<not> is_panic (fst (handle_model_for_auth sdk env q s en))"
    unfolding handlers using facts provider_no_panic(3) [of "pe_models env"]
    by (intro no_panic_handle) (auto simp: Let_def split: prod.split, metis fst_conv)
qed

lemma only_runs_panic:
  assumes "encoders_total sdk" and "outside_returns sdk env" and "is_panic (fst (handle_method sdk env name request s en))"
  shows "name = hs_name sdk ExecutorExecute \<or> name = hs_name sdk ExecutorExecuteStream"
proof (cases "List.find (\<lambda>m. hs_name sdk m = name) plugin_methods")
  case None
  then show ?thesis using assms(3) by (simp add: handle_method_def)
next
  case (Some m)
  have name: "name = hs_name sdk m" using Some by (auto simp: find_Some_iff)
  have ok: "is_ok r \<Longrightarrow> \<not> is_panic (ok_envelope r)" for r by (cases r) (simp_all add: ok_envelope_def)
  have "is_ok (current_registration sdk v)" "is_ok (hs_enc_registration sdk i)" for v i
    using assms(1) by (auto simp: encoders_total_def current_registration_def is_ok_iff) (metis go_bind.simps(1))
  then show ?thesis using assms(3) handlers_no_panic [OF assms(1,2)] ok name
    unfolding handle_method_def Some by (cases m) simp_all
qed

text \<open>
  C18: A call that does not panic is answered: as long as the SDK's responses marshal, \<open>HandleMethod\<close> returns no Go error, and
  either it panics or its answer is an envelope with a result or with an error; and as long as the surroundings of the plugin return,
  only a run (\<open>executor.execute\<close> and \<open>executor.execute_stream\<close>) can panic. A call under an unknown name or
  with a request that does not decode is answered by an error that says so, and changes nothing.
\<close>

theorem every_call_is_answered:
  assumes "encoders_total sdk" and "handle_method sdk env name request s en = (r, s', en')"
  shows "(is_panic r \<or> (\<exists>raw. r = Ok raw \<and> is_envelope raw))
    \<and> (is_panic r \<and> outside_returns sdk env \<longrightarrow> name = hs_name sdk ExecutorExecute \<or> name = hs_name sdk ExecutorExecuteStream)
    \<and> (name \<notin> hs_name sdk ` set plugin_methods \<longrightarrow>
         r = Ok (error_envelope ''unknown_method'' (''unknown method: '' @ name)) \<and> s' = s)
    \<and> (\<forall>m e. List.find (\<lambda>m. hs_name sdk m = name) plugin_methods = Some m \<and> undecodable sdk m request = Some e \<longrightarrow>
         s' = s \<and> (\<exists>what. r = Ok (invalid_request what e)))"
proof (intro conjI)
  show "is_panic r \<or> (\<exists>raw. r = Ok raw \<and> is_envelope raw)"
    using answered_method [OF assms(1), of env name request s en] assms(2) by (auto simp: answered_def)
  show "is_panic r \<and> outside_returns sdk env \<longrightarrow> name = hs_name sdk ExecutorExecute \<or> name = hs_name sdk ExecutorExecuteStream"
    using only_runs_panic [OF assms(1), of env name request s en] assms(2) by auto
  show "name \<notin> hs_name sdk ` set plugin_methods \<longrightarrow>
      r = Ok (error_envelope ''unknown_method'' (''unknown method: '' @ name)) \<and> s' = s"
  proof
    assume "name \<notin> hs_name sdk ` set plugin_methods"
    then have "List.find (\<lambda>m. hs_name sdk m = name) plugin_methods = None"
      by (auto simp: find_None_iff)
    then show "r = Ok (error_envelope ''unknown_method'' (''unknown method: '' @ name)) \<and> s' = s"
      using assms(2) by (simp add: handle_method_def)
  qed
  show "\<forall>m e. List.find (\<lambda>m. hs_name sdk m = name) plugin_methods = Some m \<and> undecodable sdk m request = Some e \<longrightarrow>
      s' = s \<and> (\<exists>what. r = Ok (invalid_request what e))"
    using undecodable_changes_nothing [of sdk name _ request _ env s en] assms(2) by fastforce
qed

subsection \<open>A plugin to try calls on\<close>

fun example_name :: "plugin_method \<Rightarrow> string" where
  "example_name PluginRegister = ''a''" | "example_name PluginReconfigure = ''b''" | "example_name AuthIdentifier = ''c''"
| "example_name AuthParse = ''d''" | "example_name AuthLoginStart = ''e''" | "example_name AuthLoginPoll = ''f''"
| "example_name AuthRefresh = ''g''" | "example_name ModelRegister = ''h''" | "example_name ModelStatic = ''i''"
| "example_name ModelForAuth = ''j''" | "example_name ExecutorIdentifier = ''k''" | "example_name ExecutorExecute = ''l''"
| "example_name ExecutorExecuteStream = ''m''" | "example_name ExecutorCountTokens = ''n''" | "example_name ExecutorHTTPRequest = ''o''"

definition example_sdk :: host_sdk where
  "example_sdk = \<lparr>hs_name = example_name, hs_schema_version = 1, hs_model_scope_both = ''both'',
     hs_dec_auth_parse = (\<lambda>q. Err ''bad''), hs_dec_login_start = (\<lambda>q. Ok ()), hs_dec_login_poll = (\<lambda>q. Ok q),
     hs_dec_refresh = (\<lambda>q. Ok example_refresh), hs_dec_static = (\<lambda>q. Ok ()), hs_dec_for_auth = (\<lambda>q. Ok q),
     hs_dec_executor = (\<lambda>q. Ok \<lparr>er_auth_id = q, er_model = ''m'', er_payload = []\<rparr>),
     hs_enc_metadata = (\<lambda>x. Ok JNull), hs_enc_auth_parse = (\<lambda>x. Ok JNull), hs_enc_login_start = (\<lambda>x. Ok JNull),
     hs_enc_login_poll = (\<lambda>x. Ok JNull), hs_enc_refresh = (\<lambda>x. Ok JNull), hs_enc_registration = (\<lambda>x. Ok JNull),
     hs_enc_models = (\<lambda>x. Ok JNull), hs_enc_executor = (\<lambda>x. Ok JNull), hs_yaml = (\<lambda>y. Ok (of_bytes y))\<rparr>"

definition example_plugin_env :: plugin_env where
  "example_plugin_env = \<lparr>pe_auth = example_auth_env, pe_poll = (\<lambda>url. NoResponse ''x''), pe_refresh = (\<lambda>rq. NoResponse ''reset''),
     pe_joined = (\<lambda>i. None), pe_models = (\<lambda>rq. Ok []), pe_run = example_env, pe_version = ''0.2.0''\<rparr>"

lemma example_names: "inj example_name"
proof (rule injI)
  fix a b assume "example_name a = example_name b"
  then show "a = b" by (cases a; cases b) simp_all
qed

lemma plugin_methods_all: "m \<in> set plugin_methods"
  by (cases m) (simp_all add: plugin_methods_def)

lemma find_named: "inj f \<Longrightarrow> m \<in> set ms \<Longrightarrow> List.find (\<lambda>k. f k = f m) ms = Some m"
  by (induction ms) (auto simp: inj_eq)

lemma find_method: "inj (hs_name sdk) \<Longrightarrow> List.find (\<lambda>k. hs_name sdk k = hs_name sdk m) plugin_methods = Some m"
  by (rule find_named [OF _ plugin_methods_all])

lemma every_call_is_answered_witness:
  "(\<exists>what. fst (handle_method example_sdk example_plugin_env ''d'' [] initial_plugin zero_entropy) = Ok (invalid_request what ''bad''))
   \<and> \<not> is_panic (fst (handle_method example_sdk example_plugin_env ''g'' [] initial_plugin zero_entropy))"
proof -
  obtain r s' en' where r: "handle_method example_sdk example_plugin_env ''d'' [] initial_plugin zero_entropy = (r, s', en')"
    by (metis prod_cases3)
  obtain r2 s2 en2 where r2: "handle_method example_sdk example_plugin_env ''g'' [] initial_plugin zero_entropy = (r2, s2, en2)"
    by (metis prod_cases3)
  have tot: "encoders_total example_sdk" by (simp add: encoders_total_def example_sdk_def)
  moreover have "List.find (\<lambda>m. hs_name example_sdk m = ''d'') plugin_methods = Some AuthParse"
    by (simp add: example_sdk_def plugin_methods_def)
  moreover have "undecodable example_sdk AuthParse [] = Some ''bad''" by (simp add: example_sdk_def)
  ultimately have "\<exists>what. r = Ok (invalid_request what ''bad'')" using every_call_is_answered [OF _ r] by fastforce
  moreover have "outside_returns example_sdk example_plugin_env"
    by (simp add: outside_returns_def example_sdk_def example_plugin_env_def)
  then have "\<not> is_panic r2" using every_call_is_answered [OF tot r2] by (auto simp: example_sdk_def)
  ultimately show ?thesis using r r2 by simp
qed

subsection \<open>Configuration\<close>

definition lifecycle_request :: "bytes \<Rightarrow> nat \<Rightarrow> string" where
  "lifecycle_request y n = json_print (jobj [(''config_yaml'', bytes_json y), (''schema_version'', jnat n)])"

lemma lifecycle_keys: "plain_key ''config_yaml''" "plain_key ''schema_version''"
  by code_simp+

lemma decode_lifecycle_request:
  assumes "n < 2 ^ 32"
  shows "go_bind (json_unmarshal (lifecycle_request y n)) dec_lifecycle_request = Ok y"
proof -
  let ?v = "jobj [(''config_yaml'', bytes_json y), (''schema_version'', jnat n)]"
  have "json_ok max_nesting ?v" using json_ok_jobj [of "max_nesting - 1"] by (simp add: max_nesting_def bytes_json_def)
  then have "json_unmarshal (lifecycle_request y n) = Ok (json_norm ?v)" unfolding lifecycle_request_def by (rule json_unmarshal_print)
  moreover have "dec_uint (2 ^ 32) cur (jnat n) = Ok n" for cur
    using nat_str_digits [of n] assms by (simp add: jnat_def list_all_iff digits_val_nat_str)
  ultimately show ?thesis
    using lifecycle_keys dec_bytes_json
    by (simp add: dec_lifecycle_request_def decode_simps bytes_json_def)
qed

text \<open>
  C28: The configuration takes effect: registering or reconfiguring with a configuration sets the version that every
  later request through the client carries, an empty value brings the compiled-in one back, a configuration
  that does not parse changes nothing, and nothing else of the plugin changes either way.
\<close>

theorem reconfigure_takes_effect:
  assumes "inj (hs_name sdk)" and "m \<in> {PluginRegister, PluginReconfigure}" and "y \<noteq> []" and "n < 2 ^ 32"
    and "handle_method sdk env (hs_name sdk m) (lifecycle_request y n) s en = (r, s', en')"
  shows "s' = (case hs_yaml sdk y of Ok v \<Rightarrow> s\<lparr>ps_client := (ps_client s)\<lparr>ag_client_version := v\<rparr>\<rparr> | _ \<Rightarrow> s)
    \<and> (\<forall>v. hs_yaml sdk y = Ok v \<longrightarrow>
         header_get (hr_headers (fst (static_header_round_trip (ps_client s') req en2))) ''x-cursor-client-version'' =
           (if v = [] then default_client_version else v))"
proof -
  have "lifecycle_request y n \<noteq> []" by (simp add: lifecycle_request_def jobj_def)
  then have s': "s' = apply_lifecycle_config sdk (lifecycle_request y n) s"
    and app: "apply_lifecycle_config_to sdk (lifecycle_request y n) c =
      (case hs_yaml sdk y of Ok v \<Rightarrow> set_client_version v c | _ \<Rightarrow> c)" for c
    using assms find_method [OF assms(1), of m] decode_lifecycle_request [OF assms(4), of y]
    by (auto simp: handle_method_def apply_lifecycle_config_to_def)
  have "s' = (case hs_yaml sdk y of Ok v \<Rightarrow> s\<lparr>ps_client := (ps_client s)\<lparr>ag_client_version := v\<rparr>\<rparr> | _ \<Rightarrow> s)"
    by (cases "hs_yaml sdk y") (simp_all add: s' apply_lifecycle_config_def app set_client_version_def)
  then show ?thesis
    by (auto simp: static_header_round_trip_def Let_def split: prod.splits)
qed

lemma reconfigure_takes_effect_witness:
  "ag_client_version (ps_client (fst (snd (handle_method example_sdk example_plugin_env ''b'' (lifecycle_request (to_bytes ''cli-9'') 1)
      initial_plugin zero_entropy)))) = ''cli-9''"
proof -
  obtain r s' en' where r: "handle_method example_sdk example_plugin_env (hs_name example_sdk PluginReconfigure)
      (lifecycle_request (to_bytes ''cli-9'') 1) initial_plugin zero_entropy = (r, s', en')" by (metis prod_cases3)
  have "inj (hs_name example_sdk)" and y: "hs_yaml example_sdk (to_bytes ''cli-9'') = Ok ''cli-9''"
    by (simp_all add: example_sdk_def example_names)
  then have "s' = initial_plugin\<lparr>ps_client := (ps_client initial_plugin)\<lparr>ag_client_version := ''cli-9''\<rparr>\<rparr>"
    using reconfigure_takes_effect [OF _ _ _ _ r] by simp
  then show ?thesis using r by (simp add: example_sdk_def)
qed

subsection \<open>Accounts across the components\<close>

lemma on_provider_accounts:
  assumes "on_provider f s = (r, s')" and "f \<lparr>pv_poller = ps_poller s, pv_accounts = ag_accounts (ps_client s)\<rparr> = (r1, p)"
  shows "r = r1 \<and> ag_accounts (ps_client s') = pv_accounts p \<and> ag_conversations (ps_client s') = ag_conversations (ps_client s)
    \<and> ag_client_version (ps_client s') = ag_client_version (ps_client s) \<and> ps_poller s' = pv_poller p"
  using assms by (auto simp: on_provider_def)

lemma dec_field_no_panic: "(\<And>c v. \<not> is_panic (dec c v)) \<Longrightarrow> \<not> is_panic (dec_field n dec cur ms)"
  by (induction n dec cur ms rule: dec_field.induct) (auto simp: is_panic_go_bind)

lemma dec_slice_no_panic: "(\<And>v. \<not> is_panic (f v)) \<Longrightarrow> \<not> is_panic (dec_slice f cur v)"
  by (cases v) (simp_all add: go_mapM_no_panic)

lemma dec_leaf_no_panic: "\<not> is_panic (dec_string cur v)" "\<not> is_panic (dec_bool b v)" "\<not> is_panic (dec_raw r v)"
  by (cases v; simp add: dec_raw_def)+

lemmas no_panic_intros = dec_struct_no_panic dec_field_no_panic dec_slice_no_panic dec_leaf_no_panic

lemma decode_chat_content_no_panic: "\<not> is_panic (decode_chat_content c)"
proof -
  have "\<not> is_panic (dec_part_text v)" for v
    unfolding dec_part_text_def by (rule dec_struct_no_panic) (simp add: is_panic_go_bind no_panic_intros)
  then show ?thesis
    by (cases c rule: decode_chat_content.cases) (simp_all add: is_panic_go_bind go_mapM_no_panic)
qed

lemma dec_chat_request_no_panic: "\<not> is_panic (dec_chat_request v)"
proof -
  note np = is_panic_go_bind no_panic_intros
  have f: "\<not> is_panic (dec_tool_call_func cur v)" for cur v
    unfolding dec_tool_call_func_def by (rule dec_struct_no_panic) (simp add: np)
  have c: "\<not> is_panic (dec_tool_call v)" for v
    unfolding dec_tool_call_def by (rule dec_struct_no_panic) (simp add: np f)
  have m: "\<not> is_panic (chat_message_unmarshal_json v)" for v
    unfolding chat_message_unmarshal_json_def
    by (simp add: np c decode_chat_content_no_panic split: prod.split)
  have df: "\<not> is_panic (dec_tool_definition_func cur v)" for cur v
    unfolding dec_tool_definition_func_def by (rule dec_struct_no_panic) (simp add: np)
  have d: "\<not> is_panic (dec_tool_definition v)" for v
    unfolding dec_tool_definition_def by (rule dec_struct_no_panic) (simp add: np df)
  show ?thesis
    unfolding dec_chat_request_def by (rule dec_struct_no_panic) (simp add: np m d)
qed

lemma execute_blocked:
  assumes "snd (account_get (ag_accounts c) (er_auth_id req)) = Some reason"
  shows "\<exists>e. execute env req c en = (Err e, c, en)"
proof -
  have "\<not> is_panic (go_bind (json_unmarshal (er_payload req)) dec_chat_request)"
    by (simp add: is_panic_go_bind dec_chat_request_no_panic)
  then show ?thesis
    using assms by (cases "go_bind (json_unmarshal (er_payload req)) dec_chat_request")
       (auto simp: execute_def executor_run_def Let_def split: prod.splits)
qed

lemma models_blocked:
  "snd (account_get (ag_accounts c) i) = Some reason \<Longrightarrow>
     models_for_auth serve i c en = (Err (''cursor: model discovery requires an active account: '' @ reason), en)"
  by (cases "account_get (ag_accounts c) i") (simp add: models_for_auth_def)

text \<open>
  C11: One account store for all components: once a refresh of an account has failed, whatever the network would answer, a
  run on that account and a discovery of its models fail too, both with an error envelope, and they leave the
  plugin as the refresh left it; the refresh has changed nothing but that account.
\<close>

theorem failed_refresh_blocks_components:
  assumes "inj (hs_name sdk)"
    and "hs_dec_refresh sdk q1 = Ok rq" and "hs_dec_executor sdk q2 = Ok ex" and "hs_dec_for_auth sdk q3 = Ok (arq_auth_id rq)"
    and "er_auth_id ex = arq_auth_id rq"
    and "fst (refresh_auth (pe_auth env) (pe_refresh env) (pe_joined env) rq
          \<lparr>pv_poller = ps_poller s, pv_accounts = ag_accounts (ps_client s)\<rparr>) = Err e"
  shows "\<exists>e2 e3 s'. run_calls sdk [(env, hs_name sdk AuthRefresh, q1), (env2, hs_name sdk ExecutorExecute, q2),
        (env3, hs_name sdk ModelForAuth, q3)] s en =
      ([Ok (error_envelope ''auth_refresh_failed'' e), Ok (error_envelope ''executor_execute_failed'' e2),
        Ok (error_envelope ''model_for_auth_failed'' e3)], s', en)
    \<and> ps_poller s' = ps_poller s \<and> ag_conversations (ps_client s') = ag_conversations (ps_client s)
    \<and> (\<forall>j. j \<noteq> arq_auth_id rq \<longrightarrow> ag_accounts (ps_client s') j = ag_accounts (ps_client s) j)"
proof -
  let ?p = "\<lparr>pv_poller = ps_poller s, pv_accounts = ag_accounts (ps_client s)\<rparr>"
  obtain p where p: "refresh_auth (pe_auth env) (pe_refresh env) (pe_joined env) rq ?p = (Err e, p)"
    using assms(6) by (metis prod.collapse)
  from refresh_failed [OF p] obtain reason where
    reason: "snd (account_get (pv_accounts p) (arq_auth_id rq)) = Some reason"
    and others: "\<forall>j. j \<noteq> arq_auth_id rq \<longrightarrow> pv_accounts p j = ag_accounts (ps_client s) j"
    and poller: "pv_poller p = ps_poller s" by auto
  define s1 where "s1 = s\<lparr>ps_poller := pv_poller p, ps_client := (ps_client s)\<lparr>ag_accounts := pv_accounts p\<rparr>\<rparr>"
  have c1: "handle_method sdk env (hs_name sdk AuthRefresh) q1 s en = (Ok (error_envelope ''auth_refresh_failed'' e), s1, en)"
    using find_method [OF assms(1), of AuthRefresh] assms(2) p
    by (simp add: handle_method_def handle_auth_refresh_def handle_def on_provider_def s1_def)
  have acc: "snd (account_get (ag_accounts (ps_client s1)) (er_auth_id ex)) = Some reason"
    using reason assms(5) by (simp add: s1_def)
  obtain e2 where "execute (pe_run env2) ex (ps_client s1) en = (Err e2, ps_client s1, en)"
    using execute_blocked [OF acc] by blast
  then have c2: "handle_method sdk env2 (hs_name sdk ExecutorExecute) q2 s1 en = (Ok (error_envelope ''executor_execute_failed'' e2), s1, en)"
    using find_method [OF assms(1), of ExecutorExecute] assms(3)
    by (simp add: handle_method_def handle_executor_execute_def handle_def)
  have c3: "handle_method sdk env3 (hs_name sdk ModelForAuth) q3 s1 en = (Ok (error_envelope ''model_for_auth_failed''
      (''cursor: model discovery requires an active account: '' @ reason)), s1, en)"
    using find_method [OF assms(1), of ModelForAuth] assms(4) models_blocked [of "ps_client s1" "arq_auth_id rq" reason] acc assms(5)
    by (simp add: handle_method_def handle_model_for_auth_def handle_def)
  have "run_calls sdk [(env, hs_name sdk AuthRefresh, q1), (env2, hs_name sdk ExecutorExecute, q2),
        (env3, hs_name sdk ModelForAuth, q3)] s en =
      ([Ok (error_envelope ''auth_refresh_failed'' e), Ok (error_envelope ''executor_execute_failed'' e2),
        Ok (error_envelope ''model_for_auth_failed'' (''cursor: model discovery requires an active account: '' @ reason))], s1, en)"
    by (simp add: c1 c2 c3)
  moreover have "ps_poller s1 = ps_poller s" "ag_conversations (ps_client s1) = ag_conversations (ps_client s)"
    "\<forall>j. j \<noteq> arq_auth_id rq \<longrightarrow> ag_accounts (ps_client s1) j = ag_accounts (ps_client s) j"
    using others poller by (simp_all add: s1_def)
  ultimately show ?thesis by blast
qed

lemma failed_refresh_blocks_components_witness:
  "\<exists>e1 e2 e3 s'. run_calls example_sdk [(example_plugin_env, ''g'', []), (example_plugin_env, ''l'', ''cursor-0''),
        (example_plugin_env, ''j'', ''cursor-0'')] initial_plugin zero_entropy =
      ([Ok (error_envelope ''auth_refresh_failed'' e1), Ok (error_envelope ''executor_execute_failed'' e2),
        Ok (error_envelope ''model_for_auth_failed'' e3)], s', zero_entropy)"
proof -
  have names: "inj (hs_name example_sdk)" "hs_name example_sdk AuthRefresh = ''g''" "hs_name example_sdk ExecutorExecute = ''l''"
    "hs_name example_sdk ModelForAuth = ''j''" by (simp_all add: example_sdk_def example_names)
  have dec: "hs_dec_refresh example_sdk [] = Ok example_refresh" "hs_dec_for_auth example_sdk ''cursor-0'' = Ok (arq_auth_id example_refresh)"
    "hs_dec_executor example_sdk ''cursor-0'' = Ok \<lparr>er_auth_id = ''cursor-0'', er_model = ''m'', er_payload = []\<rparr>"
    by (simp_all add: example_sdk_def example_refresh_def)
  obtain e where e: "fst (refresh_auth (pe_auth example_plugin_env) (pe_refresh example_plugin_env) (pe_joined example_plugin_env) example_refresh
      \<lparr>pv_poller = ps_poller initial_plugin, pv_accounts = ag_accounts (ps_client initial_plugin)\<rparr>) = Err e"
    by (simp add: example_plugin_env_def refresh_auth_def example_refresh_parses refresh_def refresh_single_flight_def Let_def)
  show ?thesis
    using failed_refresh_blocks_components [OF names(1) dec(1,3,2) _ e, of example_plugin_env example_plugin_env zero_entropy]
    unfolding names by (auto simp: example_refresh_def)
qed

subsection \<open>Whose token a run uses\<close>

lemma run_request_token: "header_get (hr_headers (run_http_request url tok v i)) ''authorization'' = ''Bearer '' @ tok"
  by (simp add: run_http_request_def header_get_def)

lemma transport_keeps_token:
  "header_get (hr_headers (fst (static_header_round_trip c req en))) ''authorization'' = header_get (hr_headers req) ''authorization''"
  by (auto simp: static_header_round_trip_def Let_def split: prod.split)

lemma run_once_token:
  assumes "\<And>rq. header_get (hr_headers rq) ''authorization'' = ''Bearer '' @ tok \<Longrightarrow> tr rq = tr' rq"
  shows "run_cursor_stream_once pl tr fate v url tok rr blobs en = run_cursor_stream_once pl tr' fate v url tok rr blobs en"
proof -
  have "tr (run_http_request url tok v i) = tr' (run_http_request url tok v i)" for i
    using assms run_request_token by blast
  then show ?thesis unfolding run_cursor_stream_once_def by (simp only:)
qed

lemma stream_attempts_token:
  assumes "\<And>n rq. header_get (hr_headers rq) ''authorization'' = ''Bearer '' @ tok \<Longrightarrow> se_transport net n rq = tr n rq"
  shows "stream_attempts pl net v url tok rr left n prev blobs en =
    stream_attempts pl (net\<lparr>se_transport := tr\<rparr>) v url tok rr left n prev blobs en"
proof (induction left arbitrary: n prev blobs en)
  case (Suc left)
  have "run_cursor_stream_once pl (se_transport net n) f v url tok rr blobs en = run_cursor_stream_once pl (tr n) f v url tok rr blobs en" for f
    by (rule run_once_token) (rule assms)
  then show ?case by (simp add: Suc Let_def split: prod.split)
qed simp

text \<open>
  C14: A run of an account sends requests with that account's access token and no other: what the network would answer
  to a request with any other authorization has no influence on the run.
\<close>

theorem run_uses_own_token:
  assumes "account_get (ag_accounts c) (er_auth_id req) = (st, None)"
    and "\<And>n rq. header_get (hr_headers rq) ''authorization'' = ''Bearer '' @ as_access_token st \<Longrightarrow> se_transport (re_net env) n rq = tr n rq"
  shows "executor_run (env\<lparr>re_net := (re_net env)\<lparr>se_transport := tr\<rparr>\<rparr>) req c en = executor_run env req c en"
proof -
  let ?env = "env\<lparr>re_net := (re_net env)\<lparr>se_transport := tr\<rparr>\<rparr>" and ?tok = "as_access_token st"
  have net: "stream_attempts pl (client_net c' (re_net env)) v url ?tok rr left n prev blobs en2 =
      stream_attempts pl (client_net c' (re_net ?env)) v url ?tok rr left n prev blobs en2"
    for pl c' v url rr left n prev blobs en2
  proof -
    have "stream_attempts pl (client_net c' (re_net env)) v url ?tok rr left n prev blobs en2 =
      stream_attempts pl ((client_net c' (re_net env))\<lparr>se_transport := se_transport (client_net c' (re_net ?env))\<rparr>) v url ?tok rr left n prev blobs en2"
      by (rule stream_attempts_token) (simp add: client_net_def assms(2) transport_keeps_token)
    then show ?thesis by (simp add: client_net_def)
  qed
  have env: "re_lib ?env = re_lib env" "re_stored_at ?env = re_stored_at env" "re_aliases ?env = re_aliases env"
    "re_order ?env = re_order env" "re_acquired_at ?env = re_acquired_at env" by simp_all
  have fin: "finish_run ?env = finish_run env" by (intro ext) (simp only: finish_run_def env)
  have conv: "run_conversation ?env chatReq cid entry ?tok c' en1 = run_conversation env chatReq cid entry ?tok c' en1"
    for chatReq cid entry c' en1
    by (simp only: run_conversation_def run_cursor_stream_def fin env net)
  show ?thesis unfolding executor_run_def assms(1) Let_def by (simp only: env conv prod.case option.case)
qed

lemma run_uses_own_token_witness:
  "executor_run (example_env\<lparr>re_net := (re_net example_env)\<lparr>se_transport := \<lambda>n rq.
       if header_get (hr_headers rq) ''authorization'' = ''Bearer tok'' then Responded 200 example_body else TransportFailed ''stolen''\<rparr>\<rparr>)
     example_executor_request example_client zero_entropy = executor_run example_env example_executor_request example_client zero_entropy"
proof -
  obtain st where st: "account_get (ag_accounts example_client) (er_auth_id example_executor_request) = (st, None)"
    and tok: "as_access_token st = ''tok''"
    by (simp add: example_client_def example_executor_request_def new_agent_client_def account_set_def account_get_def Let_def
        status_active_def zero_account_def new_account_store_def)
  have "se_transport (re_net example_env) n rq = Responded 200 example_body" for n rq by (simp add: example_env_def)
  then show ?thesis by (intro run_uses_own_token [OF st]) (simp add: tok)
qed

subsection \<open>The chunks that cross the boundary\<close>

text \<open>How a host reads the payloads of an \<open>executor.execute_stream\<close> envelope.\<close>

definition dec_chunk :: "json \<Rightarrow> bytes go_result" where
  "dec_chunk = dec_struct (dec_field ''payload'' dec_bytes []) []"

definition dec_stream_result :: "bytes list \<Rightarrow> json \<Rightarrow> bytes list go_result" where
  "dec_stream_result = dec_struct (dec_field ''chunks'' (dec_slice dec_chunk) [])"

definition host_chunks :: "string \<Rightarrow> bytes list go_result" where
  "host_chunks raw = go_bind (json_unmarshal raw) (dec_struct (dec_field ''result'' dec_stream_result []) [])"

lemma stream_keys: "plain_key ''payload''" "plain_key ''chunks''" "plain_key ''result''" "plain_key ''ok''"
  by code_simp+

lemma dec_chunk_json: "dec_chunk (jobj [(''payload'', bytes_json b)]) = Ok b"
  using stream_keys dec_bytes_json by (simp add: dec_chunk_def decode_simps)

lemma dec_stream_result_json:
  "dec_stream_result [] (stream_result_json chunks) = Ok (map to_bytes (concat (map chunk_payload chunks)))"
proof -
  have "go_mapM dec_chunk (map (\<lambda>p. jobj [(''payload'', bytes_json (to_bytes p))]) ps) = Ok (map to_bytes ps)" for ps
    by (induction ps) (simp_all add: dec_chunk_json)
  then show ?thesis using stream_keys by (auto simp: dec_stream_result_def stream_result_json_def Let_def decode_simps)
qed

lemma stream_result_norm: "json_norm (stream_result_json chunks) = stream_result_json chunks"
  by (simp add: stream_result_json_def Let_def bytes_json_def comp_def)

lemma stream_result_ok: "json_ok (max_nesting - 1) (stream_result_json chunks)"
proof -
  obtain k where k: "max_nesting - 1 = Suc (Suc (Suc k))" by (simp add: max_nesting_def)
  show ?thesis unfolding k by (auto simp: stream_result_json_def Let_def json_ok_jobj bytes_json_def)
qed

text \<open>What a payload says of a chunk: the payload of the chunk itself, or a JSON object that spells its error out.\<close>

definition error_event :: "string \<Rightarrow> json" where
  "error_event e = jobj [(''error'', jobj [(''message'', jstr e), (''type'', jstr ''cursor_stream_error'')])]"

fun carries :: "stream_chunk \<Rightarrow> string \<Rightarrow> bool" where
  "carries (ChunkPayload payload) p = (p = payload)"
| "carries (ChunkErr e) p = (json_unmarshal p = Ok (error_event e))"

lemma stream_error_payload_reads: "json_unmarshal (stream_error_payload e) = Ok (error_event e)"
proof -
  have "json_ok (Suc (Suc k)) (error_event e)" for k by (auto simp: error_event_def json_ok_jobj)
  moreover have "max_nesting = Suc (Suc (max_nesting - 2))" by (simp add: max_nesting_def)
  ultimately have "json_ok max_nesting (error_event e)" by metis
  moreover have "stream_error_payload e = json_print (error_event e)" by (simp add: stream_error_payload_def error_event_def)
  ultimately show ?thesis by (simp add: json_unmarshal_print) (simp add: error_event_def)
qed

lemma chunk_payloads_carry:
  "list_all2 carries (filter (\<lambda>ch. ch \<noteq> ChunkPayload []) chunks) (concat (map chunk_payload chunks))"
proof (induction chunks)
  case (Cons ch chunks)
  then show ?case by (cases ch) (simp_all add: stream_error_payload_reads)
qed simp

text \<open>
  C13: Every chunk of a streaming run crosses the C boundary: the answer to \<open>executor.execute_stream\<close> decodes, as the host decodes
  it, to one payload for each chunk, in order (empty payloads are left out): the bytes of the chunk's payload, or, for a
  chunk that is an error, a JSON object with the error's text. A failed run is one such error and never an empty stream.
\<close>

theorem stream_chunks_cross_boundary:
  assumes "inj (hs_name sdk)" and "hs_dec_executor sdk q = Ok req"
    and "execute_stream (pe_run env) req (ps_client s) en = (Ok chunks, c', en')"
  shows "\<exists>raw ps. handle_method sdk env (hs_name sdk ExecutorExecuteStream) q s en = (Ok raw, s\<lparr>ps_client := c'\<rparr>, en')
    \<and> host_chunks raw = Ok (map to_bytes ps)
    \<and> list_all2 carries (filter (\<lambda>ch. ch \<noteq> ChunkPayload []) chunks) ps
    \<and> (\<forall>e. fst (executor_run (pe_run env) req (ps_client s) en) = Err e \<longrightarrow>
         (\<exists>p. ps = [p] \<and> json_unmarshal p = Ok (error_event e)))"
proof -
  let ?v = "jobj [(''ok'', JBool True), (''result'', stream_result_json chunks)]"
  have h: "handle_method sdk env (hs_name sdk ExecutorExecuteStream) q s en = (Ok (json_print ?v), s\<lparr>ps_client := c'\<rparr>, en')"
    using find_method [OF assms(1), of ExecutorExecuteStream] assms(2,3)
    by (simp add: handle_method_def handle_executor_execute_stream_def handle_def ok_envelope_def)
  have "json_ok max_nesting ?v" using json_ok_jobj [of "max_nesting - 1"] stream_result_ok by (simp add: max_nesting_def)
  then have "json_unmarshal (json_print ?v) = Ok ?v" by (simp add: json_unmarshal_print stream_result_norm)
  then have "host_chunks (json_print ?v) = Ok (map to_bytes (concat (map chunk_payload chunks)))"
    using stream_keys by (simp add: host_chunks_def decode_simps dec_stream_result_json)
  moreover have "chunks = [ChunkErr e]" if "fst (executor_run (pe_run env) req (ps_client s) en) = Err e" for e
    using assms(3) that by (auto simp: execute_stream_def split: prod.splits)
  ultimately show ?thesis using h chunk_payloads_carry [of chunks] stream_error_payload_reads
    by (intro exI [of _ "json_print ?v"] exI [of _ "concat (map chunk_payload chunks)"]) auto
qed

text \<open>A run that succeeds: both of its chunks arrive.\<close>

lemma example_stream_chunks:
  "\<exists>x y c' en'. execute_stream example_env example_executor_request example_client zero_entropy =
     (Ok [ChunkPayload x, ChunkPayload y], c', en') \<and> x \<noteq> [] \<and> y \<noteq> []"
proof -
  obtain resp c' en' where "executor_run example_env example_executor_request example_client zero_entropy = (Ok resp, c', en')"
    using example_executor_run by blast
  moreover have "json_print (chunk_json ch) \<noteq> []" for ch by (simp add: chunk_json_def Let_def jobj_def)
  ultimately show ?thesis by (simp add: execute_stream_def to_stream_chunks_def Let_def split: list.split)
qed

lemma stream_chunks_cross_boundary_witness:
  "\<exists>raw s' en' x y. handle_method (example_sdk\<lparr>hs_dec_executor := \<lambda>q. Ok example_executor_request\<rparr>)
       (example_plugin_env\<lparr>pe_run := example_env\<rparr>) ''m'' ''x'' (initial_plugin\<lparr>ps_client := example_client\<rparr>) zero_entropy = (Ok raw, s', en')
     \<and> fst (execute_stream example_env example_executor_request example_client zero_entropy) = Ok [ChunkPayload x, ChunkPayload y]
     \<and> x \<noteq> [] \<and> y \<noteq> [] \<and> host_chunks raw = Ok [to_bytes x, to_bytes y]"
proof -
  let ?sdk = "example_sdk\<lparr>hs_dec_executor := \<lambda>q. Ok example_executor_request\<rparr>"
  obtain x y c' en' where x: "execute_stream example_env example_executor_request example_client zero_entropy =
     (Ok [ChunkPayload x, ChunkPayload y], c', en')" "x \<noteq> []" "y \<noteq> []" using example_stream_chunks by blast
  have "inj (hs_name ?sdk)" "hs_dec_executor ?sdk ''x'' = Ok example_executor_request" "hs_name ?sdk ExecutorExecuteStream = ''m''"
    by (simp_all add: example_sdk_def example_names)
  then show ?thesis
    using stream_chunks_cross_boundary [of ?sdk "''x''" example_executor_request "example_plugin_env\<lparr>pe_run := example_env\<rparr>"
      "initial_plugin\<lparr>ps_client := example_client\<rparr>" zero_entropy] x by (fastforce simp: list_all2_Cons1)
qed

end
