(* ===== verification/Plugin_Invariant.thy ===== *)
theory Plugin_Invariant
  imports Dispatch_Laws
begin

section \<open>The invariant of the plugin's state\<close>

text \<open>
  What holds of the whole state between any two calls, whatever the host calls and whatever the servers answer: the
  conversation cache, the poller and the account store are well-formed together.
\<close>

subsection \<open>Well-formed states\<close>

text \<open>
  An attempt is stored under the UUID it polls with; an attempt in flight has had fewer than three network errors in a row,
  and an attempt that is over has no count left behind.
\<close>

definition poller_ok :: "poller \<Rightarrow> bool" where
  "poller_ok p = (\<forall>i. po_network_errors p i < max_consecutive_network_errors
     \<and> (po_network_errors p i = 0 \<or> pending_get (po_pending p) i \<noteq> None)
     \<and> (\<forall>q. pending_get (po_pending p) i = Some q \<longrightarrow> pl_cursor_uuid q = i))"

text \<open>An account is active or waits for a login.\<close>

definition accounts_ok :: "account_store \<Rightarrow> bool" where
  "accounts_ok s = (\<forall>i a. s i = Some a \<longrightarrow> as_status a \<in> {status_active, status_needs_reauth})"

definition plugin_ok :: "plugin_state \<Rightarrow> bool" where
  "plugin_ok s = (cache_ok (ag_conversations (ps_client s)) \<and> accounts_ok (ag_accounts (ps_client s)) \<and> poller_ok (ps_poller s))"

text \<open>What the plugin's invariant asks of the outside: maps are visited completely, and the clock runs after the epoch.\<close>

definition env_ok :: "plugin_env \<Rightarrow> bool" where
  "env_ok env = (valid_order (re_order (pe_run env)) \<and> 0 < re_acquired_at (pe_run env) \<and> 0 < re_stored_at (pe_run env))"

subsection \<open>The poller\<close>

lemma poller_ok_drop_attempt [inv_intros]: "poller_ok p \<Longrightarrow> poller_ok (drop_attempt i p)"
  by (auto simp: poller_ok_def drop_attempt_def clear_network_errors_def pending_delete_def pending_get_def)

lemma poller_ok_clear [inv_intros]: "poller_ok p \<Longrightarrow> poller_ok (clear_network_errors i p)"
  by (auto simp: poller_ok_def clear_network_errors_def)

lemma poller_ok_put:
  "poller_ok p \<Longrightarrow> pl_cursor_uuid q = i \<Longrightarrow> poller_ok (p\<lparr>po_pending := pending_put i q (po_pending p)\<rparr>)"
  by (simp add: poller_ok_def pending_put_def pending_get_def)

lemma poller_ok_start_login:
  "poller_ok p \<Longrightarrow> start_login now uuid p en = (r, p', en') \<Longrightarrow> poller_ok p'"
  by (auto simp: start_login_def poller_ok_put split: prod.splits go_result.splits)

lemma poller_ok_network_error:
  assumes "poller_ok p" and "pending_get (po_pending p) i \<noteq> None"
  shows "poller_ok (snd (handle_network_error i e p))"
  using assms
  by (auto simp: handle_network_error_eq poller_ok_def max_consecutive_network_errors_def drop_attempt_def clear_network_errors_def
      pending_delete_def pending_get_def)

lemma poller_ok_poll_end:
  assumes "poller_ok p" and "pending_get (po_pending p) i \<noteq> None"
  shows "poller_ok (snd (run_check i (poll_end reply) p))"
  using assms poller_ok_network_error [OF assms]
  by (auto simp: poll_end_def intro: inv_intros split: http_reply.split option.split go_result.split prod.split)

lemma poller_ok_poll: "poller_ok p \<Longrightarrow> poller_ok (snd (poll serve now i p))"
  using poller_ok_poll_end [of p i]
  by (auto simp: poll_def poll_begin_def intro: inv_intros split: option.splits)

subsection \<open>The account store\<close>

lemma accounts_ok_set [inv_intros]: "accounts_ok (pv_accounts p) \<Longrightarrow> accounts_ok (pv_accounts (provider_set env i a r e p))"
  by (auto simp: accounts_ok_def provider_set_def account_set_def status_active_def)

lemma accounts_ok_degrade [inv_intros]:
  "accounts_ok (pv_accounts p) \<Longrightarrow> accounts_ok (pv_accounts (provider_degrade env i status_needs_reauth m p))"
  by (auto simp: accounts_ok_def provider_degrade_def mark_degraded_def)

lemma provider_poller [simp]:
  "pv_poller (provider_set env i a r e p) = pv_poller p" "pv_poller (provider_degrade env i st m p) = pv_poller p"
  by (simp_all add: provider_set_def provider_degrade_def)

subsection \<open>The provider\<close>

definition provider_ok :: "provider \<Rightarrow> bool" where
  "provider_ok p = (accounts_ok (pv_accounts p) \<and> poller_ok (pv_poller p))"

lemma provider_ok_set [inv_intros]: "provider_ok p \<Longrightarrow> provider_ok (provider_set env i a r e p)"
  by (simp add: provider_ok_def inv_intros)

lemma provider_ok_degrade [inv_intros]: "provider_ok p \<Longrightarrow> provider_ok (provider_degrade env i status_needs_reauth m p)"
  by (simp add: provider_ok_def inv_intros)

lemma provider_ok_parse_auth: "provider_ok p \<Longrightarrow> provider_ok (snd (parse_auth env req p))"
  by (auto simp: parse_auth_def Let_def intro: inv_intros split: go_result.split)

lemma provider_ok_start_login: "provider_ok p \<Longrightarrow> provider_start_login env p en = (r, p', en') \<Longrightarrow> provider_ok p'"
  by (auto simp: provider_start_login_def provider_ok_def dest: poller_ok_start_login split: prod.splits)

lemma provider_ok_poll_login: "provider_ok p \<Longrightarrow> provider_ok (snd (poll_login env serve i p))"
  using poller_ok_poll [of "pv_poller p" serve "ae_now env" i]
  by (auto simp: poll_login_def Let_def provider_ok_def intro!: inv_intros split: prod.split)

lemma provider_ok_refresh_auth: "provider_ok p \<Longrightarrow> provider_ok (snd (refresh_auth env serve joined req p))"
  by (auto simp: refresh_auth_def Let_def intro: inv_intros split: go_result.split)

subsection \<open>Every call\<close>

lemma plugin_ok_on_provider:
  assumes "plugin_ok s" and "\<And>p. provider_ok p \<Longrightarrow> provider_ok (snd (f p))"
  shows "plugin_ok (snd (on_provider f s))"
  using assms(1) assms(2) [of "\<lparr>pv_poller = ps_poller s, pv_accounts = ag_accounts (ps_client s)\<rparr>"]
  by (auto simp: on_provider_def plugin_ok_def provider_ok_def split: prod.splits)

lemma plugin_ok_handle:
  assumes "plugin_ok s" and "\<And>req. plugin_ok (fst (snd (f req s en)))"
  shows "plugin_ok (fst (snd (handle d name errCode enc f s en)))"
proof (cases d)
  case (Ok req)
  then show ?thesis using assms(2) [of req] by (auto simp: handle_def split: prod.split go_result.split)
qed (simp_all add: handle_def assms(1))

lemma plugin_ok_run:
  assumes "plugin_ok s" and "env_ok env" and "executor_run (pe_run env) req (ps_client s) en = (r, c', en')"
  shows "plugin_ok (s\<lparr>ps_client := c'\<rparr>)"
  using assms executor_run_keeps_cache [OF _ _ _ _ assms(3)] by (simp add: plugin_ok_def env_ok_def)

lemma plugin_ok_lifecycle: "plugin_ok s \<Longrightarrow> plugin_ok (apply_lifecycle_config sdk request s)"
  by (auto simp: plugin_ok_def apply_lifecycle_config_def apply_lifecycle_config_to_def set_client_version_def
      split: go_result.split)

lemma plugin_ok_handlers:
  assumes "plugin_ok s"
  shows "plugin_ok (fst (snd (handle_auth_parse sdk env q s en)))" "plugin_ok (fst (snd (handle_auth_login_start sdk env q s en)))"
    "plugin_ok (fst (snd (handle_auth_login_poll sdk env q s en)))" "plugin_ok (fst (snd (handle_auth_refresh sdk env q s en)))"
    "plugin_ok (fst (snd (handle_model_static sdk env q s en)))" "plugin_ok (fst (snd (handle_model_for_auth sdk env q s en)))"
    "plugin_ok (fst (snd (handle_executor_count_tokens sdk env q s en)))"
proof -
  note on = plugin_ok_on_provider [OF assms]
  show "plugin_ok (fst (snd (handle_auth_parse sdk env q s en)))"
    unfolding handle_auth_parse_def using on [OF provider_ok_parse_auth]
    by (intro plugin_ok_handle assms) (simp add: split_beta)
  show "plugin_ok (fst (snd (handle_auth_login_poll sdk env q s en)))"
    unfolding handle_auth_login_poll_def using on [OF provider_ok_poll_login]
    by (intro plugin_ok_handle assms) (simp add: split_beta)
  show "plugin_ok (fst (snd (handle_auth_refresh sdk env q s en)))"
    unfolding handle_auth_refresh_def using on [OF provider_ok_refresh_auth]
    by (intro plugin_ok_handle assms) (simp add: split_beta)
  have "provider_ok p \<Longrightarrow> provider_ok (snd ((\<lambda>p. let (r, p', en') = provider_start_login (pe_auth env) p en in ((r, en'), p')) p))" for p
    using provider_ok_start_login by (auto simp: split_beta) (metis prod.collapse)
  from on [OF this] show "plugin_ok (fst (snd (handle_auth_login_start sdk env q s en)))"
    unfolding handle_auth_login_start_def by (intro plugin_ok_handle assms) (simp add: split_beta)
qed (simp_all add: handlers plugin_ok_handle assms split_beta)

lemma plugin_ok_executor_handlers:
  assumes "plugin_ok s" and "env_ok env"
  shows "plugin_ok (fst (snd (handle_executor_execute sdk env q s en)))" "plugin_ok (fst (snd (handle_executor_execute_stream sdk env q s en)))"
  unfolding handle_executor_execute_def handle_executor_execute_stream_def
  by (auto intro!: plugin_ok_handle intro: plugin_ok_run [OF assms] assms simp: execute_def execute_stream_def split: prod.split)

lemma plugin_ok_handle_method:
  assumes "plugin_ok s" and "env_ok env" and "handle_method sdk env name request s en = (r, s', en')"
  shows "plugin_ok s'"
proof (cases "List.find (\<lambda>m. hs_name sdk m = name) plugin_methods")
  case None
  then show ?thesis using assms by (simp add: handle_method_def)
next
  case (Some m)
  have "s' = fst (snd (handle_method sdk env name request s en))" by (simp add: assms(3))
  then show ?thesis
    using plugin_ok_handlers [OF assms(1)] plugin_ok_executor_handlers [OF assms(1,2)] plugin_ok_lifecycle [OF assms(1)] assms(1)
    unfolding handle_method_def Some by (cases m) simp_all
qed

lemma plugin_ok_initial: "plugin_ok initial_plugin"
  by (simp add: plugin_ok_def initial_plugin_def new_agent_client_def accounts_ok_def new_account_store_def poller_ok_def
      new_poller_def new_pending_store_def pending_get_def max_consecutive_network_errors_def)

lemma plugin_ok_run_calls:
  assumes "plugin_ok s" and "\<forall>(env, name, request) \<in> set calls. env_ok env" and "run_calls sdk calls s en = (rs, s', en')"
  shows "plugin_ok s' \<and> length rs = length calls"
  using assms
proof (induction calls arbitrary: s en rs)
  case (Cons call calls)
  obtain env name request where call: "call = (env, name, request)" by (metis prod_cases3)
  obtain r s1 en1 where h: "handle_method sdk env name request s en = (r, s1, en1)" by (metis prod_cases3)
  then have "plugin_ok s1" using plugin_ok_handle_method Cons.prems(1,2) call by fastforce
  then show ?case using Cons.IH Cons.prems(2,3) call h by (auto split: prod.splits)
qed simp

text \<open>
  C12: After any sequence of calls to a fresh plugin, one after the other, whatever the requests and whatever the servers answer, the state is well-formed:
  the cache holds at most 64 conversations with distinct ids and an access time each, every attempt polls with its own
  UUID and has had fewer than three network errors in a row, no count is left of an attempt that is over, every account is
  active or needs a login, and each call has had one answer.
\<close>

theorem calls_keep_plugin_ok:
  assumes "\<forall>(env, name, request) \<in> set calls. env_ok env" and "run_calls sdk calls initial_plugin en = (rs, s', en')"
  shows "plugin_ok s' \<and> length rs = length calls"
  using plugin_ok_run_calls [OF plugin_ok_initial assms] .

lemma calls_keep_plugin_ok_witness:
  "plugin_ok (fst (snd (run_calls example_sdk [(example_plugin_env, ''g'', []), (example_plugin_env, ''l'', ''cursor-0'')]
     initial_plugin zero_entropy)))"
proof -
  let ?calls = "[(example_plugin_env, ''g'', []), (example_plugin_env, ''l'', ''cursor-0'')]"
  obtain rs s' en' where r: "run_calls example_sdk ?calls initial_plugin zero_entropy = (rs, s', en')" by (metis prod_cases3)
  have "\<forall>(env, name, request) \<in> set ?calls. env_ok env"
    by (simp add: example_plugin_env_def example_env_def env_ok_def valid_order_def)
  from calls_keep_plugin_ok [OF this r] show ?thesis unfolding r by simp
qed

end
