(* ===== verification/Plugin.thy ===== *)
theory Plugin
  imports Plugin_Invariant
begin

section \<open>The C boundary\<close>

text \<open>
  \<open>cmd/plugin/main.go\<close>: the functions that the host calls through the C ABI. Strings and buffers come in as
  pointers that may be null, with lengths in the widths of C; an answer goes out as a block of C memory, which belongs to the
  host until it gives it back to \<open>cliproxyPluginFree\<close>. C's allocator and the envelope type of the SDK are
  parameters; a Go panic on this side ends the process.
\<close>

subsection \<open>C values\<close>

text \<open>The blocks allocated, by address; \<open>malloc\<close> gives the address of a new block or null.\<close>

type_synonym c_heap = "nat \<Rightarrow> bytes option"
type_synonym c_malloc = "c_heap \<Rightarrow> nat option"

record c_buffer =
  cb_ptr :: "nat option"
  cb_len :: "64 word"

datatype entry_point = PluginCall | PluginFree | PluginShutdown

record c_plugin_api =
  pa_abi_version :: "32 word"
  pa_call :: "entry_point option"
  pa_free_buffer :: "entry_point option"
  pa_shutdown :: "entry_point option"

text \<open>\<open>C.GoString\<close> reads up to the first NUL byte.\<close>

definition go_string :: "string \<Rightarrow> string" where
  "go_string mem = takeWhile (\<lambda>c. c \<noteq> CHR 0x00) mem"

text \<open>\<open>C.GoBytes\<close> takes the length as a C \<open>int\<close>, and panics on a negative one.\<close>

definition go_bytes :: "bytes \<Rightarrow> 32 word \<Rightarrow> bytes go_result" where
  "go_bytes mem n = (if sint n < 0 then Panic ''gobytes: length out of range'' else Ok (take (nat (sint n)) mem))"

subsection \<open>The exported functions\<close>

definition cliproxy_plugin_init :: "32 word \<Rightarrow> c_plugin_api option \<Rightarrow> 32 word \<times> c_plugin_api option" where
  "cliproxy_plugin_init abiVersion plugin =
     (case plugin of
        None \<Rightarrow> (1, None)
      | Some api \<Rightarrow> (0, Some (api\<lparr>pa_abi_version := abiVersion, pa_call := Some PluginCall,
           pa_free_buffer := Some PluginFree, pa_shutdown := Some PluginShutdown\<rparr>)))"

definition write_response :: "c_malloc \<Rightarrow> string \<Rightarrow> c_buffer option \<Rightarrow> c_heap \<Rightarrow> c_buffer option \<times> c_heap" where
  "write_response malloc raw response heap =
     (case response of
        None \<Rightarrow> (None, heap)
      | Some b \<Rightarrow>
          if raw = [] then (response, heap)
          else (case malloc heap of
                  None \<Rightarrow> (response, heap)
                | Some p \<Rightarrow> (Some (b\<lparr>cb_ptr := Some p, cb_len := of_nat (length raw)\<rparr>), heap(p \<mapsto> to_bytes raw))))"

text \<open>\<open>errorEnvelope\<close>: the SDK's envelope of a code and a message, its marshalling error dropped.\<close>

definition plugin_error_envelope :: "(string \<Rightarrow> string \<Rightarrow> json go_result) \<Rightarrow> string \<Rightarrow> string \<Rightarrow> string" where
  "plugin_error_envelope enc errCode message =
     (case enc errCode message of Ok v \<Rightarrow> json_print v | _ \<Rightarrow> [])"

record c_world =
  cw_heap :: c_heap
  cw_plugin :: plugin_state
  cw_entropy :: entropy

definition clear_response :: "c_buffer option \<Rightarrow> c_buffer option" where
  "clear_response response = map_option (\<lambda>b. b\<lparr>cb_ptr := None, cb_len := 0\<rparr>) response"

text \<open>The code returned with the response buffer, or the panic that ends the process.\<close>

definition cliproxy_plugin_call ::
  "c_malloc \<Rightarrow> (string \<Rightarrow> string \<Rightarrow> json go_result) \<Rightarrow> host_sdk \<Rightarrow> plugin_env
    \<Rightarrow> string option \<Rightarrow> bytes option \<Rightarrow> 64 word \<Rightarrow> c_buffer option \<Rightarrow> c_world
    \<Rightarrow> (32 word \<times> c_buffer option) go_result \<times> c_world" where
  "cliproxy_plugin_call malloc enc sdk env name request requestLen response w =
     (let cleared = clear_response response;
          answer = (\<lambda>rc raw w. let (resp, heap) = write_response malloc raw cleared (cw_heap w)
                               in (Ok (rc, resp), w\<lparr>cw_heap := heap\<rparr>))
      in (case name of
            None \<Rightarrow> answer 1 (plugin_error_envelope enc ''invalid_method'' ''method is required'') w
          | Some mem \<Rightarrow>
              (case (case request of
                       Some bytes \<Rightarrow> if 0 < requestLen then go_bytes bytes (ucast requestLen) else Ok []
                     | None \<Rightarrow> Ok []) of
                 Panic p \<Rightarrow> (Panic p, w)
               | Err e \<Rightarrow> (Err e, w)
               | Ok requestBytes \<Rightarrow>
                   let (r, s, en) = handle_method sdk env (go_string mem) (of_bytes requestBytes) (cw_plugin w) (cw_entropy w);
                       w' = w\<lparr>cw_plugin := s, cw_entropy := en\<rparr>
                   in (case r of
                         Err e \<Rightarrow> answer 1 (plugin_error_envelope enc ''plugin_error'' e) w'
                       | Panic p \<Rightarrow> (Panic p, w')
                       | Ok raw \<Rightarrow> answer 0 raw w'))))"

definition cliproxy_plugin_free :: "nat option \<Rightarrow> 64 word \<Rightarrow> c_heap \<Rightarrow> c_heap" where
  "cliproxy_plugin_free ptr len heap = (case ptr of None \<Rightarrow> heap | Some p \<Rightarrow> heap(p := None))"

definition cliproxy_plugin_shutdown :: "c_world \<Rightarrow> c_world" where
  "cliproxy_plugin_shutdown w = w"

subsection \<open>Lengths\<close>

lemma ucast_length: "(ucast (of_nat n :: 64 word) :: 32 word) = of_nat n"
  by (simp add: unsigned_of_nat) (transfer, simp add: of_nat_take_bit take_bit_take_bit)

lemma sint_length: "sint (of_nat n :: 32 word) = signed_take_bit 31 (int n)"
  by transfer simp

lemma length_fits: "n < 2 ^ 31 \<Longrightarrow> sint (of_nat n :: 32 word) = int n"
  unfolding sint_length by (simp add: signed_take_bit_int_eq_self)

lemma length_mod: "n mod 2 ^ 32 < 2 ^ 31 \<Longrightarrow> sint (of_nat n :: 32 word) = int (n mod 2 ^ 32)"
proof -
  have "(of_nat n :: 32 word) = of_nat (n mod 2 ^ 32)"
    by transfer (simp add: take_bit_eq_mod zmod_int)
  moreover assume "n mod 2 ^ 32 < 2 ^ 31"
  ultimately show ?thesis using length_fits by presburger
qed

lemma signed_shift:
  assumes "(m::int) \<ge> 2 ^ 31" and "m < 2 ^ 32" shows "(m + 2 ^ 31) mod 2 ^ 32 - 2 ^ 31 < 0"
proof -
  have "(m + 2 ^ 31) mod 2 ^ 32 = ((m - 2 ^ 31) + 2 ^ 32) mod 2 ^ 32" by (simp add: add.commute)
  also have "\<dots> = m - 2 ^ 31" unfolding mod_add_self2 using assms by (intro mod_pos_pos_trivial) simp_all
  finally show ?thesis using assms(2) by simp
qed

lemma length_negative:
  assumes "2 ^ 31 \<le> n mod 2 ^ 32" shows "sint (of_nat n :: 32 word) < 0"
proof -
  have "int (2 ^ 31) \<le> int (n mod 2 ^ 32)" using assms by (simp only: of_nat_le_iff)
  then have "2 ^ 31 \<le> int n mod 2 ^ 32" by (simp add: zmod_int)
  moreover have "int n mod 2 ^ 32 < 2 ^ 32" by (intro pos_mod_bound) simp
  moreover have "sint (of_nat n :: 32 word) = (int n mod 2 ^ 32 + 2 ^ 31) mod 2 ^ 32 - 2 ^ 31"
    unfolding sint_length signed_take_bit_eq_take_bit_shift take_bit_eq_mod by (simp add: mod_add_left_eq)
  ultimately show ?thesis using signed_shift by presburger
qed

text \<open>The bytes of a request that reach the plugin, by its length.\<close>

lemma go_bytes_length:
  "go_bytes mem (ucast (of_nat n :: 64 word)) =
     (if n mod 2 ^ 32 < 2 ^ 31 then Ok (take (n mod 2 ^ 32) mem) else Panic ''gobytes: length out of range'')"
proof (cases "n mod 2 ^ 32 < 2 ^ 31")
  case True
  show ?thesis using True unfolding go_bytes_def ucast_length length_mod [OF True] nat_int by simp
next
  case False
  then show ?thesis using length_negative [of n] by (simp add: go_bytes_def ucast_length)
qed

subsection \<open>Answers cross the boundary\<close>

text \<open>What the host holds after a call: nothing, or a block with its length.\<close>

definition response_bytes :: "c_heap \<Rightarrow> c_buffer \<Rightarrow> bytes option" where
  "response_bytes heap b = (case cb_ptr b of
     None \<Rightarrow> Some []
   | Some p \<Rightarrow> (case heap p of Some block \<Rightarrow> if unat (cb_len b) = length block then Some block else None | None \<Rightarrow> None))"

lemma unat_length: "n < 2 ^ 64 \<Longrightarrow> unat (of_nat n :: 64 word) = n"
  by (simp add: unat_of_nat take_bit_nat_eq_self)

lemma write_response_delivers:
  assumes "malloc heap = Some p" and "heap p = None" and "length raw < 2 ^ 64"
  shows "\<exists>b' heap'. write_response malloc raw (clear_response (Some b)) heap = (Some b', heap')
    \<and> response_bytes heap' b' = Some (to_bytes raw)
    \<and> cliproxy_plugin_free (cb_ptr b') (cb_len b') heap' = heap"
proof (cases "raw = []")
  case True
  then show ?thesis by (simp add: write_response_def clear_response_def response_bytes_def cliproxy_plugin_free_def to_bytes_def)
next
  case False
  show ?thesis
    using False assms unat_length [OF assms(3)] by (simp add: write_response_def clear_response_def response_bytes_def cliproxy_plugin_free_def fun_upd_idem)
qed

text \<open>The request as the length given with it lets it through.\<close>

definition received :: "bytes \<Rightarrow> 64 word \<Rightarrow> bytes go_result" where
  "received mem len = (if 0 < len then go_bytes mem (ucast len) else Ok [])"

lemma received_length:
  assumes "n < 2 ^ 64"
  shows "received mem (of_nat n) =
     (if n mod 2 ^ 32 < 2 ^ 31 then Ok (take (n mod 2 ^ 32) mem) else Panic ''gobytes: length out of range'')"
proof -
  have "(0 :: 64 word) < of_nat n \<longleftrightarrow> n \<noteq> 0" using assms by (simp add: word_less_nat_alt unat_length)
  then show ?thesis by (auto simp: received_def go_bytes_length)
qed

lemma plugin_call_received:
  "cliproxy_plugin_call malloc enc sdk env (Some name) (Some mem) len response w =
     (case received mem len of
        Panic p \<Rightarrow> (Panic p, w)
      | Err e \<Rightarrow> (Err e, w)
      | Ok q \<Rightarrow>
          let (r, s, en) = handle_method sdk env (go_string name) (of_bytes q) (cw_plugin w) (cw_entropy w);
              answer = (\<lambda>rc raw. let (resp, heap) = write_response malloc raw (clear_response response) (cw_heap w)
                in (Ok (rc, resp), w\<lparr>cw_heap := heap, cw_plugin := s, cw_entropy := en\<rparr>))
          in (case r of
                Err e \<Rightarrow> answer 1 (plugin_error_envelope enc ''plugin_error'' e)
              | Panic p \<Rightarrow> (Panic p, w\<lparr>cw_plugin := s, cw_entropy := en\<rparr>)
              | Ok raw \<Rightarrow> answer 0 raw))"
  unfolding cliproxy_plugin_call_def Let_def option.case received_def [symmetric]
  by (auto split: go_result.split prod.split)

text \<open>
  C19: A call through the C boundary is a call of \<open>HandleMethod\<close>: when the request is shorter than 2 GiB and memory is
  available, the method name up to its first NUL and the whole request reach it, the plugin's state becomes the one it
  leaves, and the host is given exactly its answer (an envelope, when the SDK's responses marshal) in a new block of
  its length, with return code 0; freeing that block leaves C's memory as it was, and whatever the response buffer held
  before is gone.
\<close>

theorem call_crosses_boundary:
  assumes "malloc (cw_heap w) = Some p" and "cw_heap w p = None" and "length mem < 2 ^ 31" and "length raw < 2 ^ 64"
    and "handle_method sdk env (go_string name) (of_bytes mem) (cw_plugin w) (cw_entropy w) = (Ok raw, s, en)"
  shows "(\<exists>b' w'. cliproxy_plugin_call malloc enc sdk env (Some name) (Some mem) (of_nat (length mem)) (Some b) w = (Ok (0, Some b'), w')
      \<and> cw_plugin w' = s \<and> cw_entropy w' = en
      \<and> response_bytes (cw_heap w') b' = Some (to_bytes raw)
      \<and> cliproxy_plugin_free (cb_ptr b') (cb_len b') (cw_heap w') = cw_heap w)
    \<and> (encoders_total sdk \<longrightarrow> is_envelope raw)"
proof
  have "length mem mod 2 ^ 32 = length mem" using assms(3) by (intro mod_less) simp
  then have req: "received mem (of_nat (length mem)) = Ok mem" using assms(3) by (simp add: received_length)
  from write_response_delivers [where malloc = malloc and heap = "cw_heap w" and b = b, OF assms(1,2,4)] obtain b' heap' where
    "write_response malloc raw (clear_response (Some b)) (cw_heap w) = (Some b', heap')"
    "response_bytes heap' b' = Some (to_bytes raw)" "cliproxy_plugin_free (cb_ptr b') (cb_len b') heap' = cw_heap w" by blast
  then show "\<exists>b' w'. cliproxy_plugin_call malloc enc sdk env (Some name) (Some mem) (of_nat (length mem)) (Some b) w = (Ok (0, Some b'), w')
      \<and> cw_plugin w' = s \<and> cw_entropy w' = en
      \<and> response_bytes (cw_heap w') b' = Some (to_bytes raw)
      \<and> cliproxy_plugin_free (cb_ptr b') (cb_len b') (cw_heap w') = cw_heap w"
    by (simp add: plugin_call_received req assms(5))
  show "encoders_total sdk \<longrightarrow> is_envelope raw"
    using answered_method [of sdk env "go_string name" "of_bytes mem" "cw_plugin w" "cw_entropy w"] assms(5)
    by (auto simp: answered_def)
qed

lemma call_crosses_boundary_witness:
  "\<forall>enc. \<exists>b' w' raw. cliproxy_plugin_call (\<lambda>heap. Some 7) enc example_sdk example_plugin_env (Some ''i'') (Some [1, 2]) 2
       (Some \<lparr>cb_ptr = Some 9, cb_len = 4\<rparr>) \<lparr>cw_heap = (\<lambda>p. None), cw_plugin = initial_plugin, cw_entropy = zero_entropy\<rparr>
       = (Ok (0, Some b'), w')
     \<and> response_bytes (cw_heap w') b' = Some (to_bytes raw) \<and> is_envelope raw"
proof
  fix enc :: "string \<Rightarrow> string \<Rightarrow> json go_result"
  let ?w = "\<lparr>cw_heap = (\<lambda>p. None), cw_plugin = initial_plugin, cw_entropy = zero_entropy\<rparr>"
    and ?raw = "json_print (jobj [(''ok'', JBool True), (''result'', JNull)])"
  have "quote_lit ''ok'' = ''ok''" "quote_lit ''result'' = ''result''" "html_escape ''ok'' = ''ok''" "html_escape ''result'' = ''result''"
    by code_simp+
  then have len: "length ?raw < 2 ^ 64" by (simp add: jobj_def quoted_def)
  have total: "encoders_total example_sdk" by (simp add: encoders_total_def example_sdk_def)
  have "List.find (\<lambda>m. hs_name example_sdk m = ''i'') plugin_methods = Some ModelStatic"
    by (simp add: example_sdk_def plugin_methods_def)
  then have h: "handle_method example_sdk example_plugin_env (go_string ''i'') (of_bytes [1, 2]) (cw_plugin ?w) (cw_entropy ?w)
      = (Ok ?raw, initial_plugin, zero_entropy)"
    by (simp add: handle_method_def go_string_def handle_model_static_def handle_def ok_envelope_def static_models_def)
       (simp add: example_sdk_def ok_envelope_def)
  have heap: "(\<lambda>heap :: c_heap. Some (7 :: nat)) (cw_heap ?w) = Some 7" "cw_heap ?w 7 = None" "length [1, 2 :: 8 word] < 2 ^ 31"
    by simp_all
  have "of_nat (length [1, 2 :: 8 word]) = (2 :: 64 word)" by simp
  from call_crosses_boundary [OF heap len h, where enc = enc and b = "\<lparr>cb_ptr = Some 9, cb_len = 4\<rparr>", unfolded this] total
  show "\<exists>b' w' raw. cliproxy_plugin_call (\<lambda>heap. Some 7) enc example_sdk example_plugin_env (Some ''i'') (Some [1, 2]) 2
       (Some \<lparr>cb_ptr = Some 9, cb_len = 4\<rparr>) ?w = (Ok (0, Some b'), w')
     \<and> response_bytes (cw_heap w') b' = Some (to_bytes raw) \<and> is_envelope raw" by blast
qed

text \<open>
  C30: The length of a request is cut to a signed 32-bit integer: below 2 GiB the whole request arrives; with a length whose lower
  32 bits are 2 GiB or more the process panics; and from 4 GiB on the other requests arrive cut to the lower 32 bits of their length,
  without an error.
\<close>

theorem request_length_is_32_bit:
  assumes "length mem < 2 ^ 64"
  shows "cliproxy_plugin_call malloc enc sdk env (Some name) (Some mem) (of_nat (length mem)) response w =
    (let k = length mem mod 2 ^ 32 in
     if k < 2 ^ 31 then cliproxy_plugin_call malloc enc sdk env (Some name) (Some (take k mem)) (of_nat k) response w
     else (Panic ''gobytes: length out of range'', w))"
proof -
  let ?k = "length mem mod 2 ^ 32"
  have "?k < 2 ^ 32" by (rule mod_less_divisor) simp
  then have "received (take ?k mem) (of_nat ?k) = received mem (of_nat (length mem))" if "?k < 2 ^ 31"
    using that assms received_length [of ?k] received_length [of "length mem" mem] by simp
  then show ?thesis
    using received_length [OF assms, of mem] by (simp add: plugin_call_received Let_def)
qed

lemma request_length_is_32_bit_witness:
  "\<forall>malloc enc sdk env name response w.
     fst (cliproxy_plugin_call malloc enc sdk env (Some name) (Some (replicate (2 ^ 31) 0)) (2 ^ 31) response w)
       = Panic ''gobytes: length out of range''"
proof (intro allI)
  fix malloc enc sdk env name response w
  have l: "length (replicate (2 ^ 31) (0 :: 8 word)) = 2 ^ 31" by (rule length_replicate)
  then have "length (replicate (2 ^ 31) (0 :: 8 word)) < 2 ^ 64" by simp
  from request_length_is_32_bit [OF this, of malloc enc sdk env name response w]
  show "fst (cliproxy_plugin_call malloc enc sdk env (Some name) (Some (replicate (2 ^ 31) 0)) (2 ^ 31) response w)
      = Panic ''gobytes: length out of range''"
    unfolding l Let_def by simp
qed

end
