(* ===== verification/Shared_Runs.thy ===== *)
theory Shared_Runs
  imports Executor_Laws
begin

section \<open>Runs that overlap\<close>

text \<open>
  The host may call the plugin from several threads, so runs overlap. What they share is the conversation cache with its blob
  stores: each run acquires its conversation (\<open>internal/executor/executor.go\<close>, \<open>run\<close>), keeps the blob store it got, puts blobs
  into it while the server sets others, and in the end stores a checkpoint. Each of these accesses runs under a mutex
  (\<open>conversation.go\<close>, \<open>blobstore.go\<close>), so an execution is a sequence of them, in any order that keeps each run's own.
\<close>

subsection \<open>Steps\<close>

text \<open>The cache, and the conversation and blob store of each run in flight.\<close>

record shared_state =
  sh_cache :: conversation_cache
  sh_runs :: "(string \<times> nat) list"

datatype shared_event =
    Started string
  | BlobPut nat bytes
  | ServerSet nat bytes bytes
  | CheckpointStored string conversation_state
  | RunEnded string nat

definition shared_start :: shared_state where
  "shared_start = \<lparr>sh_cache = new_conversation_cache, sh_runs = []\<rparr>"

definition update_store :: "nat \<Rightarrow> (blob_store \<Rightarrow> blob_store) \<Rightarrow> conversation_cache \<Rightarrow> conversation_cache" where
  "update_store r f c = c\<lparr>cc_heap := (cc_heap c)(r := f (cc_heap c r))\<rparr>"

inductive shared_step :: "shared_state \<Rightarrow> shared_event \<Rightarrow> shared_state \<Rightarrow> bool" where
  step_started: "valid_order ord \<Longrightarrow> 0 < now \<Longrightarrow> i \<noteq> [] \<Longrightarrow> acquire ord now i (sh_cache s) = (e, c) \<Longrightarrow>
    shared_step s (Started i) (s\<lparr>sh_cache := c, sh_runs := (i, ce_blobs e) # sh_runs s\<rparr>)"
| step_put: "(i, r) \<in> set (sh_runs s) \<Longrightarrow>
    shared_step s (BlobPut r d) (s\<lparr>sh_cache := update_store r (\<lambda>b. snd (blob_put d b)) (sh_cache s)\<rparr>)"
| step_set: "(i, r) \<in> set (sh_runs s) \<Longrightarrow>
    shared_step s (ServerSet r k d) (s\<lparr>sh_cache := update_store r (put_known_id k d) (sh_cache s)\<rparr>)"
| step_checkpoint: "(i, r) \<in> set (sh_runs s) \<Longrightarrow> 0 < now \<Longrightarrow>
    shared_step s (CheckpointStored i cp) (s\<lparr>sh_cache := store_checkpoint now i (Some cp) (sh_cache s)\<rparr>)"
| step_ended: "(i, r) \<in> set (sh_runs s) \<Longrightarrow>
    shared_step s (RunEnded i r) (s\<lparr>sh_runs := remove1 (i, r) (sh_runs s)\<rparr>)"

inductive shared_path :: "shared_state \<Rightarrow> shared_event list \<Rightarrow> shared_state \<Rightarrow> bool" where
  path_start: "shared_path s [] s"
| path_step: "shared_path s evs s' \<Longrightarrow> shared_step s' ev s'' \<Longrightarrow> shared_path s (evs @ [ev]) s''"

abbreviation shared_trace :: "shared_event list \<Rightarrow> shared_state \<Rightarrow> bool" where
  "shared_trace \<equiv> shared_path shared_start"

text \<open>What a store holds under an id, by what was last written to it.\<close>

fun write_of :: "nat \<Rightarrow> bytes \<Rightarrow> shared_event \<Rightarrow> bytes option" where
  "write_of r k (BlobPut q d) = (if q = r \<and> sha256 d = k then Some d else None)"
| "write_of r k (ServerSet q i d) = (if q = r \<and> i = k then Some d else None)"
| "write_of r k ev = None"

definition last_write :: "nat \<Rightarrow> bytes \<Rightarrow> shared_event list \<Rightarrow> bytes option" where
  "last_write r k evs = foldl (\<lambda>acc ev. case write_of r k ev of Some d \<Rightarrow> Some d | None \<Rightarrow> acc) None evs"

lemma last_write_simps [simp]:
  "last_write r k [] = None"
  "last_write r k (evs @ [ev]) = (case write_of r k ev of Some d \<Rightarrow> Some d | None \<Rightarrow> last_write r k evs)"
  by (simp_all add: last_write_def split: option.split)

subsection \<open>The invariant\<close>

definition runs_apart :: "shared_state \<Rightarrow> bool" where
  "runs_apart s = ((\<forall>i r j. (i, r) \<in> set (sh_runs s) \<and> (j, r) \<in> set (sh_runs s) \<longrightarrow> i = j)
     \<and> (\<forall>k e i. (k, e) \<in> set (cc_entries (sh_cache s)) \<and> (i, ce_blobs e) \<in> set (sh_runs s) \<longrightarrow> k = i))"

definition allocated :: "shared_state \<Rightarrow> bool" where
  "allocated s = ((\<forall>i r. (i, r) \<in> set (sh_runs s) \<longrightarrow> r < cc_next (sh_cache s))
     \<and> (\<forall>r \<ge> cc_next (sh_cache s). cc_heap (sh_cache s) r = new_blob_store))"

definition stores_hold :: "shared_event list \<Rightarrow> shared_state \<Rightarrow> bool" where
  "stores_hold evs s = (\<forall>r k. blob_get (cc_heap (sh_cache s) r) k = last_write r k evs)"

lemma acquire_entries:
  assumes "cache_ok c" and "valid_order ord" and "i \<noteq> []" and "0 < now" and "acquire ord now i c = (e, c')"
    and "(k, x) \<in> set (cc_entries c')"
  shows "(k = i \<and> x = e) \<or> (k \<noteq> i \<and> (k, x) \<in> set (cc_entries c))"
proof -
  note facts = acquire_facts [OF assms(1-5)]
  have "map_of (cc_entries c') k = Some x" using facts assms(6) cache_ok_keys by (intro map_of_is_SomeI) blast+
  then show ?thesis using facts by (metis map_of_SomeD not_Some_eq option.inject)
qed

lemma acquire_heap:
  assumes "acquire ord now i c = (e, c')"
  shows "cc_next c \<le> cc_next c'" and "ce_blobs e = cc_next c \<and> ce_blobs e < cc_next c' \<or> (\<exists>x. (i, x) \<in> set (cc_entries c) \<and> ce_blobs e = ce_blobs x)"
    and "(\<forall>r \<ge> cc_next c. cc_heap c r = new_blob_store) \<Longrightarrow> cc_heap c' = cc_heap c"
proof -
  have sub: "set (drop_stale i now v es) \<subseteq> set es" for v es
    by (induction i now v es rule: drop_stale.induct) (auto split: if_splits)
  show "cc_next c \<le> cc_next c'" using assms by (auto simp: acquire_def Let_def split: option.splits)
  show "ce_blobs e = cc_next c \<and> ce_blobs e < cc_next c' \<or> (\<exists>x. (i, x) \<in> set (cc_entries c) \<and> ce_blobs e = ce_blobs x)"
    using assms by (auto simp: acquire_def Let_def split: option.splits dest!: map_of_SomeD) (use sub in blast)+
  show "(\<forall>r \<ge> cc_next c. cc_heap c r = new_blob_store) \<Longrightarrow> cc_heap c' = cc_heap c"
    using assms by (auto simp: acquire_def Let_def fun_upd_idem_iff split: option.splits)
qed

definition shared_ok :: "shared_event list \<Rightarrow> shared_state \<Rightarrow> bool" where
  "shared_ok evs s = (cache_ok (sh_cache s) \<and> runs_apart s \<and> allocated s \<and> stores_hold evs s)"

lemma cache_ok_update_store [simp, inv_intros]: "cache_ok (update_store r f c) = cache_ok c"
  by (simp add: cache_ok_def update_store_def)

lemma shared_ok_update:
  assumes "shared_ok evs s" and "(i, r) \<in> set (sh_runs s)"
    and "\<And>k. blob_get (f (cc_heap (sh_cache s) r)) k = (case write_of r k ev of Some d \<Rightarrow> Some d | None \<Rightarrow> blob_get (cc_heap (sh_cache s) r) k)"
    and "\<And>q k. q \<noteq> r \<Longrightarrow> write_of q k ev = None"
  shows "shared_ok (evs @ [ev]) (s\<lparr>sh_cache := update_store r f (sh_cache s)\<rparr>)"
proof -
  have "r < cc_next (sh_cache s)" using assms(1,2) by (auto simp: shared_ok_def allocated_def)
  then have "allocated (s\<lparr>sh_cache := update_store r f (sh_cache s)\<rparr>)"
    using assms(1) by (auto simp: shared_ok_def allocated_def update_store_def)
  moreover have "runs_apart (s\<lparr>sh_cache := update_store r f (sh_cache s)\<rparr>)"
    using assms(1) by (simp add: shared_ok_def runs_apart_def update_store_def)
  moreover have "stores_hold (evs @ [ev]) (s\<lparr>sh_cache := update_store r f (sh_cache s)\<rparr>)"
    using assms(1,3,4) unfolding shared_ok_def stores_hold_def update_store_def by (auto split: option.split)
  ultimately show ?thesis using assms(1) by (simp add: shared_ok_def)
qed

lemma shared_ok_started:
  assumes ok: "shared_ok evs s" and "valid_order ord" and "0 < now" and "i \<noteq> []" and acq: "acquire ord now i (sh_cache s) = (e, c)"
  shows "shared_ok (evs @ [Started i]) (s\<lparr>sh_cache := c, sh_runs := (i, ce_blobs e) # sh_runs s\<rparr>)"
proof -
  let ?s = "s\<lparr>sh_cache := c, sh_runs := (i, ce_blobs e) # sh_runs s\<rparr>"
  have c_ok: "cache_ok (sh_cache s)" and apart: "runs_apart s" and alloc: "allocated s" and hold: "stores_hold evs s"
    using ok by (simp_all add: shared_ok_def)
  note entries = acquire_entries [OF c_ok assms(2,4,3) acq]
  note heap = acquire_heap [OF acq]
  have runs: "r < cc_next (sh_cache s)" if "(j, r) \<in> set (sh_runs s)" for j r using that alloc by (auto simp: allocated_def)
  have refs: "ce_blobs x < cc_next (sh_cache s)" if "(k, x) \<in> set (cc_entries (sh_cache s))" for k x
    using that c_ok by (auto simp: cache_ok_def)
  have mine: "j = i" if "(j, ce_blobs e) \<in> set (sh_runs s)" for j
    using heap(2) runs [OF that]
  proof (elim disjE exE conjE)
    fix x assume "(i, x) \<in> set (cc_entries (sh_cache s))" and "ce_blobs e = ce_blobs x"
    then show "j = i" using apart that unfolding runs_apart_def by metis
  qed simp
  have entry: "k = i" if k: "(k, x) \<in> set (cc_entries c)" and r: "ce_blobs x = ce_blobs e" for k x
  proof (rule ccontr)
    assume "k \<noteq> i"
    then have old: "(k, x) \<in> set (cc_entries (sh_cache s))" using entries [OF k] by blast
    from heap(2) show False
    proof
      assume "ce_blobs e = cc_next (sh_cache s) \<and> ce_blobs e < cc_next c"
      then show False using refs [OF old] r by simp
    next
      assume "\<exists>y. (i, y) \<in> set (cc_entries (sh_cache s)) \<and> ce_blobs e = ce_blobs y"
      then obtain y where "(i, y) \<in> set (cc_entries (sh_cache s))" "ce_blobs x = ce_blobs y" using r by auto
      moreover have "inj_on (ce_blobs \<circ> snd) (set (cc_entries (sh_cache s)))" using c_ok by (simp add: cache_ok_def distinct_map)
      ultimately have "(k, x) = (i, y)" using old by (intro inj_onD [of "ce_blobs \<circ> snd"]) simp_all
      then show False using \<open>k \<noteq> i\<close> by simp
    qed
  qed
  have cross: "k = j" if k: "(k, x) \<in> set (cc_entries c)" and j: "(j, ce_blobs x) \<in> set (sh_runs s)" for k x j
    using entries [OF k]
  proof
    assume "k = i \<and> x = e"
    then show "k = j" using mine j by simp
  next
    assume "k \<noteq> i \<and> (k, x) \<in> set (cc_entries (sh_cache s))"
    then show "k = j" using apart j unfolding runs_apart_def by blast
  qed
  have "\<forall>j r l. (j, r) \<in> set (sh_runs s) \<and> (l, r) \<in> set (sh_runs s) \<longrightarrow> j = l"
    using apart unfolding runs_apart_def by blast
  then have "runs_apart ?s"
    using mine entry cross unfolding runs_apart_def by auto
  moreover have "allocated ?s"
  proof -
    have "ce_blobs e < cc_next c"
      using heap(2)
    proof (elim disjE exE conjE)
      fix x assume "(i, x) \<in> set (cc_entries (sh_cache s))" and "ce_blobs e = ce_blobs x"
      then show ?thesis using refs heap(1) by fastforce
    qed
    then show ?thesis using alloc heap runs by (auto simp: allocated_def intro: less_le_trans)
  qed
  moreover have "stores_hold (evs @ [Started i]) ?s"
    using hold heap(3) alloc by (simp add: stores_hold_def allocated_def)
  moreover have "cache_ok c" using acquire_facts [OF c_ok assms(2,4,3) acq] by blast
  ultimately show ?thesis by (simp add: shared_ok_def)
qed

lemma store_checkpoint_entries:
  "(k, x) \<in> set (cc_entries (store_checkpoint now i cp c)) \<Longrightarrow> \<exists>y. (k, y) \<in> set (cc_entries c) \<and> ce_blobs x = ce_blobs y"
  by (auto simp: store_checkpoint_def split: option.splits if_splits dest!: map_of_SomeD)

lemma store_checkpoint_rest [simp]:
  "cc_heap (store_checkpoint now i cp c) = cc_heap c" "cc_next (store_checkpoint now i cp c) = cc_next c"
  by (simp_all add: store_checkpoint_def split: option.split)

lemma runs_subset:
  assumes "set rs \<subseteq> set (sh_runs s)"
  shows "runs_apart s \<Longrightarrow> runs_apart (s\<lparr>sh_runs := rs\<rparr>)" and "allocated s \<Longrightarrow> allocated (s\<lparr>sh_runs := rs\<rparr>)"
proof -
  have mem: "p \<in> set rs \<Longrightarrow> p \<in> set (sh_runs s)" for p using assms by blast
  show "runs_apart s \<Longrightarrow> runs_apart (s\<lparr>sh_runs := rs\<rparr>)" unfolding runs_apart_def by simp (blast dest: mem)
  show "allocated s \<Longrightarrow> allocated (s\<lparr>sh_runs := rs\<rparr>)" unfolding allocated_def by (auto dest!: mem)
qed

lemma shared_ok_step:
  assumes "shared_step s ev s'" and "shared_ok evs s" shows "shared_ok (evs @ [ev]) s'"
  using assms
proof (induction rule: shared_step.induct)
  case (step_started ord now i s e c)
  then show ?case by (intro shared_ok_started)
next
  case (step_put i r s d)
  then show ?case by (intro shared_ok_update) (auto simp: blob_get_put)
next
  case (step_set i r s k d)
  then show ?case by (intro shared_ok_update) auto
next
  case (step_checkpoint i r s now cp)
  let ?c = "store_checkpoint now i (Some cp) (sh_cache s)"
  have "k = j" if k: "(k, x) \<in> set (cc_entries ?c)" and j: "(j, ce_blobs x) \<in> set (sh_runs s)" for k x j
  proof -
    obtain y where "(k, y) \<in> set (cc_entries (sh_cache s))" "ce_blobs x = ce_blobs y"
      using store_checkpoint_entries [OF k] by blast
    then show ?thesis using step_checkpoint(3) j unfolding shared_ok_def runs_apart_def by metis
  qed
  then have "runs_apart (s\<lparr>sh_cache := ?c\<rparr>)"
    using step_checkpoint(3) unfolding shared_ok_def runs_apart_def by auto
  moreover have "cache_ok ?c" using step_checkpoint(2,3) by (simp add: shared_ok_def cache_ok_store_checkpoint)
  ultimately show ?case
    using step_checkpoint(3) by (simp add: shared_ok_def allocated_def stores_hold_def)
next
  case (step_ended i r s)
  then show ?case
    using runs_subset [OF set_remove1_subset [of "(i, r)" "sh_runs s"]] by (simp add: shared_ok_def stores_hold_def)
qed

lemma shared_trace_ok: "shared_trace evs s \<Longrightarrow> shared_ok evs s"
proof (induction shared_start evs s rule: shared_path.induct)
  case path_start
  show ?case
    by (simp add: shared_ok_def shared_start_def runs_apart_def allocated_def stores_hold_def new_conversation_cache_def
        cache_ok_new [unfolded new_conversation_cache_def])
next
  case (path_step evs s ev s')
  then show ?case using shared_ok_step by blast
qed

subsection \<open>A late checkpoint\<close>

lemma step_started_trace:
  assumes "shared_trace evs s" and "0 < now" and "i \<noteq> []" and "acquire (\<lambda>es. es) now i (sh_cache s) = (e, c)"
  shows "shared_trace (evs @ [Started i]) (s\<lparr>sh_cache := c, sh_runs := (i, ce_blobs e) # sh_runs s\<rparr>)"
  using assms by (intro path_step [OF assms(1)] step_started [where ord = "\<lambda>es. es"]) (simp_all add: valid_order_def)

definition late_cache :: "conversation_state option \<Rightarrow> conversation_cache" where
  "late_cache cp = \<lparr>cc_entries = [(''a'', \<lparr>ce_blobs = 2, ce_checkpoint = cp, ce_last_access = 3 + conversation_ttl\<rparr>),
       (''b'', \<lparr>ce_blobs = 1, ce_checkpoint = None, ce_last_access = 2 + conversation_ttl\<rparr>)],
     cc_heap = (\<lambda>r. new_blob_store)(0 := put_known_id [1] [2] new_blob_store), cc_next = 3\<rparr>"

text \<open>A run of \<open>a\<close> outlives the entry it acquired; a second run of \<open>a\<close> gets a new entry before the first one stores its checkpoint.\<close>

lemma late_trace:
  "shared_trace [Started ''a'', ServerSet 0 [1] [2], Started ''b'', Started ''a'']
     \<lparr>sh_cache = late_cache None, sh_runs = [(''a'', 2), (''b'', 1), (''a'', 0)]\<rparr>"
proof -
  have ttl: "0 < conversation_ttl" by (simp add: conversation_ttl_def second_def)
  define c1 where "c1 = \<lparr>cc_entries = [(''a'', \<lparr>ce_blobs = 0, ce_checkpoint = None, ce_last_access = 1\<rparr>)],
    cc_heap = (\<lambda>r. new_blob_store)(0 := put_known_id [1] [2] new_blob_store), cc_next = 1\<rparr>"
  define c2 where "c2 = \<lparr>cc_entries = [(''b'', \<lparr>ce_blobs = 1, ce_checkpoint = None, ce_last_access = 2 + conversation_ttl\<rparr>)],
    cc_heap = (\<lambda>r. new_blob_store)(0 := put_known_id [1] [2] new_blob_store), cc_next = 2\<rparr>"
  have "acquire (\<lambda>es. es) 1 ''a'' (sh_cache shared_start) = (\<lparr>ce_blobs = 0, ce_checkpoint = None, ce_last_access = 1\<rparr>,
      c1\<lparr>cc_heap := \<lambda>r. new_blob_store\<rparr>)"
    by (simp add: acquire_def shared_start_def new_conversation_cache_def c1_def entry_del_def drop_overflow.simps max_cached_conversations_def
        Let_def fun_upd_idem_iff)
  from step_started_trace [OF path_start _ _ this]
  have "shared_trace [Started ''a''] \<lparr>sh_cache = c1\<lparr>cc_heap := \<lambda>r. new_blob_store\<rparr>, sh_runs = [(''a'', 0)]\<rparr>"
    by (simp add: shared_start_def)
  from path_step [OF this step_set [where i = "''a''" and r = 0 and k = "[1]" and d = "[2]"]]
  have 1: "shared_trace [Started ''a'', ServerSet 0 [1] [2]] \<lparr>sh_cache = c1, sh_runs = [(''a'', 0)]\<rparr>"
    by (simp add: update_store_def c1_def)
  have "acquire (\<lambda>es. es) (2 + conversation_ttl) ''b'' c1 = (\<lparr>ce_blobs = 1, ce_checkpoint = None, ce_last_access = 2 + conversation_ttl\<rparr>, c2)"
    using ttl by (simp add: acquire_def c1_def c2_def entry_del_def drop_overflow.simps max_cached_conversations_def fun_upd_idem_iff numeral_2_eq_2 Let_def)
  with step_started_trace [OF 1, of "2 + conversation_ttl" "''b''"] ttl
  have 2: "shared_trace [Started ''a'', ServerSet 0 [1] [2], Started ''b''] \<lparr>sh_cache = c2, sh_runs = [(''b'', 1), (''a'', 0)]\<rparr>"
    by simp
  have "acquire (\<lambda>es. es) (3 + conversation_ttl) ''a'' c2 =
      (\<lparr>ce_blobs = 2, ce_checkpoint = None, ce_last_access = 3 + conversation_ttl\<rparr>, late_cache None)"
    using ttl by (simp add: acquire_def c2_def late_cache_def entry_del_def drop_overflow.simps max_cached_conversations_def fun_upd_idem_iff Let_def)
  with step_started_trace [OF 2, of "3 + conversation_ttl" "''a''"] ttl show ?thesis by simp
qed

text \<open>
  C15: Overlapping runs do not disturb each other beyond their conversation. In every interleaving of the accesses of any number of
  runs, evictions included: the cache stays well-formed; two runs share a blob store only when they are of the same
  conversation, and the cache's entry shares one only with runs of its conversation; and a store holds under each id
  exactly what was last written there, so no run loses a blob to an eviction or to another conversation. But a checkpoint is stored
  under the conversation's id: when the entry a run acquired was dropped and created anew in the meantime, its checkpoint lands next
  to a store without the blobs it was made with.
\<close>

theorem overlapping_runs_isolated:
  "(\<forall>evs s. shared_trace evs s \<longrightarrow> cache_ok (sh_cache s)
      \<and> (\<forall>i r j. (i, r) \<in> set (sh_runs s) \<and> (j, r) \<in> set (sh_runs s) \<longrightarrow> i = j)
      \<and> (\<forall>k e i. (k, e) \<in> set (cc_entries (sh_cache s)) \<and> (i, ce_blobs e) \<in> set (sh_runs s) \<longrightarrow> k = i)
      \<and> (\<forall>r k. blob_get (cc_heap (sh_cache s) r) k = last_write r k evs))
   \<and> (\<forall>cp. \<exists>evs s e. shared_trace (evs @ [CheckpointStored ''a'' cp]) s \<and> (''a'', 0) \<in> set (sh_runs s)
      \<and> map_of (cc_entries (sh_cache s)) ''a'' = Some e \<and> ce_checkpoint e = Some cp
      \<and> blob_get (cc_heap (sh_cache s) 0) [1] = Some [2] \<and> blob_get (cc_heap (sh_cache s) (ce_blobs e)) [1] = None)"
proof
  show "\<forall>evs s. shared_trace evs s \<longrightarrow> cache_ok (sh_cache s)
      \<and> (\<forall>i r j. (i, r) \<in> set (sh_runs s) \<and> (j, r) \<in> set (sh_runs s) \<longrightarrow> i = j)
      \<and> (\<forall>k e i. (k, e) \<in> set (cc_entries (sh_cache s)) \<and> (i, ce_blobs e) \<in> set (sh_runs s) \<longrightarrow> k = i)
      \<and> (\<forall>r k. blob_get (cc_heap (sh_cache s) r) k = last_write r k evs)"
    using shared_trace_ok by (simp add: shared_ok_def runs_apart_def stores_hold_def)
  show "\<forall>cp. \<exists>evs s e. shared_trace (evs @ [CheckpointStored ''a'' cp]) s \<and> (''a'', 0) \<in> set (sh_runs s)
      \<and> map_of (cc_entries (sh_cache s)) ''a'' = Some e \<and> ce_checkpoint e = Some cp
      \<and> blob_get (cc_heap (sh_cache s) 0) [1] = Some [2] \<and> blob_get (cc_heap (sh_cache s) (ce_blobs e)) [1] = None"
  proof
    fix cp
    let ?s = "\<lparr>sh_cache = store_checkpoint (3 + conversation_ttl) ''a'' (Some cp) (late_cache None),
       sh_runs = [(''a'', 2), (''b'', 1), (''a'', 0)]\<rparr>"
    have "0 < 3 + conversation_ttl" by (simp add: conversation_ttl_def second_def)
    with path_step [OF late_trace step_checkpoint [where i = "''a''" and r = 0 and cp = cp]]
    have "shared_trace ([Started ''a'', ServerSet 0 [1] [2], Started ''b'', Started ''a''] @ [CheckpointStored ''a'' cp]) ?s" by simp
    moreover have "sh_cache ?s = late_cache (Some cp)" by (simp add: store_checkpoint_def late_cache_def)
    ultimately show "\<exists>evs s e. shared_trace (evs @ [CheckpointStored ''a'' cp]) s \<and> (''a'', 0) \<in> set (sh_runs s)
      \<and> map_of (cc_entries (sh_cache s)) ''a'' = Some e \<and> ce_checkpoint e = Some cp
      \<and> blob_get (cc_heap (sh_cache s) 0) [1] = Some [2] \<and> blob_get (cc_heap (sh_cache s) (ce_blobs e)) [1] = None"
      by (intro exI [of _ "[Started ''a'', ServerSet 0 [1] [2], Started ''b'', Started ''a'']"] exI [of _ ?s]) (simp add: late_cache_def)
  qed
qed

lemma overlapping_runs_isolated_witness:
  "blob_get (cc_heap (late_cache None) 0) [1] = last_write 0 [1] [Started ''a'', ServerSet 0 [1] [2], Started ''b'', Started ''a'']"
  using overlapping_runs_isolated [THEN conjunct1, THEN spec, THEN spec, THEN mp, OF late_trace]
  unfolding shared_state.select_convs by blast

end
