(* ===== verification/Run_Traces.thy ===== *)
theory Run_Traces
  imports Shared_Runs
begin

section \<open>A run is a trace of its accesses\<close>

text \<open>
  The steps of \<open>Shared_Runs\<close> are those of the model's runs: what \<open>executor_run\<close> does to the shared cache is a sequence of
  them, so an interleaving of traces is what overlapping runs do.
\<close>

subsection \<open>The exchange only sets\<close>

definition sets :: "blob_store \<Rightarrow> blob_store \<Rightarrow> bool" where
  "sets b b' = (\<exists>ws. b' = blobs.put_all ws b)"

lemma sets_refl [simp]: "sets b b"
  unfolding sets_def by (rule exI [of _ "[]"]) simp

lemma sets_trans: "sets b b1 \<Longrightarrow> sets b1 b2 \<Longrightarrow> sets b b2"
  unfolding sets_def using put_all_append by metis

lemma handle_frame_sets: "handle_frame pl f x = (r, x') \<Longrightarrow> sets (xs_blobs x) (xs_blobs x')"
proof -
  have kv: "sets (xs_blobs x) (xs_blobs y)" if "handle_kv_server_message pl m x = (q, y)" for m q y
    unfolding sets_def using handle_kv_blobs [of pl m x] that by auto
  assume "handle_frame pl f x = (r, x')"
  then show ?thesis
    using kv by (auto simp: handle_frame_def handle_server_message_def Let_def
      split: if_splits go_result.splits server_message.splits option.splits prod.splits)
qed

lemma process_frames_sets: "process_frames pl pending x = (r, pending', x') \<Longrightarrow> sets (xs_blobs x) (xs_blobs x')"
proof (induction pl pending x arbitrary: r pending' x' rule: process_frames.induct)
  case (1 pl pending x)
  show ?case
  proof (cases "extract_frame pending")
    case (Ok fr)
    show ?thesis
    proof (cases fr)
      case (Some p)
      obtain f rest where p: "p = (f, rest)" by fastforce
      obtain q y where h: "handle_frame pl f x = (q, y)" by fastforce
      have "sets (xs_blobs y) (xs_blobs x')"
        using 1 Ok Some p h by (cases q) (auto simp: process_frames.simps [of pl pending])
      then show ?thesis by (rule sets_trans [OF handle_frame_sets [OF h]])
    qed (use 1(2) Ok in \<open>simp add: process_frames.simps [of pl pending]\<close>)
  qed (use 1(2) in \<open>simp_all add: process_frames.simps [of pl pending]\<close>)
qed

lemma read_loop_sets: "read_loop pl rds e pending x = (r, x') \<Longrightarrow> sets (xs_blobs x) (xs_blobs x')"
proof (induction pl rds e pending x arbitrary: r x' rule: read_loop.induct)
  case (1 pl e pending x)
  then show ?case by (auto split: option.splits prod.splits dest: process_frames_sets)
next
  case (2 pl chunk err rds e pending x)
  from 2(2) show ?case
    by (auto split: option.splits prod.splits dest: process_frames_sets intro: sets_trans [OF process_frames_sets 2(1)])
qed

lemma run_once_sets:
  "run_cursor_stream_once pl tr fate v url tok rr b en = (out, b', en') \<Longrightarrow> sets b b'"
  by (auto simp: run_cursor_stream_once_def Let_def split: go_result.splits http_outcome.splits prod.splits if_splits
      dest: read_loop_sets)

lemma stream_attempts_sets:
  "stream_attempts pl env v url tok rr left attempt prev b en = (out, b', en') \<Longrightarrow> sets b b'"
proof (induction left arbitrary: attempt prev b en)
  case (Suc left)
  then show ?case by (auto simp: Let_def split: prod.splits if_splits dest: run_once_sets intro: sets_trans [OF run_once_sets])
qed simp

lemma run_cursor_stream_sets: "run_cursor_stream pl env v url tok rr b en = (out, b', en') \<Longrightarrow> sets b b'"
  unfolding run_cursor_stream_def by (rule stream_attempts_sets)

subsection \<open>The path of a run\<close>

lemma update_store_id [simp]: "update_store r (\<lambda>b. b) c = c"
  by (simp add: update_store_def)

lemma put_all_Nil [simp]: "blobs.put_all [] = (\<lambda>b. b)"
  by (rule ext) simp

lemma update_store_twice [simp]: "update_store r f (update_store r g c) = update_store r (\<lambda>b. f (g b)) c"
  by (simp add: update_store_def)

lemma update_store_const: "write_blobs e b c = update_store (ce_blobs e) (\<lambda>_. b) c"
  by (simp add: write_blobs_def update_store_def)

lemma path_puts:
  assumes "shared_path s evs s'" and "(i, q) \<in> set (sh_runs s')"
  shows "shared_path s (evs @ map (BlobPut q) ds) (s'\<lparr>sh_cache := update_store q (blobs.put_all (puts ds)) (sh_cache s')\<rparr>)"
  using assms
proof (induction ds arbitrary: evs s')
  case (Cons d ds)
  from Cons.IH [OF path_step [OF Cons.prems(1) step_put [OF Cons.prems(2), of d]]] Cons.prems(2)
  show ?case by (simp add: puts_def blob_put_def Let_def)
qed (simp add: puts_def)

lemma path_sets:
  assumes "shared_path s evs s'" and "(i, q) \<in> set (sh_runs s')"
  shows "shared_path s (evs @ map (\<lambda>(k, d). ServerSet q k d) ws) (s'\<lparr>sh_cache := update_store q (blobs.put_all ws) (sh_cache s')\<rparr>)"
  using assms
proof (induction ws arbitrary: evs s')
  case (Cons w ws)
  obtain k d where w: "w = (k, d)" by fastforce
  from Cons.IH [OF path_step [OF Cons.prems(1) step_set [OF Cons.prems(2), of k d]]] Cons.prems(2)
  show ?case by (simp add: w)
qed simp

lemma finish_run_stores:
  assumes "finish_run env chatReq cid out c en = (r, c', en')"
  shows "ag_conversations c' = ag_conversations c
    \<or> (\<exists>cp. ag_conversations c' = store_checkpoint (re_stored_at env) cid (Some cp) (ag_conversations c))"
proof -
  have none: "store_checkpoint now i None d = d" for now i d by (simp add: store_checkpoint_def)
  have "ag_conversations c' = ag_conversations c
    \<or> (\<exists>cp. ag_conversations c' = store_checkpoint (re_stored_at env) cid cp (ag_conversations c))"
    using assms by (auto simp: finish_run_def Let_def split: go_result.splits prod.splits option.splits if_splits)
  then show ?thesis using none by (metis not_None_eq)
qed

lemma finish_path:
  assumes path: "shared_path s evs t" and runs: "sh_runs t = (i, q) # rs" and stored: "0 < re_stored_at env"
    and fin: "finish_run env chatReq i out c en = (r, c', en')" and cache: "sh_cache t = ag_conversations c"
  shows "\<exists>cps. length cps \<le> 1
    \<and> shared_path s (evs @ map (CheckpointStored i) cps @ [RunEnded i q]) \<lparr>sh_cache = ag_conversations c', sh_runs = rs\<rparr>"
  using finish_run_stores [OF fin]
proof (elim disjE exE)
  have mem: "(i, q) \<in> set (sh_runs t)" by (simp add: runs)
  assume same: "ag_conversations c' = ag_conversations c"
  have "t\<lparr>sh_runs := rs\<rparr> = \<lparr>sh_cache = ag_conversations c', sh_runs = rs\<rparr>" using same cache by (cases t) simp
  then have "shared_path s (evs @ map (CheckpointStored i) [] @ [RunEnded i q]) \<lparr>sh_cache = ag_conversations c', sh_runs = rs\<rparr>"
    using path_step [OF path step_ended [OF mem]] by (simp add: runs)
  then show ?thesis by (intro exI [of _ "[]"]) simp
  next
  have mem: "(i, q) \<in> set (sh_runs t)" by (simp add: runs)
  fix cp
  assume cp: "ag_conversations c' = store_checkpoint (re_stored_at env) i (Some cp) (ag_conversations c)"
  let ?t = "t\<lparr>sh_cache := store_checkpoint (re_stored_at env) i (Some cp) (sh_cache t)\<rparr>"
  have p: "shared_path s (evs @ [CheckpointStored i cp]) ?t" by (rule path_step [OF path step_checkpoint [OF mem stored]])
  have "shared_path s ((evs @ [CheckpointStored i cp]) @ [RunEnded i q]) (?t\<lparr>sh_runs := remove1 (i, q) (sh_runs ?t)\<rparr>)"
    by (rule path_step [OF p step_ended]) (use mem in simp)
  moreover have "?t\<lparr>sh_runs := remove1 (i, q) (sh_runs ?t)\<rparr> = \<lparr>sh_cache = ag_conversations c', sh_runs = rs\<rparr>"
    using cp cache runs by (cases t) simp
  ultimately show ?thesis by (intro exI [of _ "[cp]"]) simp
qed

lemma write_blobs_update: "b = f (deref_blobs c e) \<Longrightarrow> write_blobs e b c = update_store (ce_blobs e) f c"
  by (simp add: write_blobs_def update_store_def deref_blobs_def)

lemma conversation_path:
  assumes path: "shared_path s evs t" and runs: "sh_runs t = (i, ce_blobs entry) # rs" and stored: "0 < re_stored_at env"
    and run: "run_conversation env chatReq i entry tok c en = (r, c', en')" and cache: "sh_cache t = ag_conversations c"
  shows "\<exists>ds ws cps. length cps \<le> 1 \<and> shared_path s (evs @ map (BlobPut (ce_blobs entry)) ds
      @ map (\<lambda>(k, d). ServerSet (ce_blobs entry) k d) ws @ map (CheckpointStored i) cps @ [RunEnded i (ce_blobs entry)])
    \<lparr>sh_cache = ag_conversations c', sh_runs = rs\<rparr>"
proof -
  let ?q = "ce_blobs entry"
  have mem: "(i, ?q) \<in> set (sh_runs t)" by (simp add: runs)
  obtain r0 b en1 where build: "build_agent_run_request (re_lib env) (re_aliases env) chatReq i (ce_checkpoint entry) en
      (deref_blobs (ag_conversations c) entry) = (r0, b, en1)" by (metis prod.collapse)
  obtain ds where ds: "b = blobs.put_all (puts ds) (deref_blobs (ag_conversations c) entry)" using build_puts [OF build] by blast
  define c1 where "c1 = c\<lparr>ag_conversations := write_blobs entry b (ag_conversations c)\<rparr>"
  define t1 where "t1 = t\<lparr>sh_cache := ag_conversations c1\<rparr>"
  have "sh_cache t1 = update_store ?q (blobs.put_all (puts ds)) (sh_cache t)"
    using write_blobs_update [of b "blobs.put_all (puts ds)" "ag_conversations c" entry] ds cache by (simp add: t1_def c1_def)
  then have p1: "shared_path s (evs @ map (BlobPut ?q) ds) t1" and runs1: "sh_runs t1 = (i, ?q) # rs" and cache1: "sh_cache t1 = ag_conversations c1"
    using path_puts [OF path mem, of ds] runs by (simp_all add: t1_def)
  show ?thesis
  proof (cases r0)
    case (Ok rr)
    obtain out b' en2 where stream: "run_cursor_stream (re_lib env) (client_net c (re_net env)) (client_version_or_default c)
        (ag_base_url c) tok rr b en1 = (out, b', en2)" by (metis prod.collapse)
    obtain ws where ws: "b' = blobs.put_all ws b" using run_cursor_stream_sets [OF stream] unfolding sets_def by blast
    define c2 where "c2 = c1\<lparr>ag_conversations := write_blobs entry b' (ag_conversations c1)\<rparr>"
    define t2 where "t2 = t1\<lparr>sh_cache := ag_conversations c2\<rparr>"
    have "deref_blobs (ag_conversations c1) entry = b" by (simp add: c1_def deref_blobs_def write_blobs_def)
    then have "sh_cache t2 = update_store ?q (blobs.put_all ws) (sh_cache t1)"
      using write_blobs_update [of b' "blobs.put_all ws" "ag_conversations c1" entry] ws cache1 by (simp add: t2_def c2_def)
    then have p2: "shared_path s ((evs @ map (BlobPut ?q) ds) @ map (\<lambda>(k, d). ServerSet ?q k d) ws) t2" and runs2: "sh_runs t2 = (i, ?q) # rs"
      using path_sets [OF p1, of i ?q ws] runs1 by (simp_all add: t2_def)
    have "finish_run env chatReq i out c2 en2 = (r, c', en')"
      using run build stream Ok by (simp add: run_conversation_def c1_def c2_def)
    from finish_path [OF p2 runs2 stored this] show ?thesis by (auto simp: t2_def)
  next
    case (Err e)
    with run build have "c' = c1" by (simp add: run_conversation_def c1_def)
    then have "shared_path s ((evs @ map (BlobPut ?q) ds) @ [RunEnded i ?q]) \<lparr>sh_cache = ag_conversations c', sh_runs = rs\<rparr>"
      using path_step [OF p1 step_ended [of i ?q t1]] runs1 cache1 by (cases t1) simp
    then show ?thesis by (intro exI [of _ ds] exI [of _ "[]"]) simp
  next
    case (Panic e)
    with run build have "c' = c1" by (simp add: run_conversation_def c1_def)
    then have "shared_path s ((evs @ map (BlobPut ?q) ds) @ [RunEnded i ?q]) \<lparr>sh_cache = ag_conversations c', sh_runs = rs\<rparr>"
      using path_step [OF p1 step_ended [of i ?q t1]] runs1 cache1 by (cases t1) simp
    then show ?thesis by (intro exI [of _ ds] exI [of _ "[]"]) simp
  qed
qed

text \<open>
  C16: Overlapping runs are covered by \<open>overlapping_runs_isolated\<close>: what a run does to the shared cache is a path of the
  steps interleaved there. A run that fails before it has an account does nothing; any other acquires its conversation, puts
  the blobs of its request by their digest, stores what the server sets, stores at most one checkpoint and ends, and these steps alone lead from
  the cache it found to the cache it leaves.
\<close>

theorem executor_run_is_trace:
  assumes "valid_order (re_order env)" and "0 < re_acquired_at env" and "0 < re_stored_at env"
    and "executor_run env req c en = (r, c', en')" and "sh_cache s = ag_conversations c"
  shows "\<exists>evs. shared_path s evs (s\<lparr>sh_cache := ag_conversations c'\<rparr>)
    \<and> (evs = [] \<or> (\<exists>i q ds ws cps. length cps \<le> 1 \<and> evs = Started i # map (BlobPut q) ds
         @ map (\<lambda>(k, d). ServerSet q k d) ws @ map (CheckpointStored i) cps @ [RunEnded i q]))"
proof (rule executor_run_parts [OF assms(4)])
  assume "c' = c"
  then have "shared_path s [] (s\<lparr>sh_cache := ag_conversations c'\<rparr>)" using path_start [of s] assms(5) by (cases s) simp
  then show ?thesis by (intro exI [of _ "[]"]) simp
next
  fix chatReq i st en1 entry convs
  assume acq: "acquire (re_order env) (re_acquired_at env) i (ag_conversations c) = (entry, convs)"
    and id: "conversation_id_for (cr_messages chatReq) en = (i, en1)"
    and run: "run_conversation env chatReq i entry (as_access_token st) (c\<lparr>ag_conversations := convs\<rparr>) en1 = (r, c', en')"
  have "i \<noteq> []" using conversation_id_nonempty [of "cr_messages chatReq" en] id by simp
  then have "shared_step s (Started i) (s\<lparr>sh_cache := convs, sh_runs := (i, ce_blobs entry) # sh_runs s\<rparr>)"
    using step_started [OF assms(1,2)] acq assms(5) by simp
  from conversation_path [OF path_step [OF path_start this] _ assms(3) run]
  obtain ds ws cps where "length cps \<le> 1" and "shared_path s (Started i # map (BlobPut (ce_blobs entry)) ds
      @ map (\<lambda>(k, d). ServerSet (ce_blobs entry) k d) ws @ map (CheckpointStored i) cps @ [RunEnded i (ce_blobs entry)])
    (s\<lparr>sh_cache := ag_conversations c'\<rparr>)" by (cases s) auto
  then show ?thesis by blast
qed

lemma executor_run_is_trace_witness:
  "\<exists>evs. shared_trace evs (shared_start\<lparr>sh_cache :=
     ag_conversations (fst (snd (executor_run example_env example_executor_request example_client zero_entropy)))\<rparr>)"
proof -
  obtain r c' en' where run: "executor_run example_env example_executor_request example_client zero_entropy = (r, c', en')"
    by (metis prod.collapse)
  have "sh_cache shared_start = ag_conversations example_client"
    by (simp add: shared_start_def example_client_def new_agent_client_def)
  moreover have "valid_order (re_order example_env)" "0 < re_acquired_at example_env" "0 < re_stored_at example_env"
    by (simp_all add: example_env_def valid_order_def)
  ultimately show ?thesis using executor_run_is_trace [of example_env, OF _ _ _ run] run by fastforce
qed

end
