(* ===== verification/Turns.thy ===== *)
theory Turns
  imports Run_Traces
begin

section \<open>From one turn to the next\<close>

text \<open>
  What a run sends is a function of the request and of what the run before left in the cache (\<open>run\<close> in \<open>internal/executor/executor.go\<close>);
  here the components meet: conversation ids, the cache with its blob stores and checkpoints, the request builder and the exchange.
\<close>

subsection \<open>What a run sends\<close>

definition request_of :: "executor_request \<Rightarrow> chat_completions_request go_result" where
  "request_of req =
     go_bind (wrap_err ''cursor: failed to decode chat-completions request'' (go_bind (json_unmarshal (er_payload req)) dec_chat_request))
       (\<lambda>decoded. Ok (if cr_model decoded = [] then decoded\<lparr>cr_model := er_model req\<rparr> else decoded))"

text \<open>The run request that goes to Cursor, with the blob store it is served from; \<open>None\<close> when the run fails before.\<close>

definition sent_request :: "run_env \<Rightarrow> executor_request \<Rightarrow> agent_client \<Rightarrow> entropy \<Rightarrow> (agent_run_request \<times> blob_store) option" where
  "sent_request env req c en =
     (case (request_of req, account_get (ag_accounts c) (er_auth_id req)) of
        (Ok chatReq, (st, None)) \<Rightarrow>
          (let (cid, en1) = conversation_id_for (cr_messages chatReq) en;
               (entry, convs) = acquire (re_order env) (re_acquired_at env) cid (ag_conversations c)
           in case build_agent_run_request (re_lib env) (re_aliases env) chatReq cid (ce_checkpoint entry) en1 (deref_blobs convs entry) of
                (Ok rr, b, en2) \<Rightarrow> Some (rr, b)
              | _ \<Rightarrow> None)
      | _ \<Rightarrow> None)"

lemma sent_request_parts:
  assumes "sent_request env req c en = Some (rr, b)"
  obtains chatReq st cid en1 entry convs en2 where "request_of req = Ok chatReq"
    "account_get (ag_accounts c) (er_auth_id req) = (st, None)" "conversation_id_for (cr_messages chatReq) en = (cid, en1)"
    "acquire (re_order env) (re_acquired_at env) cid (ag_conversations c) = (entry, convs)"
    "build_agent_run_request (re_lib env) (re_aliases env) chatReq cid (ce_checkpoint entry) en1 (deref_blobs convs entry) = (Ok rr, b, en2)"
  using assms by (auto simp: sent_request_def split: go_result.splits prod.splits option.splits)

lemma executor_run_of:
  assumes "request_of req = Ok chatReq" and "account_get (ag_accounts c) (er_auth_id req) = (st, None)"
    and "conversation_id_for (cr_messages chatReq) en = (cid, en1)"
    and "acquire (re_order env) (re_acquired_at env) cid (ag_conversations c) = (entry, convs)"
  shows "executor_run env req c en = run_conversation env chatReq cid entry (as_access_token st) (c\<lparr>ag_conversations := convs\<rparr>) en1"
  using assms by (auto simp: request_of_def executor_run_def go_simps Let_def split: go_result.splits)

lemma build_request_base:
  assumes "build_agent_run_request pl visit req cid base en b = (Ok rr, b', en')" and "cid \<noteq> []"
  shows "arr_conversation_id rr = Some cid"
    and "cs_other (arr_conversation_state rr) = (case base of Some cp \<Rightarrow> cs_other cp | None \<Rightarrow> [])"
  using assms
  by (auto simp: build_agent_run_request_def Let_def go_simps empty_state_def split: if_splits prod.splits option.splits)

lemma put_all_keeps: "blob_get b k \<noteq> None \<Longrightarrow> blob_get (blobs.put_all ws b) k \<noteq> None"
  by (auto simp: blobs.get_put_all split: option.splits)

subsection \<open>What a run leaves\<close>

definition result_checkpoint :: "run_stream_result option \<times> unit go_result \<Rightarrow> conversation_state option" where
  "result_checkpoint out = (case fst out of Some res \<Rightarrow> rsr_checkpoint res | None \<Rightarrow> None)"

lemma finish_run_checkpoint:
  assumes "finish_run env chatReq cid out c en = (r, c', en')" and "is_ok r"
  shows "ag_conversations c' = store_checkpoint (re_stored_at env) cid (result_checkpoint out) (ag_conversations c)"
  using assms by (auto simp: finish_run_def result_checkpoint_def store_checkpoint_def Let_def
      split: go_result.splits prod.splits option.splits if_splits)

lemma store_checkpoint_entry:
  assumes "map_of (cc_entries c) i = Some e"
  obtains e' where "map_of (cc_entries (store_checkpoint now i cp c)) i = Some e'" and "ce_blobs e' = ce_blobs e"
    and "ce_checkpoint e' = (case cp of Some s \<Rightarrow> Some s | None \<Rightarrow> ce_checkpoint e)"
  using assms by (cases cp) (auto simp: map_of_store_checkpoint)

lemma run_leaves:
  assumes ok: "cache_ok (ag_conversations c)" "valid_order (re_order env)" "0 < re_acquired_at env" "0 < re_stored_at env"
    and run: "executor_run env req c en = (r, c', en')" and sent: "sent_request env req c en = Some (rr, b)"
  obtains cid chatReq en1 tok en2 en3 out b' en4 e where
    "request_of req = Ok chatReq" and "conversation_id_for (cr_messages chatReq) en = (cid, en1)" and "arr_conversation_id rr = Some cid"
    and "run_cursor_stream (re_lib env) (client_net c (re_net env)) (client_version_or_default c) (ag_base_url c) tok rr b en3 = (out, b', en4)"
    and "map_of (cc_entries (ag_conversations c')) cid = Some e" and "deref_blobs (ag_conversations c') e = b'" and "sets b b'"
    and "is_ok r \<Longrightarrow> result_checkpoint out \<noteq> None \<Longrightarrow> ce_checkpoint e = result_checkpoint out"
proof (rule sent_request_parts [OF sent])
  fix chatReq st cid en1 entry convs en2
  assume q: "request_of req = Ok chatReq" and acc: "account_get (ag_accounts c) (er_auth_id req) = (st, None)"
    and id: "conversation_id_for (cr_messages chatReq) en = (cid, en1)"
    and acq: "acquire (re_order env) (re_acquired_at env) cid (ag_conversations c) = (entry, convs)"
    and build: "build_agent_run_request (re_lib env) (re_aliases env) chatReq cid (ce_checkpoint entry) en1 (deref_blobs convs entry)
      = (Ok rr, b, en2)"
  have "cid \<noteq> []" using conversation_id_nonempty [of "cr_messages chatReq" en] id by simp
  then have entry: "map_of (cc_entries convs) cid = Some entry" using acquire_facts [OF ok(1,2) _ ok(3) acq] by simp
  obtain out b' en4 where stream: "run_cursor_stream (re_lib env) (client_net c (re_net env)) (client_version_or_default c)
      (ag_base_url c) (as_access_token st) rr b en2 = (out, b', en4)" by (metis prod.collapse)
  define c2 where "c2 = c\<lparr>ag_conversations := write_blobs entry b' (write_blobs entry b convs)\<rparr>"
  have "client_net (c\<lparr>ag_conversations := convs\<rparr>) net = client_net c net"
    and "client_version_or_default (c\<lparr>ag_conversations := convs\<rparr>) = client_version_or_default c" for net
    by (simp_all add: client_net_def static_header_round_trip_def client_version_or_default_def client_version_def)
  then have fin: "finish_run env chatReq cid out c2 en4 = (r, c', en')"
    using run executor_run_of [OF q acc id acq] build stream by (simp add: run_conversation_def c2_def)
  have c2: "map_of (cc_entries (ag_conversations c2)) cid = Some entry" "cc_heap (ag_conversations c2) (ce_blobs entry) = b'"
    using entry by (simp_all add: c2_def write_blobs_def)
  obtain e where e: "map_of (cc_entries (ag_conversations c')) cid = Some e" "ce_blobs e = ce_blobs entry"
    "is_ok r \<Longrightarrow> result_checkpoint out \<noteq> None \<Longrightarrow> ce_checkpoint e = result_checkpoint out"
  proof (cases "is_ok r")
    case True
    from store_checkpoint_entry [OF c2(1)] show thesis
      using finish_run_checkpoint [OF fin True] by (metis that option.case_eq_if option.collapse)
  next
    case False
    from finish_run_stores [OF fin] show thesis
      using c2(1) store_checkpoint_entry [OF c2(1)] False by (metis that)
  qed
  have "cc_heap (ag_conversations c') = cc_heap (ag_conversations c2)" using finish_run_stores [OF fin] by auto
  then have "deref_blobs (ag_conversations c') e = b'" using c2(2) e(2) by (simp add: deref_blobs_def)
  then show thesis
    using that [OF q id build_request_base(1) [OF build \<open>cid \<noteq> []\<close>] stream e(1) _ run_cursor_stream_sets [OF stream] e(3)] by simp
qed

text \<open>
  C6: A conversation goes on where it stopped. When a second request continues the messages of a first one, and both get as far
  as sending a run request, then both are sent under the same conversation id; the state the second one is sent with is the
  checkpoint of the cache's entry, which is the one the server gave in the first exchange if that run succeeded and had one; and every
  blob id the first request could be served under is still known in the store the second one is served from.
\<close>

theorem next_request_continues:
  assumes "cache_ok (ag_conversations c)" and "valid_order (re_order env)" and "0 < re_acquired_at env" and "0 < re_stored_at env"
    and "valid_order (re_order env')" and "0 < re_acquired_at env'"
    and run: "executor_run env req c en = (r, c', en1)" and sent: "sent_request env req c en = Some (rr, b)"
    and sent': "sent_request env' req' c' en' = Some (rr', b')"
    and "request_of req = Ok q" and "request_of req' = Ok q'" and more: "cr_messages q' = cr_messages q @ later"
    and user: "first_of_role ''user'' (cr_messages q) \<noteq> None"
    and system: "first_of_role ''system'' (cr_messages q) \<noteq> None \<or> first_of_role ''system'' later = None"
  shows "\<exists>cid e. arr_conversation_id rr = Some cid \<and> arr_conversation_id rr' = Some cid
    \<and> map_of (cc_entries (ag_conversations c')) cid = Some e
    \<and> cs_other (arr_conversation_state rr') = (case ce_checkpoint e of Some cp \<Rightarrow> cs_other cp | None \<Rightarrow> [])
    \<and> (\<exists>tok en2 out b1 en3. run_cursor_stream (re_lib env) (client_net c (re_net env)) (client_version_or_default c)
          (ag_base_url c) tok rr b en2 = (out, b1, en3)
        \<and> (is_ok r \<and> result_checkpoint out \<noteq> None \<longrightarrow> ce_checkpoint e = result_checkpoint out))
    \<and> (\<forall>k. blob_get b k \<noteq> None \<longrightarrow> blob_get b' k \<noteq> None)"
proof (rule run_leaves [OF assms(1-4) run sent])
  fix cid chatReq en2 tok en3 en4 out b1 en5 e
  assume q: "request_of req = Ok chatReq" and id: "conversation_id_for (cr_messages chatReq) en = (cid, en2)"
    and rr: "arr_conversation_id rr = Some cid"
    and stream: "run_cursor_stream (re_lib env) (client_net c (re_net env)) (client_version_or_default c) (ag_base_url c) tok rr b en4
      = (out, b1, en5)"
    and e: "map_of (cc_entries (ag_conversations c')) cid = Some e" "deref_blobs (ag_conversations c') e = b1" and b1: "sets b b1"
    and cp: "is_ok r \<Longrightarrow> result_checkpoint out \<noteq> None \<Longrightarrow> ce_checkpoint e = result_checkpoint out"
  obtain st cid' en6 entry convs en7 where id': "conversation_id_for (cr_messages q') en' = (cid', en6)"
    and acq: "acquire (re_order env') (re_acquired_at env') cid' (ag_conversations c') = (entry, convs)"
    and build: "build_agent_run_request (re_lib env') (re_aliases env') q' cid' (ce_checkpoint entry) en6 (deref_blobs convs entry)
      = (Ok rr', b', en7)"
    by (rule sent_request_parts [OF sent']) (use assms(11) in auto)
  have "cid' = cid"
    using conversation_id_stable [OF user system, of en' en] id id' q assms(10) more by simp
  then have ne: "cid \<noteq> []" using conversation_id_nonempty [of "cr_messages chatReq" en] id by simp
  have "cache_ok (ag_conversations c')" using executor_run_keeps_cache [OF assms(1-4) run] by simp
  from acquire_facts [OF this assms(5) ne assms(6) acq [unfolded \<open>cid' = cid\<close>]]
  have entry: "deref_blobs convs entry = b1" "ce_checkpoint entry = ce_checkpoint e" using e by simp_all
  obtain ds where "b' = blobs.put_all (puts ds) b1" using build_puts [OF build] entry(1) by blast
  moreover obtain ws where "b1 = blobs.put_all ws b" using b1 unfolding sets_def by blast
  ultimately have known: "\<forall>k. blob_get b k \<noteq> None \<longrightarrow> blob_get b' k \<noteq> None" using put_all_keeps by blast
  note base = build_request_base [OF build [unfolded \<open>cid' = cid\<close>] ne]
  show ?thesis
    by (intro exI [of _ cid] exI [of _ e] conjI exI [of _ tok] exI [of _ en4] exI [of _ out] exI [of _ b1] exI [of _ en5])
       (use rr base e(1) entry(2) stream cp known in simp_all)
qed

definition example_chat :: chat_completions_request where
  "example_chat = \<lparr>cr_model = ''m'', cr_stream = False, cr_messages = [zero_message\<lparr>cm_role := ''user'', cm_content := ''hi''\<rparr>],
     cr_tools = []\<rparr>"

lemma example_request_of: "request_of example_executor_request = Ok example_chat"
  by (simp add: request_of_def example_decodes example_chat_def go_simps)

lemma example_sends:
  assumes "ag_accounts c = ag_accounts example_client"
  obtains rr b where "sent_request example_env example_executor_request c zero_entropy = Some (rr, b)"
proof -
  have acc: "account_get (ag_accounts c) (er_auth_id example_executor_request)
      = (zero_account\<lparr>as_access_token := ''tok'', as_status := status_active\<rparr>, None)"
    by (simp add: assms example_client_def new_agent_client_def account_set_def account_get_def zero_account_def
        example_executor_request_def new_account_store_def)
  obtain cid where cid: "conversation_id_for (cr_messages example_chat) zero_entropy = (cid, zero_entropy)"
    by (simp add: conversation_id_for_def zero_message_def example_chat_def)
  obtain entry convs where acq: "acquire (re_order example_env) (re_acquired_at example_env) cid (ag_conversations c) = (entry, convs)"
    by (metis prod.collapse)
  obtain rr b where build: "build_agent_run_request ending_lib native_tool_aliases example_chat cid (ce_checkpoint entry) zero_entropy
      (deref_blobs convs entry) = (Ok rr, b, zero_entropy)"
    using example_builds [of native_tool_aliases cid "ce_checkpoint entry" "deref_blobs convs entry"] unfolding example_chat_def by blast
  have lib: "re_lib example_env = ending_lib" "re_aliases example_env = native_tool_aliases" by (simp_all add: example_env_def)
  show thesis
    by (rule that [of rr b]) (simp add: sent_request_def example_request_of acc cid acq build lib)
qed

lemma next_request_continues_witness:
  "\<exists>c' rr b rr' b' cid. sent_request example_env example_executor_request example_client zero_entropy = Some (rr, b)
     \<and> c' = fst (snd (executor_run example_env example_executor_request example_client zero_entropy))
     \<and> sent_request example_env example_executor_request c' zero_entropy = Some (rr', b')
     \<and> arr_conversation_id rr = Some cid \<and> arr_conversation_id rr' = Some cid"
proof -
  obtain r c' en' where run: "executor_run example_env example_executor_request example_client zero_entropy = (r, c', en')"
    by (metis prod.collapse)
  have env: "valid_order (re_order example_env)" "0 < re_acquired_at example_env" "0 < re_stored_at example_env"
    by (simp_all add: example_env_def valid_order_def)
  have c: "cache_ok (ag_conversations example_client)" by (simp add: example_client_def new_agent_client_def)
  have "ag_accounts c' = ag_accounts example_client" using executor_run_keeps_cache [OF c env run] by simp
  then obtain rr' b' where sent': "sent_request example_env example_executor_request c' zero_entropy = Some (rr', b')"
    by (rule example_sends)
  obtain rr b where sent: "sent_request example_env example_executor_request example_client zero_entropy = Some (rr, b)"
    by (rule example_sends [OF refl])
  have "first_of_role ''user'' (cr_messages example_chat) \<noteq> None" by (simp add: example_chat_def zero_message_def)
  moreover have "first_of_role ''system'' [] = None" by simp
  ultimately obtain cid where "arr_conversation_id rr = Some cid" "arr_conversation_id rr' = Some cid"
    using next_request_continues [OF c env env(1,2) run sent sent' example_request_of example_request_of, of "[]"] by auto
  then show ?thesis using run sent sent' by auto
qed

end
