(* ===== verification/Exchange_Life.thy ===== *)
theory Exchange_Life
  imports Writers
begin

section \<open>The goroutines of an exchange\<close>

text \<open>
  One exchange (\<open>runCursorStreamOnce\<close> in \<open>internal/executor/stream.go\<close>) is three goroutines: the call itself, which dials, reads and
  answers, and in the end runs its deferred functions; the writer of the initial request, which then waits to be released; and the
  heartbeat. They wait for each other through the writer's mutex, the pipe, three channels, and the context, which the caller, the idle
  watchdog and the overall deadline cancel. \<open>Writers\<close> has the bytes they write; here are the places where they wait.
\<close>

subsection \<open>The deferred functions\<close>

datatype deferred = CloseBody | SignalRelease | ClosePipeReader | AwaitWriter | CloseKv | StopHeartbeat | StopIdleTimer | CancelStream

text \<open>In the order of the \<open>defer\<close> statements; the body is there to be closed once the server has responded.\<close>

definition registered_defers :: "bool \<Rightarrow> deferred list" where
  "registered_defers responded =
     [CancelStream, StopIdleTimer, StopHeartbeat, CloseKv, AwaitWriter, ClosePipeReader, SignalRelease]
     @ (if responded then [CloseBody] else [])"

text \<open>Go runs them last in, first out.\<close>

definition run_defers :: "bool \<Rightarrow> deferred list" where
  "run_defers responded = rev (registered_defers responded)"

subsection \<open>States\<close>

text \<open>
  Where a goroutine is. In \<open>PipeWriter.Write\<close>, \<open>Entering\<close> is before its look whether the pipe is closed, \<open>Queued\<close> the wait for
  the pipe's own lock, \<open>Sending\<close> the wait for a reader or the close.
\<close>

datatype location =
    Dialing | Reading | Returning "deferred list"
  | AwaitingRelease | Recording | ClosingPipe
  | Ticking
  | Locking | Entering | Queued | Sending
  | Gone

record exchange_run =
  xr_at :: "writer \<Rightarrow> location"
  xr_mutex :: "writer option"
  xr_gate :: "writer option"
  xr_pipe_done :: bool
  xr_kv_closed :: bool
  xr_release :: bool
  xr_heartbeat_done :: bool
  xr_cancelled :: bool
  xr_now :: time
  xr_last_bytes :: time
  xr_idle_at :: "time option"
  xr_max_at :: "time option"

definition stream_idle_timeout :: time where
  "stream_idle_timeout = 90 * second"

definition stream_max_duration :: time where
  "stream_max_duration = 10 * 60 * second"

definition exchange_start :: "time \<Rightarrow> exchange_run" where
  "exchange_start t = \<lparr>xr_at = (\<lambda>w. case w of InitialWriter \<Rightarrow> Entering | ReadLoop \<Rightarrow> Dialing | Heartbeat \<Rightarrow> Ticking),
     xr_mutex = None, xr_gate = None, xr_pipe_done = False, xr_kv_closed = False, xr_release = False, xr_heartbeat_done = False,
     xr_cancelled = False, xr_now = t, xr_last_bytes = t, xr_idle_at = Some (t + stream_idle_timeout),
     xr_max_at = Some (t + stream_max_duration)\<rparr>"

definition move :: "writer \<Rightarrow> location \<Rightarrow> exchange_run \<Rightarrow> exchange_run" where
  "move w l s = s\<lparr>xr_at := (xr_at s)(w := l)\<rparr>"

text \<open>Where a write leads. \<open>kvWriter.write\<close> unlocks; a failed reply ends the call, a failed heartbeat the ticker.\<close>

fun write_returns :: "writer \<Rightarrow> bool \<Rightarrow> exchange_run \<Rightarrow> exchange_run" where
  "write_returns InitialWriter ok s = move InitialWriter (if ok then AwaitingRelease else Recording) s"
| "write_returns ReadLoop ok s = move ReadLoop (if ok then Reading else Returning (run_defers True)) (s\<lparr>xr_mutex := None\<rparr>)"
| "write_returns Heartbeat ok s = move Heartbeat (if ok then Ticking else Gone) (s\<lparr>xr_mutex := None\<rparr>)"

text \<open>A deferred function; \<open>None\<close> as long as it waits.\<close>

fun run_deferred :: "deferred \<Rightarrow> exchange_run \<Rightarrow> exchange_run option" where
  "run_deferred CloseBody s = Some s"
| "run_deferred SignalRelease s = Some (s\<lparr>xr_release := True\<rparr>)"
| "run_deferred ClosePipeReader s = Some (s\<lparr>xr_pipe_done := True\<rparr>)"
| "run_deferred AwaitWriter s = (if xr_at s InitialWriter = Gone then Some s else None)"
| "run_deferred CloseKv s = (if xr_mutex s = None then Some (s\<lparr>xr_kv_closed := True\<rparr>) else None)"
| "run_deferred StopHeartbeat s = Some (s\<lparr>xr_heartbeat_done := True\<rparr>)"
| "run_deferred StopIdleTimer s = Some (s\<lparr>xr_idle_at := None\<rparr>)"
| "run_deferred CancelStream s = Some (s\<lparr>xr_cancelled := True, xr_max_at := None\<rparr>)"

subsection \<open>Steps\<close>

text \<open>
  What happens whatever the server does: the goroutines' own steps, and the transport's documented answer to a cancelled context,
  which is to fail the call or the read and to close the request body.
\<close>

inductive own_step :: "exchange_run \<Rightarrow> exchange_run \<Rightarrow> bool" where
  own_lock: "w \<noteq> InitialWriter \<Longrightarrow> xr_at s w = Locking \<Longrightarrow> xr_mutex s = None \<Longrightarrow>
    own_step s (if xr_kv_closed s then write_returns w False s else move w Entering (s\<lparr>xr_mutex := Some w\<rparr>))"
| own_enter: "xr_at s w = Entering \<Longrightarrow>
    own_step s (if xr_pipe_done s then write_returns w False s else move w Queued s)"
| own_gate: "xr_at s w = Queued \<Longrightarrow> xr_gate s = None \<Longrightarrow> own_step s (move w Sending (s\<lparr>xr_gate := Some w\<rparr>))"
| own_write_fails: "xr_at s w = Sending \<Longrightarrow> xr_pipe_done s \<Longrightarrow> own_step s (write_returns w False (s\<lparr>xr_gate := None\<rparr>))"
| own_record: "xr_at s InitialWriter = Recording \<Longrightarrow> xr_mutex s = None \<Longrightarrow> own_step s (move InitialWriter ClosingPipe s)"
| own_released: "xr_at s InitialWriter = AwaitingRelease \<Longrightarrow> xr_release s \<Longrightarrow> own_step s (move InitialWriter ClosingPipe s)"
| own_close_pipe: "xr_at s InitialWriter = ClosingPipe \<Longrightarrow> own_step s (move InitialWriter Gone (s\<lparr>xr_pipe_done := True\<rparr>))"
| own_heartbeat_ends: "xr_at s Heartbeat = Ticking \<Longrightarrow> xr_heartbeat_done s \<or> xr_cancelled s \<Longrightarrow> own_step s (move Heartbeat Gone s)"
| own_abort_call: "xr_at s ReadLoop = Dialing \<Longrightarrow> xr_cancelled s \<Longrightarrow> own_step s (move ReadLoop (Returning (run_defers False)) s)"
| own_abort_read: "xr_at s ReadLoop = Reading \<Longrightarrow> xr_cancelled s \<Longrightarrow> own_step s (move ReadLoop (Returning (run_defers True)) s)"
| own_abort_body: "xr_cancelled s \<Longrightarrow> \<not> xr_pipe_done s \<Longrightarrow> own_step s (s\<lparr>xr_pipe_done := True\<rparr>)"
| own_defer: "xr_at s ReadLoop = Returning (d # ds) \<Longrightarrow> run_deferred d s = Some s' \<Longrightarrow> own_step s (move ReadLoop (Returning ds) s')"
| own_return: "xr_at s ReadLoop = Returning [] \<Longrightarrow> own_step s (move ReadLoop Gone s)"

text \<open>
  What the server, the transport, the caller and the clock may do. Time does not pass a timer that is due: \<open>AfterFunc\<close> and
  the context's deadline run in goroutines of their own.
\<close>

inductive outside_step :: "exchange_run \<Rightarrow> exchange_run \<Rightarrow> bool" where
  out_responds: "xr_at s ReadLoop = Dialing \<Longrightarrow> outside_step s (move ReadLoop Reading s)"
| out_call_fails: "xr_at s ReadLoop = Dialing \<Longrightarrow> outside_step s (move ReadLoop (Returning (run_defers False)) s)"
| out_bad_status: "xr_at s ReadLoop = Dialing \<Longrightarrow> outside_step s (move ReadLoop (Returning (run_defers True)) s)"
| out_bytes: "xr_at s ReadLoop = Reading \<Longrightarrow>
    outside_step s (s\<lparr>xr_last_bytes := xr_now s, xr_idle_at := Some (xr_now s + stream_idle_timeout)\<rparr>)"
| out_asks: "xr_at s ReadLoop = Reading \<Longrightarrow> outside_step s (move ReadLoop Locking s)"
| out_ends: "xr_at s ReadLoop = Reading \<Longrightarrow> outside_step s (move ReadLoop (Returning (run_defers True)) s)"
| out_tick: "xr_at s Heartbeat = Ticking \<Longrightarrow> outside_step s (move Heartbeat Locking s)"
| out_tick_fails: "xr_at s Heartbeat = Ticking \<Longrightarrow> outside_step s (move Heartbeat Gone s)"
| out_taken: "xr_at s w = Sending \<Longrightarrow> \<not> xr_pipe_done s \<Longrightarrow> outside_step s (write_returns w True (s\<lparr>xr_gate := None\<rparr>))"
| out_body_closed: "outside_step s (s\<lparr>xr_pipe_done := True\<rparr>)"
| out_caller_cancels: "outside_step s (s\<lparr>xr_cancelled := True\<rparr>)"
| out_idle: "xr_idle_at s = Some t \<Longrightarrow> t \<le> xr_now s \<Longrightarrow> outside_step s (s\<lparr>xr_cancelled := True, xr_idle_at := None\<rparr>)"
| out_deadline: "xr_max_at s = Some t \<Longrightarrow> t \<le> xr_now s \<Longrightarrow> outside_step s (s\<lparr>xr_cancelled := True, xr_max_at := None\<rparr>)"
| out_time: "xr_now s \<le> t \<Longrightarrow> (\<forall>u. xr_idle_at s = Some u \<longrightarrow> t \<le> u) \<Longrightarrow> (\<forall>u. xr_max_at s = Some u \<longrightarrow> t \<le> u) \<Longrightarrow>
    outside_step s (s\<lparr>xr_now := t\<rparr>)"

definition exchange_reachable :: "time \<Rightarrow> exchange_run \<Rightarrow> bool" where
  "exchange_reachable t = (\<lambda>s s'. own_step s s' \<or> outside_step s s')\<^sup>*\<^sup>* (exchange_start t)"

subsection \<open>The invariant\<close>

definition busy :: "location \<Rightarrow> bool" where
  "busy l = (l \<in> {Entering, Queued, Sending})"

definition returning :: "exchange_run \<Rightarrow> bool" where
  "returning s = (xr_at s ReadLoop = Gone \<or> (\<exists>ds. xr_at s ReadLoop = Returning ds))"

definition deferred_left :: "exchange_run \<Rightarrow> deferred list" where
  "deferred_left s = (case xr_at s ReadLoop of Returning ds \<Rightarrow> ds | Gone \<Rightarrow> [] | _ \<Rightarrow> run_defers True)"

definition locks_ok :: "exchange_run \<Rightarrow> bool" where
  "locks_ok s = ((\<forall>w. xr_mutex s = Some w \<longleftrightarrow> w \<noteq> InitialWriter \<and> busy (xr_at s w))
     \<and> (\<forall>w. xr_gate s = Some w \<longleftrightarrow> xr_at s w = Sending))"

definition places_ok :: "exchange_run \<Rightarrow> bool" where
  "places_ok s = ((returning s \<or> busy (xr_at s ReadLoop) \<or> xr_at s ReadLoop \<in> {Dialing, Reading, Locking})
     \<and> (busy (xr_at s InitialWriter) \<or> xr_at s InitialWriter \<in> {AwaitingRelease, Recording, ClosingPipe, Gone})
     \<and> (busy (xr_at s Heartbeat) \<or> xr_at s Heartbeat \<in> {Ticking, Locking, Gone}))"

fun achieved :: "deferred \<Rightarrow> exchange_run \<Rightarrow> bool" where
  "achieved SignalRelease s = xr_release s"
| "achieved ClosePipeReader s = xr_pipe_done s"
| "achieved AwaitWriter s = (xr_at s InitialWriter = Gone)"
| "achieved CloseKv s = xr_kv_closed s"
| "achieved StopHeartbeat s = xr_heartbeat_done s"
| "achieved CancelStream s = xr_cancelled s"
| "achieved d s = True"

definition defers_ok :: "exchange_run \<Rightarrow> bool" where
  "defers_ok s = ((\<exists>n. deferred_left s = drop n (run_defers True)) \<and> (\<forall>d. d \<in> set (deferred_left s) \<or> achieved d s))"

definition timers_ok :: "time \<Rightarrow> exchange_run \<Rightarrow> bool" where
  "timers_ok t s = (xr_last_bytes s \<le> xr_now s
     \<and> (case xr_idle_at s of None \<Rightarrow> xr_cancelled s \<or> returning s
        | Some u \<Rightarrow> u = xr_last_bytes s + stream_idle_timeout \<and> xr_now s \<le> u)
     \<and> (case xr_max_at s of None \<Rightarrow> xr_cancelled s | Some u \<Rightarrow> u = t + stream_max_duration \<and> xr_now s \<le> u))"

definition exchange_ok :: "time \<Rightarrow> exchange_run \<Rightarrow> bool" where
  "exchange_ok t s = (locks_ok s \<and> places_ok s \<and> defers_ok s \<and> timers_ok t s)"

lemma move_simps [simp]:
  "xr_at (move w l s) = (xr_at s)(w := l)" "xr_mutex (move w l s) = xr_mutex s" "xr_gate (move w l s) = xr_gate s"
  "xr_pipe_done (move w l s) = xr_pipe_done s" "xr_kv_closed (move w l s) = xr_kv_closed s" "xr_release (move w l s) = xr_release s"
  "xr_heartbeat_done (move w l s) = xr_heartbeat_done s" "xr_cancelled (move w l s) = xr_cancelled s" "xr_now (move w l s) = xr_now s"
  "xr_last_bytes (move w l s) = xr_last_bytes s" "xr_idle_at (move w l s) = xr_idle_at s" "xr_max_at (move w l s) = xr_max_at s"
  by (simp_all add: move_def)

lemma run_defers_list: "run_defers True = [CloseBody, SignalRelease, ClosePipeReader, AwaitWriter, CloseKv, StopHeartbeat, StopIdleTimer, CancelStream]"
  by (simp add: run_defers_def registered_defers_def)

lemma all_deferred: "d \<in> set (run_defers True)"
  by (cases d) (simp_all add: run_defers_list)

lemma run_defers_suffix: "\<exists>n. run_defers b = drop n (run_defers True)"
  by (cases b) (auto simp: run_defers_def registered_defers_def intro: exI [of _ 0] exI [of _ 1])

lemma timeouts_positive [simp]: "0 < stream_idle_timeout" "0 < stream_max_duration"
  by (simp_all add: stream_idle_timeout_def stream_max_duration_def second_def)

lemmas exchange_defs = locks_ok_def places_ok_def defers_ok_def timers_ok_def returning_def deferred_left_def busy_def

lemma exchange_ok_start: "exchange_ok t (exchange_start t)"
  unfolding exchange_ok_def
  using all_deferred by (auto simp: exchange_defs exchange_start_def less_imp_le split: writer.split intro: exI [of _ 0])

lemma defers_start:
  assumes "defers_ok s" and "\<not> returning s" shows "defers_ok (move ReadLoop (Returning (run_defers b)) s)"
proof -
  have "d \<in> set (run_defers b) \<or> d = CloseBody" for d
    by (cases d; cases b) (simp_all add: run_defers_def registered_defers_def)
  then have "d \<in> set (run_defers b) \<or> achieved d t" for d t by (metis achieved.simps(7))
  then show ?thesis using run_defers_suffix [of b] by (simp add: defers_ok_def deferred_left_def)
qed

lemma all_writers: "(\<forall>w. P w) = (P InitialWriter \<and> P ReadLoop \<and> P Heartbeat)"
  by (metis writer.exhaust)

lemma run_deferred_keeps:
  assumes "run_deferred d s = Some s'"
  shows "xr_at s' = xr_at s" "xr_mutex s' = xr_mutex s" "xr_gate s' = xr_gate s"
  using assms by (cases d; auto split: if_splits)+

lemma locks_own: "own_step s t \<Longrightarrow> locks_ok s \<Longrightarrow> locks_ok t"
proof (induction rule: own_step.induct)
  case (own_defer s d ds s')
  then show ?case using run_deferred_keeps [OF own_defer(2)] by (simp add: locks_ok_def busy_def all_writers)
next
  case (own_lock w s)
  then show ?case by (cases w) (auto simp: locks_ok_def busy_def all_writers)
next
  case (own_enter s w)
  then show ?case by (cases w) (auto simp: locks_ok_def busy_def all_writers)
next
  case (own_gate s w)
  then show ?case by (cases w) (auto simp: locks_ok_def busy_def all_writers)
next
  case (own_write_fails s w)
  then show ?case by (cases w) (auto simp: locks_ok_def busy_def all_writers)
qed (auto simp: locks_ok_def busy_def all_writers)

lemma locks_outside: "outside_step s t \<Longrightarrow> locks_ok s \<Longrightarrow> locks_ok t"
proof (induction rule: outside_step.induct)
  case (out_taken s w)
  then show ?case by (cases w) (auto simp: locks_ok_def busy_def all_writers)
qed (auto simp: locks_ok_def busy_def all_writers)

lemma places_own: "own_step s t \<Longrightarrow> places_ok s \<Longrightarrow> places_ok t"
proof (induction rule: own_step.induct)
  case (own_defer s d ds s')
  then show ?case using run_deferred_keeps [OF own_defer(2)] by (simp add: places_ok_def busy_def returning_def)
next
  case (own_lock w s)
  then show ?case by (cases w) (auto simp: places_ok_def busy_def returning_def)
next
  case (own_enter s w)
  then show ?case by (cases w) (auto simp: places_ok_def busy_def returning_def)
next
  case (own_gate s w)
  then show ?case by (cases w) (auto simp: places_ok_def busy_def returning_def)
next
  case (own_write_fails s w)
  then show ?case by (cases w) (auto simp: places_ok_def busy_def returning_def)
qed (auto simp: places_ok_def busy_def returning_def)

lemma places_outside: "outside_step s t \<Longrightarrow> places_ok s \<Longrightarrow> places_ok t"
proof (induction rule: outside_step.induct)
  case (out_taken s w)
  then show ?case by (cases w) (auto simp: places_ok_def busy_def returning_def)
qed (auto simp: places_ok_def busy_def returning_def)

lemma defers_same:
  assumes "defers_ok s" and "deferred_left t = deferred_left s"
    and "xr_release s \<longrightarrow> xr_release t" and "xr_pipe_done s \<longrightarrow> xr_pipe_done t" and "xr_kv_closed t = xr_kv_closed s"
    and "xr_heartbeat_done t = xr_heartbeat_done s" and "xr_cancelled s \<longrightarrow> xr_cancelled t"
    and "xr_at s InitialWriter = Gone \<longrightarrow> xr_at t InitialWriter = Gone"
  shows "defers_ok t"
proof -
  have "achieved d s \<Longrightarrow> achieved d t" for d using assms(3-8) by (cases d) simp_all
  then show ?thesis using assms(1,2) unfolding defers_ok_def by metis
qed

lemma run_deferred_achieves:
  assumes "run_deferred d s = Some s'" shows "achieved d s'" and "achieved e s \<Longrightarrow> achieved e s'"
proof -
  show "achieved d s'" using assms by (cases d) (auto split: if_splits)
  show "achieved e s \<Longrightarrow> achieved e s'" using assms by (cases e; cases d) (auto split: if_splits)
qed

lemma write_returns_left:
  assumes "defers_ok s" and "busy (xr_at s w) \<or> xr_at s w = Locking" shows "defers_ok (write_returns w ok (s\<lparr>xr_gate := g\<rparr>))"
proof (cases w)
  case ReadLoop
  then have nr: "\<not> returning s" using assms(2) by (auto simp: busy_def returning_def)
  show ?thesis
  proof (cases ok)
    case True
    then show ?thesis using assms nr ReadLoop
      by (intro defers_same [OF assms(1)]) (auto simp: deferred_left_def returning_def split: location.splits)
  next
    case False
    then show ?thesis using ReadLoop by (auto simp: defers_ok_def deferred_left_def all_deferred intro: exI [of _ 0])
  qed
next
  case InitialWriter
  then show ?thesis using assms by (intro defers_same [OF assms(1)]) (auto simp: deferred_left_def busy_def)
next
  case Heartbeat
  then show ?thesis using assms by (intro defers_same [OF assms(1)]) (auto simp: deferred_left_def)
qed

lemma busy_left:
  assumes "defers_ok s" and "xr_at s w \<in> {Locking, Entering, Queued}" and "busy l"
  shows "defers_ok (move w l (s\<lparr>xr_mutex := m, xr_gate := g\<rparr>))"
  using assms by (cases w; intro defers_same [OF assms(1)]) (auto simp: deferred_left_def busy_def)

lemma defers_own: "own_step s t \<Longrightarrow> defers_ok s \<Longrightarrow> defers_ok t"
proof (induction rule: own_step.induct)
  case (own_defer s d ds s')
  obtain n where n: "d # ds = drop n (run_defers True)"
    using own_defer by (auto simp: defers_ok_def deferred_left_def)
  then have "ds = drop (Suc n) (run_defers True)" by (metis drop_Suc list.sel(3) tl_drop)
  moreover have "e \<in> set ds \<or> achieved e s'" for e
  proof -
    have "e = d \<or> e \<in> set ds \<or> achieved e s"
      using own_defer(1,3) by (auto simp: defers_ok_def deferred_left_def)
    then show ?thesis using run_deferred_achieves [OF own_defer(2)] by blast
  qed
  moreover have "achieved e (move ReadLoop l s') = achieved e s'" for e l by (cases e) simp_all
  ultimately show ?case by (auto simp: defers_ok_def deferred_left_def)
next
  case (own_lock w s)
  then show ?case using write_returns_left [of s w False "xr_gate s"] busy_left [of s w Entering "xr_gate s" "Some w"]
    by (auto simp: busy_def)
next
  case (own_enter s w)
  then show ?case using write_returns_left [of s w False "xr_gate s"] busy_left [of s w Queued "xr_gate s" "xr_mutex s"]
    by (auto simp: busy_def)
next
  case (own_gate s w)
  then show ?case using busy_left [of s w Sending "Some w" "xr_mutex s"] by (auto simp: busy_def)
next
  case (own_write_fails s w)
  then show ?case using write_returns_left [of s w False None] by (auto simp: busy_def)
next
  case (own_abort_call s)
  then show ?case by (intro defers_start) (auto simp: returning_def)
next
  case (own_abort_read s)
  then show ?case by (intro defers_start) (auto simp: returning_def)
next
  case (own_return s)
  then show ?case by (intro defers_same [OF own_return(2)]) (auto simp: deferred_left_def)
qed (auto intro: defers_same simp: deferred_left_def)

lemma defers_outside: "outside_step s t \<Longrightarrow> defers_ok s \<Longrightarrow> defers_ok t"
proof (induction rule: outside_step.induct)
  case (out_taken s w)
  then show ?case using write_returns_left [of s w True None] by (auto simp: busy_def)
next
  case (out_call_fails s)
  then show ?case by (intro defers_start) (auto simp: returning_def)
next
  case (out_bad_status s)
  then show ?case by (intro defers_start) (auto simp: returning_def)
next
  case (out_ends s)
  then show ?case by (intro defers_start) (auto simp: returning_def)
qed (auto intro: defers_same simp: deferred_left_def)

lemma write_returns_simps [simp]:
  "xr_now (write_returns w ok s) = xr_now s" "xr_last_bytes (write_returns w ok s) = xr_last_bytes s"
  "xr_idle_at (write_returns w ok s) = xr_idle_at s" "xr_max_at (write_returns w ok s) = xr_max_at s"
  "xr_cancelled (write_returns w ok s) = xr_cancelled s" "xr_pipe_done (write_returns w ok s) = xr_pipe_done s"
  "xr_kv_closed (write_returns w ok s) = xr_kv_closed s" "xr_release (write_returns w ok s) = xr_release s"
  by (cases w; simp)+

lemma write_returns_returning: "returning s \<Longrightarrow> w \<noteq> ReadLoop \<Longrightarrow> returning (write_returns w ok s)"
  by (cases w) (auto simp: returning_def)

lemma timers_own: "own_step s t' \<Longrightarrow> timers_ok t s \<Longrightarrow> timers_ok t t'"
proof (induction rule: own_step.induct)
  case (own_defer s d ds s')
  then show ?case by (cases d) (auto simp: timers_ok_def returning_def split: option.splits if_splits)
next
  case (own_lock w s)
  then show ?case by (cases w) (auto simp: timers_ok_def returning_def split: option.splits)
next
  case (own_enter s w)
  then show ?case by (cases w) (auto simp: timers_ok_def returning_def split: option.splits)
next
  case (own_gate s w)
  then show ?case by (cases w) (auto simp: timers_ok_def returning_def split: option.splits)
next
  case (own_write_fails s w)
  then show ?case by (cases w) (auto simp: timers_ok_def returning_def split: option.splits)
qed (auto simp: timers_ok_def returning_def split: option.splits)

lemma timers_outside: "outside_step s t' \<Longrightarrow> timers_ok t s \<Longrightarrow> timers_ok t t'"
proof (induction rule: outside_step.induct)
  case (out_taken s w)
  then show ?case by (cases w) (auto simp: timers_ok_def returning_def split: option.splits)
qed (auto simp: timers_ok_def returning_def less_imp_le split: option.splits)

interpretation exchange: machine "exchange_start t" "\<lambda>s s'. own_step s s' \<or> outside_step s s'" "exchange_ok t" for t
proof
  show "exchange_ok t (exchange_start t)" by (rule exchange_ok_start)
  show "exchange_ok t s'" if "own_step s s' \<or> outside_step s s'" and "exchange_ok t s" for s s'
    using that locks_own locks_outside places_own places_outside defers_own defers_outside timers_own timers_outside
    unfolding exchange_ok_def by blast
qed

lemma exchange_reachable_ok: "exchange_reachable t s \<Longrightarrow> exchange_ok t s"
  unfolding exchange_reachable_def by (rule exchange.reachable_inv)

subsection \<open>Progress\<close>

lemma keepers_progress:
  assumes "locks_ok s" and "xr_pipe_done s" and "busy (xr_at s w)" shows "\<exists>t. own_step s t"
proof (cases "xr_at s w = Queued")
  case True
  show ?thesis
  proof (cases "xr_gate s")
    case None
    then show ?thesis using True own_gate by blast
  next
    case (Some v)
    then have "xr_at s v = Sending" using assms(1) unfolding locks_ok_def by blast
    then show ?thesis using assms(2) own_write_fails by blast
  qed
next
  case False
  then have "xr_at s w = Entering \<or> xr_at s w = Sending" using assms(3) by (auto simp: busy_def)
  then show ?thesis using own_enter own_write_fails [OF _ assms(2)] by blast
qed

lemma mutex_progress:
  assumes "locks_ok s" and "xr_pipe_done s" and "xr_mutex s \<noteq> None" shows "\<exists>t. own_step s t"
  using assms keepers_progress unfolding locks_ok_def by (metis not_None_eq)

lemma writer_progress:
  assumes "locks_ok s" and "places_ok s" and "xr_pipe_done s" and "xr_release s" and "xr_at s InitialWriter \<noteq> Gone"
  shows "\<exists>t. own_step s t"
  using assms(2,5) keepers_progress [OF assms(1,3), of InitialWriter] mutex_progress [OF assms(1,3)]
    own_record [of s] own_released [of s] own_close_pipe [of s] assms(4)
  unfolding places_ok_def by blast

lemma heartbeat_progress:
  assumes "locks_ok s" and "places_ok s" and "xr_pipe_done s" and "xr_heartbeat_done s \<or> xr_cancelled s" and "xr_at s Heartbeat \<noteq> Gone"
  shows "\<exists>t. own_step s t"
  using assms(2,5) keepers_progress [OF assms(1,3), of Heartbeat] mutex_progress [OF assms(1,3)]
    own_lock [of Heartbeat s] own_heartbeat_ends [of s] assms(4)
  unfolding places_ok_def by blast

lemma drop_run_defers:
  assumes "d # ds = drop n (run_defers True)"
  shows "d = AwaitWriter \<Longrightarrow> SignalRelease \<notin> set (d # ds) \<and> ClosePipeReader \<notin> set (d # ds)"
    and "d = CloseKv \<Longrightarrow> ClosePipeReader \<notin> set (d # ds)"
  using assms by (auto simp: run_defers_list drop_Cons split: nat.splits)

lemma returning_progress:
  assumes "locks_ok s" and "places_ok s" and "defers_ok s" and "xr_at s ReadLoop = Returning ds"
  shows "\<exists>t. own_step s t"
proof (cases ds)
  case Nil
  then show ?thesis using assms(4) own_return by blast
next
  case (Cons d es)
  obtain n where n: "d # es = drop n (run_defers True)" using assms(3,4) Cons by (auto simp: defers_ok_def deferred_left_def)
  have ach: "e \<notin> set (d # es) \<Longrightarrow> achieved e s" for e using assms(3,4) Cons by (auto simp: defers_ok_def deferred_left_def)
  show ?thesis
  proof (cases "run_deferred d s")
    case (Some s')
    then show ?thesis using own_defer assms(4) Cons by blast
  next
    case None
    then have "(d = AwaitWriter \<and> xr_at s InitialWriter \<noteq> Gone) \<or> (d = CloseKv \<and> xr_mutex s \<noteq> None)"
      by (cases d) (auto split: if_splits)
    then show ?thesis
    proof
      assume d: "d = AwaitWriter \<and> xr_at s InitialWriter \<noteq> Gone"
      then have "xr_release s" "xr_pipe_done s" using drop_run_defers(1) [OF n] ach [of SignalRelease] ach [of ClosePipeReader] by auto
      then show ?thesis using writer_progress assms(1,2) d by blast
    next
      assume d: "d = CloseKv \<and> xr_mutex s \<noteq> None"
      then have "xr_pipe_done s" using drop_run_defers(2) [OF n] ach [of ClosePipeReader] by auto
      then show ?thesis using mutex_progress assms(1) d by blast
    qed
  qed
qed

lemma gone_defers:
  assumes "defers_ok s" and "xr_at s ReadLoop = Gone" shows "achieved d s"
  using assms by (simp add: defers_ok_def deferred_left_def)

lemma progress:
  assumes "exchange_ok t s" and "xr_cancelled s \<or> returning s" and "\<not> (\<forall>w. xr_at s w = Gone)"
  shows "\<exists>s'. own_step s s'"
proof -
  have ok: "locks_ok s" "places_ok s" "defers_ok s" using assms(1) by (simp_all add: exchange_ok_def)
  show ?thesis
  proof (cases "returning s")
    case True
    show ?thesis
    proof (cases "xr_at s ReadLoop = Gone")
      case gone: True
      note all_done = gone_defers [OF ok(3) gone]
      have "xr_at s InitialWriter = Gone" "xr_pipe_done s" "xr_heartbeat_done s"
        using all_done [of AwaitWriter] all_done [of ClosePipeReader] all_done [of StopHeartbeat] by simp_all
      then show ?thesis using heartbeat_progress [OF ok(1,2)] assms(3) gone by (auto simp: all_writers)
    next
      case False
      then show ?thesis using True returning_progress [OF ok] unfolding returning_def by blast
    qed
  next
    case False
    then have cancelled: "xr_cancelled s" using assms(2) by simp
    show ?thesis
    proof (cases "xr_pipe_done s")
      case False
      then show ?thesis using cancelled own_abort_body by blast
    next
      case closed: True
      show ?thesis
        using False ok(2) keepers_progress [OF ok(1) closed, of ReadLoop] mutex_progress [OF ok(1) closed]
          own_lock [of ReadLoop s] own_abort_call [of s] own_abort_read [of s] cancelled
        unfolding places_ok_def by blast
    qed
  qed
qed

subsection \<open>The call returns\<close>

fun steps_left :: "location \<Rightarrow> nat" where
  "steps_left Locking = 24" | "steps_left Entering = 23" | "steps_left Queued = 22" | "steps_left Sending = 21"
| "steps_left Dialing = 20" | "steps_left Reading = 20" | "steps_left (Returning ds) = Suc (length ds)"
| "steps_left AwaitingRelease = 3" | "steps_left Recording = 3" | "steps_left ClosingPipe = 2"
| "steps_left Ticking = 1" | "steps_left Gone = 0"

definition exchange_measure :: "exchange_run \<Rightarrow> nat" where
  "exchange_measure s = steps_left (xr_at s InitialWriter) + steps_left (xr_at s ReadLoop) + steps_left (xr_at s Heartbeat)
     + (if xr_pipe_done s then 0 else 1)"

lemma length_run_defers: "length (run_defers b) \<le> 8"
  by (simp add: run_defers_def registered_defers_def)

lemma own_step_measure: "own_step s s' \<Longrightarrow> exchange_measure s' < exchange_measure s"
proof (induction rule: own_step.induct)
  case (own_lock w s)
  then show ?case using length_run_defers [of True] by (cases w) (auto simp: exchange_measure_def)
next
  case (own_enter s w)
  then show ?case using length_run_defers [of True] by (cases w) (auto simp: exchange_measure_def)
next
  case (own_gate s w)
  then show ?case by (cases w) (auto simp: exchange_measure_def)
next
  case (own_write_fails s w)
  then show ?case using length_run_defers [of True] by (cases w) (auto simp: exchange_measure_def)
next
  case (own_abort_call s)
  then show ?case using length_run_defers [of False] by (simp add: exchange_measure_def)
next
  case (own_abort_read s)
  then show ?case using length_run_defers [of True] by (simp add: exchange_measure_def)
next
  case (own_defer s d ds s')
  then show ?case
    using run_deferred_keeps [OF own_defer(2)] run_deferred_achieves(2) [OF own_defer(2), of ClosePipeReader]
    by (simp add: exchange_measure_def)
qed (simp_all add: exchange_measure_def)

interpretation own: draining own_step exchange_measure
  by unfold_locales (rule own_step_measure)

lemma own_step_keeps: "own_step s s' \<Longrightarrow> xr_cancelled s \<or> returning s \<Longrightarrow> xr_cancelled s' \<or> returning s'"
proof (induction rule: own_step.induct)
  case (own_defer s d ds s')
  then show ?case by (simp add: returning_def)
next
  case (own_lock w s)
  then show ?case by (cases w) (auto simp: returning_def)
next
  case (own_enter s w)
  then show ?case by (cases w) (auto simp: returning_def)
next
  case (own_gate s w)
  then show ?case by (cases w) (auto simp: returning_def)
next
  case (own_write_fails s w)
  then show ?case by (cases w) (auto simp: returning_def)
qed (auto simp: returning_def)

text \<open>The heartbeat is not awaited: it may still be there when the call has returned.\<close>

lemma reachable_own: "exchange_reachable t s \<Longrightarrow> own_step s s' \<Longrightarrow> exchange_reachable t s'"
  unfolding exchange_reachable_def by (erule rtranclp.rtrancl_into_rtrancl) simp

lemma reachable_defer:
  "exchange_reachable t s \<Longrightarrow> xr_at s ReadLoop = Returning (d # ds) \<Longrightarrow> run_deferred d s = Some s' \<Longrightarrow>
    exchange_reachable t (move ReadLoop (Returning ds) s')"
  by (erule reachable_own) (rule own_defer)

lemma heartbeat_outlives_call: "\<exists>s. exchange_reachable t s \<and> xr_at s ReadLoop = Gone \<and> xr_at s Heartbeat = Ticking"
proof -
  note defers = run_defers_def registered_defers_def
  define s0 where "s0 = exchange_start t"
  have at0: "xr_at s0 ReadLoop = Dialing" "xr_at s0 InitialWriter = Entering" "xr_at s0 Heartbeat = Ticking" "xr_mutex s0 = None"
    by (simp_all add: s0_def exchange_start_def)
  define s1 where "s1 = move ReadLoop (Returning (run_defers False)) s0"
  have "exchange_reachable t s1"
    using out_call_fails [OF at0(1)] unfolding exchange_reachable_def s1_def s0_def by (simp add: r_into_rtranclp)
  then have "exchange_reachable t (move ReadLoop (Returning [ClosePipeReader, AwaitWriter, CloseKv, StopHeartbeat, StopIdleTimer, CancelStream])
      (s1\<lparr>xr_release := True\<rparr>))"
    by (rule reachable_defer, simp add: s1_def defers, simp)
  then have r3: "exchange_reachable t (move ReadLoop (Returning [AwaitWriter, CloseKv, StopHeartbeat, StopIdleTimer, CancelStream])
      ((move ReadLoop (Returning [ClosePipeReader, AwaitWriter, CloseKv, StopHeartbeat, StopIdleTimer, CancelStream])
        (s1\<lparr>xr_release := True\<rparr>))\<lparr>xr_pipe_done := True\<rparr>))" (is "exchange_reachable t ?s3")
    by (rule reachable_defer, simp, simp)
  have at3: "xr_at ?s3 ReadLoop = Returning [AwaitWriter, CloseKv, StopHeartbeat, StopIdleTimer, CancelStream]"
    "xr_at ?s3 InitialWriter = Entering" "xr_at ?s3 Heartbeat = Ticking" "xr_mutex ?s3 = None" "xr_pipe_done ?s3"
    using at0 by (simp_all add: s1_def)
  define s3 where "s3 = ?s3"
  note r3 = r3 [folded s3_def] and at3 = at3 [folded s3_def]
  have "exchange_reachable t (move InitialWriter Recording s3)"
    using reachable_own [OF r3 own_enter [OF at3(2)]] at3 by simp
  then have "exchange_reachable t (move InitialWriter ClosingPipe (move InitialWriter Recording s3))"
    by (rule reachable_own) (rule own_record; simp add: at3)
  then have "exchange_reachable t (move InitialWriter Gone ((move InitialWriter ClosingPipe (move InitialWriter Recording s3))\<lparr>xr_pipe_done := True\<rparr>))"
    (is "exchange_reachable t ?s6")
    by (rule reachable_own) (rule own_close_pipe; simp)
  then have "exchange_reachable t (move ReadLoop (Returning [CloseKv, StopHeartbeat, StopIdleTimer, CancelStream]) ?s6)"
    by (rule reachable_defer, simp add: at3, simp)
  then obtain s7 where "exchange_reachable t s7" "xr_at s7 ReadLoop = Returning [CloseKv, StopHeartbeat, StopIdleTimer, CancelStream]"
    "xr_at s7 Heartbeat = Ticking" "xr_mutex s7 = None" using at3 by fastforce
  from reachable_defer [OF this(1,2)] this(3,4) obtain s8 where
    "exchange_reachable t s8" "xr_at s8 ReadLoop = Returning [StopHeartbeat, StopIdleTimer, CancelStream]" "xr_at s8 Heartbeat = Ticking" by fastforce
  from reachable_defer [OF this(1,2)] this(3) obtain s9 where
    "exchange_reachable t s9" "xr_at s9 ReadLoop = Returning [StopIdleTimer, CancelStream]" "xr_at s9 Heartbeat = Ticking" by fastforce
  from reachable_defer [OF this(1,2)] this(3) obtain s10 where
    "exchange_reachable t s10" "xr_at s10 ReadLoop = Returning [CancelStream]" "xr_at s10 Heartbeat = Ticking" by fastforce
  from reachable_defer [OF this(1,2)] this(3) obtain s11 where
    "exchange_reachable t s11" "xr_at s11 ReadLoop = Returning []" "xr_at s11 Heartbeat = Ticking" by fastforce
  from reachable_own [OF this(1) own_return [OF this(2)]] this(3) show ?thesis by fastforce
qed

text \<open>
  C5: an exchange always comes back and leaves nothing behind. From any state the exchange can reach in which the call has begun to
  return, or the context is cancelled, the goroutines come to rest after boundedly many steps of their own, whatever the server does
  or does not do; and they rest only when the call has returned, the writer and the heartbeat have ended, the pipe is closed
  and the writer refuses to write. So no order of events makes the deferred functions wait for each other. The call itself
  awaits the writer but not the heartbeat, which may still be there when it has returned.
\<close>

theorem exchange_returns:
  assumes "exchange_reachable t s" and "xr_cancelled s \<or> returning s"
  shows "(\<exists>n. \<forall>k s'. (own_step ^^ k) s s' \<longrightarrow> k \<le> n)
    \<and> (\<forall>s'. own_step\<^sup>*\<^sup>* s s' \<and> (\<nexists>u. own_step s' u) \<longrightarrow>
          (\<forall>w. xr_at s' w = Gone) \<and> xr_pipe_done s' \<and> xr_kv_closed s' \<and> xr_cancelled s')
    \<and> (\<exists>v. exchange_reachable t v \<and> xr_at v ReadLoop = Gone \<and> xr_at v Heartbeat = Ticking)"
proof (intro conjI allI impI)
  show "\<exists>v. exchange_reachable t v \<and> xr_at v ReadLoop = Gone \<and> xr_at v Heartbeat = Ticking" by (rule heartbeat_outlives_call)
next
  show "\<exists>n. \<forall>k s'. (own_step ^^ k) s s' \<longrightarrow> k \<le> n" using own.steps_bounded add_leD1 by blast
next
  fix s'
  assume rest: "own_step\<^sup>*\<^sup>* s s' \<and> (\<nexists>u. own_step s' u)"
  have "own_step\<^sup>*\<^sup>* s s'" using rest by simp
  then have "exchange_reachable t s' \<and> (xr_cancelled s' \<or> returning s')"
  proof (induction rule: rtranclp_induct)
    case base
    show ?case using assms by simp
  next
    case (step u v)
    then show ?case using own_step_keeps unfolding exchange_reachable_def by (auto intro: rtranclp.rtrancl_into_rtrancl)
  qed
  then have ok: "exchange_ok t s'" and "xr_cancelled s' \<or> returning s'" using exchange_reachable_ok by auto
  then have gone: "\<forall>w. xr_at s' w = Gone" using progress rest by blast
  show "xr_at s' w = Gone" for w using gone by simp
  have "achieved d s'" for d using gone_defers ok gone by (simp add: exchange_ok_def)
  from this [of ClosePipeReader] this [of CloseKv] this [of CancelStream]
  show "xr_pipe_done s'" "xr_kv_closed s'" "xr_cancelled s'" by simp_all
qed

lemma exchange_returns_witness:
  "\<exists>s'. own_step\<^sup>*\<^sup>* ((exchange_start 0)\<lparr>xr_cancelled := True\<rparr>) s' \<and> (\<forall>w. xr_at s' w = Gone)"
proof -
  let ?s = "(exchange_start 0)\<lparr>xr_cancelled := True\<rparr>"
  have "exchange_reachable 0 ?s"
    unfolding exchange_reachable_def by (rule r_into_rtranclp) (simp add: outside_step.out_caller_cancels)
  note returns = exchange_returns [OF this]
  obtain s' where "own_step\<^sup>*\<^sup>* ?s s'" "\<nexists>v. own_step s' v" using own.comes_to_rest by blast
  then show ?thesis using returns by fastforce
qed

text \<open>
  C17: the deadlines of an exchange. As long as the call has not begun to return and its context is not cancelled, it is at most ten minutes old
  and has had bytes within the last ninety seconds; and the timers go off only then: the watchdog is always set to ninety seconds
  after the last bytes, so a stream that keeps delivering is not cut before its ten minutes are over.
\<close>

theorem exchange_deadlines:
  assumes "exchange_reachable t s"
  shows "(xr_cancelled s \<or> returning s \<or> xr_now s \<le> t + 10 * 60 * second \<and> xr_now s \<le> xr_last_bytes s + 90 * second)
    \<and> (\<forall>u. xr_idle_at s = Some u \<longrightarrow> u = xr_last_bytes s + 90 * second)
    \<and> (\<forall>u. xr_max_at s = Some u \<longrightarrow> u = t + 10 * 60 * second)"
  using exchange_reachable_ok [OF assms]
  by (auto simp: exchange_ok_def timers_ok_def stream_idle_timeout_def stream_max_duration_def split: option.splits)

lemma exchange_deadlines_witness: "xr_idle_at (exchange_start 7) = Some (xr_last_bytes (exchange_start 7) + 90 * second)"
  using exchange_deadlines [of 7 "exchange_start 7"]
  by (simp add: exchange_reachable_def) (simp add: exchange_start_def)

end
