(* ===== verification/Service.thy ===== *)
theory Service
  imports Discovery
begin

section \<open>The generated service clients and handlers\<close>

text \<open>
  \<open>cursorpb/gen/genconnect/agent.connect.go\<close>: for each service of the protocol a client with one Connect client per method, an
  interface of what a server implements, the HTTP handler that routes to it, and the implementation that has nothing. \<open>connect\<close>
  itself is a parameter (\<open>callUnary\<close>, and what serves a handler), and so are the descriptors, which \<open>byName\<close> looks up
  by service and method. Requests and responses have a type per method in Go; here they share one.
\<close>

record 'd connect_client =
  cl_url :: string
  cl_schema :: 'd

record ('d, 'f) unary_handler =
  uh_procedure :: string
  uh_schema :: 'd
  uh_serve :: 'f

datatype connect_error = CodeUnimplemented string

text \<open>What an unimplemented method answers.\<close>

definition unimplemented :: "string \<Rightarrow> 'req \<Rightarrow> connect_error + 'res" where
  "unimplemented name req = Inl (CodeUnimplemented (name @ '' is not implemented''))"

subsection \<open>AgentService\<close>

definition agent_run_procedure :: string where
  "agent_run_procedure = ''/agent.v1.AgentService/Run''"

definition agent_run_sse_procedure :: string where
  "agent_run_sse_procedure = ''/agent.v1.AgentService/RunSSE''"

definition agent_name_agent_procedure :: string where
  "agent_name_agent_procedure = ''/agent.v1.AgentService/NameAgent''"

definition agent_get_default_model_for_cli_procedure :: string where
  "agent_get_default_model_for_cli_procedure = ''/agent.v1.AgentService/GetDefaultModelForCli''"

definition agent_get_allowed_model_intents_procedure :: string where
  "agent_get_allowed_model_intents_procedure = ''/agent.v1.AgentService/GetAllowedModelIntents''"

datatype agent_method = RunRpc | RunSSERpc | NameAgentRpc | GetUsableModelsRpc | GetDefaultModelForCliRpc | GetAllowedModelIntentsRpc

record 'd agent_service_client =
  asc_run :: "'d connect_client"
  asc_run_sse :: "'d connect_client"
  asc_name_agent :: "'d connect_client"
  asc_get_usable_models :: "'d connect_client"
  asc_get_default_model_for_cli :: "'d connect_client"
  asc_get_allowed_model_intents :: "'d connect_client"

definition new_agent_service_client :: "(string \<Rightarrow> string \<Rightarrow> 'd) \<Rightarrow> string \<Rightarrow> 'd agent_service_client" where
  "new_agent_service_client byName baseURL0 =
     (let baseURL = trim_right_slashes baseURL0;
          methods = byName ''AgentService''
      in \<lparr>asc_run = \<lparr>cl_url = baseURL @ agent_run_procedure, cl_schema = methods ''Run''\<rparr>,
          asc_run_sse = \<lparr>cl_url = baseURL @ agent_run_sse_procedure, cl_schema = methods ''RunSSE''\<rparr>,
          asc_name_agent = \<lparr>cl_url = baseURL @ agent_name_agent_procedure, cl_schema = methods ''NameAgent''\<rparr>,
          asc_get_usable_models = \<lparr>cl_url = baseURL @ get_usable_models_procedure, cl_schema = methods ''GetUsableModels''\<rparr>,
          asc_get_default_model_for_cli = \<lparr>cl_url = baseURL @ agent_get_default_model_for_cli_procedure, cl_schema = methods ''GetDefaultModelForCli''\<rparr>,
          asc_get_allowed_model_intents = \<lparr>cl_url = baseURL @ agent_get_allowed_model_intents_procedure, cl_schema = methods ''GetAllowedModelIntents''\<rparr>\<rparr>)"

fun agent_call :: "('d connect_client \<Rightarrow> 'req \<Rightarrow> 'res) \<Rightarrow> 'd agent_service_client \<Rightarrow> agent_method \<Rightarrow> 'req \<Rightarrow> 'res" where
  "agent_call callUnary c RunRpc req = callUnary (asc_run c) req"
| "agent_call callUnary c RunSSERpc req = callUnary (asc_run_sse c) req"
| "agent_call callUnary c NameAgentRpc req = callUnary (asc_name_agent c) req"
| "agent_call callUnary c GetUsableModelsRpc req = callUnary (asc_get_usable_models c) req"
| "agent_call callUnary c GetDefaultModelForCliRpc req = callUnary (asc_get_default_model_for_cli c) req"
| "agent_call callUnary c GetAllowedModelIntentsRpc req = callUnary (asc_get_allowed_model_intents c) req"

record 'f agent_service_handler =
  ash_run :: 'f
  ash_run_sse :: 'f
  ash_name_agent :: 'f
  ash_get_usable_models :: 'f
  ash_get_default_model_for_cli :: 'f
  ash_get_allowed_model_intents :: 'f

definition new_agent_service_handler ::
  "(string \<Rightarrow> string \<Rightarrow> 'd) \<Rightarrow> 'f agent_service_handler \<Rightarrow> string \<times> (string \<Rightarrow> ('d, 'f) unary_handler option)" where
  "new_agent_service_handler byName svc =
     (let methods = byName ''AgentService''
      in (''/agent.v1.AgentService/'', \<lambda>path.
          if path = agent_run_procedure then Some \<lparr>uh_procedure = agent_run_procedure,
            uh_schema = methods ''Run'', uh_serve = ash_run svc\<rparr>
          else if path = agent_run_sse_procedure then Some \<lparr>uh_procedure = agent_run_sse_procedure,
            uh_schema = methods ''RunSSE'', uh_serve = ash_run_sse svc\<rparr>
          else if path = agent_name_agent_procedure then Some \<lparr>uh_procedure = agent_name_agent_procedure,
            uh_schema = methods ''NameAgent'', uh_serve = ash_name_agent svc\<rparr>
          else if path = get_usable_models_procedure then Some \<lparr>uh_procedure = get_usable_models_procedure,
            uh_schema = methods ''GetUsableModels'', uh_serve = ash_get_usable_models svc\<rparr>
          else if path = agent_get_default_model_for_cli_procedure then Some \<lparr>uh_procedure = agent_get_default_model_for_cli_procedure,
            uh_schema = methods ''GetDefaultModelForCli'', uh_serve = ash_get_default_model_for_cli svc\<rparr>
          else if path = agent_get_allowed_model_intents_procedure then Some \<lparr>uh_procedure = agent_get_allowed_model_intents_procedure,
            uh_schema = methods ''GetAllowedModelIntents'', uh_serve = ash_get_allowed_model_intents svc\<rparr>
          else None))"

definition unimplemented_agent_service_handler :: "('req \<Rightarrow> connect_error + 'res) agent_service_handler" where
  "unimplemented_agent_service_handler = \<lparr>ash_run = unimplemented ''agent.v1.AgentService.Run'',
     ash_run_sse = unimplemented ''agent.v1.AgentService.RunSSE'',
     ash_name_agent = unimplemented ''agent.v1.AgentService.NameAgent'',
     ash_get_usable_models = unimplemented ''agent.v1.AgentService.GetUsableModels'',
     ash_get_default_model_for_cli = unimplemented ''agent.v1.AgentService.GetDefaultModelForCli'',
     ash_get_allowed_model_intents = unimplemented ''agent.v1.AgentService.GetAllowedModelIntents''\<rparr>"

subsection \<open>ControlService\<close>

definition control_read_text_file_procedure :: string where
  "control_read_text_file_procedure = ''/agent.v1.ControlService/ReadTextFile''"

definition control_write_text_file_procedure :: string where
  "control_write_text_file_procedure = ''/agent.v1.ControlService/WriteTextFile''"

definition control_read_binary_file_procedure :: string where
  "control_read_binary_file_procedure = ''/agent.v1.ControlService/ReadBinaryFile''"

definition control_write_binary_file_procedure :: string where
  "control_write_binary_file_procedure = ''/agent.v1.ControlService/WriteBinaryFile''"

definition control_get_workspace_changes_hash_procedure :: string where
  "control_get_workspace_changes_hash_procedure = ''/agent.v1.ControlService/GetWorkspaceChangesHash''"

definition control_refresh_github_access_token_procedure :: string where
  "control_refresh_github_access_token_procedure = ''/agent.v1.ControlService/RefreshGithubAccessToken''"

definition control_warm_remote_access_server_procedure :: string where
  "control_warm_remote_access_server_procedure = ''/agent.v1.ControlService/WarmRemoteAccessServer''"

definition control_list_artifacts_procedure :: string where
  "control_list_artifacts_procedure = ''/agent.v1.ControlService/ListArtifacts''"

definition control_upload_artifacts_procedure :: string where
  "control_upload_artifacts_procedure = ''/agent.v1.ControlService/UploadArtifacts''"

definition control_get_mcp_refresh_tokens_procedure :: string where
  "control_get_mcp_refresh_tokens_procedure = ''/agent.v1.ControlService/GetMcpRefreshTokens''"

definition control_update_environment_variables_procedure :: string where
  "control_update_environment_variables_procedure = ''/agent.v1.ControlService/UpdateEnvironmentVariables''"

datatype control_method = ReadTextFileRpc | WriteTextFileRpc | ReadBinaryFileRpc | WriteBinaryFileRpc | GetWorkspaceChangesHashRpc | RefreshGithubAccessTokenRpc | WarmRemoteAccessServerRpc | ListArtifactsRpc | UploadArtifactsRpc | GetMcpRefreshTokensRpc | UpdateEnvironmentVariablesRpc

record 'd control_service_client =
  csc_read_text_file :: "'d connect_client"
  csc_write_text_file :: "'d connect_client"
  csc_read_binary_file :: "'d connect_client"
  csc_write_binary_file :: "'d connect_client"
  csc_get_workspace_changes_hash :: "'d connect_client"
  csc_refresh_github_access_token :: "'d connect_client"
  csc_warm_remote_access_server :: "'d connect_client"
  csc_list_artifacts :: "'d connect_client"
  csc_upload_artifacts :: "'d connect_client"
  csc_get_mcp_refresh_tokens :: "'d connect_client"
  csc_update_environment_variables :: "'d connect_client"

definition new_control_service_client :: "(string \<Rightarrow> string \<Rightarrow> 'd) \<Rightarrow> string \<Rightarrow> 'd control_service_client" where
  "new_control_service_client byName baseURL0 =
     (let baseURL = trim_right_slashes baseURL0;
          methods = byName ''ControlService''
      in \<lparr>csc_read_text_file = \<lparr>cl_url = baseURL @ control_read_text_file_procedure, cl_schema = methods ''ReadTextFile''\<rparr>,
          csc_write_text_file = \<lparr>cl_url = baseURL @ control_write_text_file_procedure, cl_schema = methods ''WriteTextFile''\<rparr>,
          csc_read_binary_file = \<lparr>cl_url = baseURL @ control_read_binary_file_procedure, cl_schema = methods ''ReadBinaryFile''\<rparr>,
          csc_write_binary_file = \<lparr>cl_url = baseURL @ control_write_binary_file_procedure, cl_schema = methods ''WriteBinaryFile''\<rparr>,
          csc_get_workspace_changes_hash = \<lparr>cl_url = baseURL @ control_get_workspace_changes_hash_procedure, cl_schema = methods ''GetWorkspaceChangesHash''\<rparr>,
          csc_refresh_github_access_token = \<lparr>cl_url = baseURL @ control_refresh_github_access_token_procedure, cl_schema = methods ''RefreshGithubAccessToken''\<rparr>,
          csc_warm_remote_access_server = \<lparr>cl_url = baseURL @ control_warm_remote_access_server_procedure, cl_schema = methods ''WarmRemoteAccessServer''\<rparr>,
          csc_list_artifacts = \<lparr>cl_url = baseURL @ control_list_artifacts_procedure, cl_schema = methods ''ListArtifacts''\<rparr>,
          csc_upload_artifacts = \<lparr>cl_url = baseURL @ control_upload_artifacts_procedure, cl_schema = methods ''UploadArtifacts''\<rparr>,
          csc_get_mcp_refresh_tokens = \<lparr>cl_url = baseURL @ control_get_mcp_refresh_tokens_procedure, cl_schema = methods ''GetMcpRefreshTokens''\<rparr>,
          csc_update_environment_variables = \<lparr>cl_url = baseURL @ control_update_environment_variables_procedure, cl_schema = methods ''UpdateEnvironmentVariables''\<rparr>\<rparr>)"

fun control_call :: "('d connect_client \<Rightarrow> 'req \<Rightarrow> 'res) \<Rightarrow> 'd control_service_client \<Rightarrow> control_method \<Rightarrow> 'req \<Rightarrow> 'res" where
  "control_call callUnary c ReadTextFileRpc req = callUnary (csc_read_text_file c) req"
| "control_call callUnary c WriteTextFileRpc req = callUnary (csc_write_text_file c) req"
| "control_call callUnary c ReadBinaryFileRpc req = callUnary (csc_read_binary_file c) req"
| "control_call callUnary c WriteBinaryFileRpc req = callUnary (csc_write_binary_file c) req"
| "control_call callUnary c GetWorkspaceChangesHashRpc req = callUnary (csc_get_workspace_changes_hash c) req"
| "control_call callUnary c RefreshGithubAccessTokenRpc req = callUnary (csc_refresh_github_access_token c) req"
| "control_call callUnary c WarmRemoteAccessServerRpc req = callUnary (csc_warm_remote_access_server c) req"
| "control_call callUnary c ListArtifactsRpc req = callUnary (csc_list_artifacts c) req"
| "control_call callUnary c UploadArtifactsRpc req = callUnary (csc_upload_artifacts c) req"
| "control_call callUnary c GetMcpRefreshTokensRpc req = callUnary (csc_get_mcp_refresh_tokens c) req"
| "control_call callUnary c UpdateEnvironmentVariablesRpc req = callUnary (csc_update_environment_variables c) req"

record 'f control_service_handler =
  csh_read_text_file :: 'f
  csh_write_text_file :: 'f
  csh_read_binary_file :: 'f
  csh_write_binary_file :: 'f
  csh_get_workspace_changes_hash :: 'f
  csh_refresh_github_access_token :: 'f
  csh_warm_remote_access_server :: 'f
  csh_list_artifacts :: 'f
  csh_upload_artifacts :: 'f
  csh_get_mcp_refresh_tokens :: 'f
  csh_update_environment_variables :: 'f

definition new_control_service_handler ::
  "(string \<Rightarrow> string \<Rightarrow> 'd) \<Rightarrow> 'f control_service_handler \<Rightarrow> string \<times> (string \<Rightarrow> ('d, 'f) unary_handler option)" where
  "new_control_service_handler byName svc =
     (let methods = byName ''ControlService''
      in (''/agent.v1.ControlService/'', \<lambda>path.
          if path = control_read_text_file_procedure then Some \<lparr>uh_procedure = control_read_text_file_procedure,
            uh_schema = methods ''ReadTextFile'', uh_serve = csh_read_text_file svc\<rparr>
          else if path = control_write_text_file_procedure then Some \<lparr>uh_procedure = control_write_text_file_procedure,
            uh_schema = methods ''WriteTextFile'', uh_serve = csh_write_text_file svc\<rparr>
          else if path = control_read_binary_file_procedure then Some \<lparr>uh_procedure = control_read_binary_file_procedure,
            uh_schema = methods ''ReadBinaryFile'', uh_serve = csh_read_binary_file svc\<rparr>
          else if path = control_write_binary_file_procedure then Some \<lparr>uh_procedure = control_write_binary_file_procedure,
            uh_schema = methods ''WriteBinaryFile'', uh_serve = csh_write_binary_file svc\<rparr>
          else if path = control_get_workspace_changes_hash_procedure then Some \<lparr>uh_procedure = control_get_workspace_changes_hash_procedure,
            uh_schema = methods ''GetWorkspaceChangesHash'', uh_serve = csh_get_workspace_changes_hash svc\<rparr>
          else if path = control_refresh_github_access_token_procedure then Some \<lparr>uh_procedure = control_refresh_github_access_token_procedure,
            uh_schema = methods ''RefreshGithubAccessToken'', uh_serve = csh_refresh_github_access_token svc\<rparr>
          else if path = control_warm_remote_access_server_procedure then Some \<lparr>uh_procedure = control_warm_remote_access_server_procedure,
            uh_schema = methods ''WarmRemoteAccessServer'', uh_serve = csh_warm_remote_access_server svc\<rparr>
          else if path = control_list_artifacts_procedure then Some \<lparr>uh_procedure = control_list_artifacts_procedure,
            uh_schema = methods ''ListArtifacts'', uh_serve = csh_list_artifacts svc\<rparr>
          else if path = control_upload_artifacts_procedure then Some \<lparr>uh_procedure = control_upload_artifacts_procedure,
            uh_schema = methods ''UploadArtifacts'', uh_serve = csh_upload_artifacts svc\<rparr>
          else if path = control_get_mcp_refresh_tokens_procedure then Some \<lparr>uh_procedure = control_get_mcp_refresh_tokens_procedure,
            uh_schema = methods ''GetMcpRefreshTokens'', uh_serve = csh_get_mcp_refresh_tokens svc\<rparr>
          else if path = control_update_environment_variables_procedure then Some \<lparr>uh_procedure = control_update_environment_variables_procedure,
            uh_schema = methods ''UpdateEnvironmentVariables'', uh_serve = csh_update_environment_variables svc\<rparr>
          else None))"

definition unimplemented_control_service_handler :: "('req \<Rightarrow> connect_error + 'res) control_service_handler" where
  "unimplemented_control_service_handler = \<lparr>csh_read_text_file = unimplemented ''agent.v1.ControlService.ReadTextFile'',
     csh_write_text_file = unimplemented ''agent.v1.ControlService.WriteTextFile'',
     csh_read_binary_file = unimplemented ''agent.v1.ControlService.ReadBinaryFile'',
     csh_write_binary_file = unimplemented ''agent.v1.ControlService.WriteBinaryFile'',
     csh_get_workspace_changes_hash = unimplemented ''agent.v1.ControlService.GetWorkspaceChangesHash'',
     csh_refresh_github_access_token = unimplemented ''agent.v1.ControlService.RefreshGithubAccessToken'',
     csh_warm_remote_access_server = unimplemented ''agent.v1.ControlService.WarmRemoteAccessServer'',
     csh_list_artifacts = unimplemented ''agent.v1.ControlService.ListArtifacts'',
     csh_upload_artifacts = unimplemented ''agent.v1.ControlService.UploadArtifacts'',
     csh_get_mcp_refresh_tokens = unimplemented ''agent.v1.ControlService.GetMcpRefreshTokens'',
     csh_update_environment_variables = unimplemented ''agent.v1.ControlService.UpdateEnvironmentVariables''\<rparr>"

subsection \<open>ExecService\<close>

text \<open>The service has no methods: its client is empty and its handler finds nothing.\<close>

definition new_exec_service_handler :: "string \<times> (string \<Rightarrow> ('d, 'f) unary_handler option)" where
  "new_exec_service_handler = (''/agent.v1.ExecService/'', \<lambda>path. None)"

subsection \<open>PrivateWorkerBridgeExternalService\<close>

definition bridge_connect_procedure :: string where
  "bridge_connect_procedure = ''/agent.v1.PrivateWorkerBridgeExternalService/Connect''"

datatype bridge_method = ConnectRpc

record 'd private_worker_bridge_external_service_client =
  bsc_connect :: "'d connect_client"

definition new_private_worker_bridge_external_service_client :: "(string \<Rightarrow> string \<Rightarrow> 'd) \<Rightarrow> string \<Rightarrow> 'd private_worker_bridge_external_service_client" where
  "new_private_worker_bridge_external_service_client byName baseURL0 =
     (let baseURL = trim_right_slashes baseURL0;
          methods = byName ''PrivateWorkerBridgeExternalService''
      in \<lparr>bsc_connect = \<lparr>cl_url = baseURL @ bridge_connect_procedure, cl_schema = methods ''Connect''\<rparr>\<rparr>)"

fun bridge_call :: "('d connect_client \<Rightarrow> 'req \<Rightarrow> 'res) \<Rightarrow> 'd private_worker_bridge_external_service_client \<Rightarrow> bridge_method \<Rightarrow> 'req \<Rightarrow> 'res" where
  "bridge_call callUnary c ConnectRpc req = callUnary (bsc_connect c) req"

record 'f private_worker_bridge_external_service_handler =
  bsh_connect :: 'f

definition new_private_worker_bridge_external_service_handler ::
  "(string \<Rightarrow> string \<Rightarrow> 'd) \<Rightarrow> 'f private_worker_bridge_external_service_handler \<Rightarrow> string \<times> (string \<Rightarrow> ('d, 'f) unary_handler option)" where
  "new_private_worker_bridge_external_service_handler byName svc =
     (let methods = byName ''PrivateWorkerBridgeExternalService''
      in (''/agent.v1.PrivateWorkerBridgeExternalService/'', \<lambda>path.
          if path = bridge_connect_procedure then Some \<lparr>uh_procedure = bridge_connect_procedure,
            uh_schema = methods ''Connect'', uh_serve = bsh_connect svc\<rparr>
          else None))"

definition unimplemented_private_worker_bridge_external_service_handler :: "('req \<Rightarrow> connect_error + 'res) private_worker_bridge_external_service_handler" where
  "unimplemented_private_worker_bridge_external_service_handler = \<lparr>bsh_connect = unimplemented ''agent.v1.PrivateWorkerBridgeExternalService.Connect''\<rparr>"

subsection \<open>LifecycleService\<close>

definition lifecycle_reset_instance_procedure :: string where
  "lifecycle_reset_instance_procedure = ''/agent.v1.LifecycleService/ResetInstance''"

definition lifecycle_renew_instance_procedure :: string where
  "lifecycle_renew_instance_procedure = ''/agent.v1.LifecycleService/RenewInstance''"

datatype lifecycle_method = ResetInstanceRpc | RenewInstanceRpc

record 'd lifecycle_service_client =
  lsc_reset_instance :: "'d connect_client"
  lsc_renew_instance :: "'d connect_client"

definition new_lifecycle_service_client :: "(string \<Rightarrow> string \<Rightarrow> 'd) \<Rightarrow> string \<Rightarrow> 'd lifecycle_service_client" where
  "new_lifecycle_service_client byName baseURL0 =
     (let baseURL = trim_right_slashes baseURL0;
          methods = byName ''LifecycleService''
      in \<lparr>lsc_reset_instance = \<lparr>cl_url = baseURL @ lifecycle_reset_instance_procedure, cl_schema = methods ''ResetInstance''\<rparr>,
          lsc_renew_instance = \<lparr>cl_url = baseURL @ lifecycle_renew_instance_procedure, cl_schema = methods ''RenewInstance''\<rparr>\<rparr>)"

fun lifecycle_call :: "('d connect_client \<Rightarrow> 'req \<Rightarrow> 'res) \<Rightarrow> 'd lifecycle_service_client \<Rightarrow> lifecycle_method \<Rightarrow> 'req \<Rightarrow> 'res" where
  "lifecycle_call callUnary c ResetInstanceRpc req = callUnary (lsc_reset_instance c) req"
| "lifecycle_call callUnary c RenewInstanceRpc req = callUnary (lsc_renew_instance c) req"

record 'f lifecycle_service_handler =
  lsh_reset_instance :: 'f
  lsh_renew_instance :: 'f

definition new_lifecycle_service_handler ::
  "(string \<Rightarrow> string \<Rightarrow> 'd) \<Rightarrow> 'f lifecycle_service_handler \<Rightarrow> string \<times> (string \<Rightarrow> ('d, 'f) unary_handler option)" where
  "new_lifecycle_service_handler byName svc =
     (let methods = byName ''LifecycleService''
      in (''/agent.v1.LifecycleService/'', \<lambda>path.
          if path = lifecycle_reset_instance_procedure then Some \<lparr>uh_procedure = lifecycle_reset_instance_procedure,
            uh_schema = methods ''ResetInstance'', uh_serve = lsh_reset_instance svc\<rparr>
          else if path = lifecycle_renew_instance_procedure then Some \<lparr>uh_procedure = lifecycle_renew_instance_procedure,
            uh_schema = methods ''RenewInstance'', uh_serve = lsh_renew_instance svc\<rparr>
          else None))"

definition unimplemented_lifecycle_service_handler :: "('req \<Rightarrow> connect_error + 'res) lifecycle_service_handler" where
  "unimplemented_lifecycle_service_handler = \<lparr>lsh_reset_instance = unimplemented ''agent.v1.LifecycleService.ResetInstance'',
     lsh_renew_instance = unimplemented ''agent.v1.LifecycleService.RenewInstance''\<rparr>"

subsection \<open>All services\<close>

datatype rpc = AgentRpc agent_method | ControlRpc control_method | BridgeRpc bridge_method | LifecycleRpc lifecycle_method

text \<open>A server with an implementation of every service; \<open>http.ServeMux\<close> picks the handler whose path is a prefix.\<close>

record 'f services =
  sv_agent :: "'f agent_service_handler"
  sv_control :: "'f control_service_handler"
  sv_bridge :: "'f private_worker_bridge_external_service_handler"
  sv_lifecycle :: "'f lifecycle_service_handler"

definition mounted :: "(string \<Rightarrow> string \<Rightarrow> 'd) \<Rightarrow> 'f services \<Rightarrow> string \<Rightarrow> ('d, 'f) unary_handler option" where
  "mounted byName sv path =
     (case find (\<lambda>h. take (length (fst h)) path = fst h)
         [new_agent_service_handler byName (sv_agent sv), new_control_service_handler byName (sv_control sv), new_exec_service_handler,
          new_private_worker_bridge_external_service_handler byName (sv_bridge sv),
          new_lifecycle_service_handler byName (sv_lifecycle sv)] of
        None \<Rightarrow> None
      | Some h \<Rightarrow> snd h path)"

fun rpc_call :: "('d connect_client \<Rightarrow> 'req \<Rightarrow> 'res) \<Rightarrow> (string \<Rightarrow> string \<Rightarrow> 'd) \<Rightarrow> string \<Rightarrow> rpc \<Rightarrow> 'req \<Rightarrow> 'res" where
  "rpc_call callUnary byName baseURL (AgentRpc m) = agent_call callUnary (new_agent_service_client byName baseURL) m"
| "rpc_call callUnary byName baseURL (ControlRpc m) = control_call callUnary (new_control_service_client byName baseURL) m"
| "rpc_call callUnary byName baseURL (BridgeRpc m) = bridge_call callUnary (new_private_worker_bridge_external_service_client byName baseURL) m"
| "rpc_call callUnary byName baseURL (LifecycleRpc m) = lifecycle_call callUnary (new_lifecycle_service_client byName baseURL) m"

fun rpc_procedure :: "rpc \<Rightarrow> string" where
  "rpc_procedure (AgentRpc RunRpc) = agent_run_procedure"
| "rpc_procedure (AgentRpc RunSSERpc) = agent_run_sse_procedure"
| "rpc_procedure (AgentRpc NameAgentRpc) = agent_name_agent_procedure"
| "rpc_procedure (AgentRpc GetUsableModelsRpc) = get_usable_models_procedure"
| "rpc_procedure (AgentRpc GetDefaultModelForCliRpc) = agent_get_default_model_for_cli_procedure"
| "rpc_procedure (AgentRpc GetAllowedModelIntentsRpc) = agent_get_allowed_model_intents_procedure"
| "rpc_procedure (ControlRpc ReadTextFileRpc) = control_read_text_file_procedure"
| "rpc_procedure (ControlRpc WriteTextFileRpc) = control_write_text_file_procedure"
| "rpc_procedure (ControlRpc ReadBinaryFileRpc) = control_read_binary_file_procedure"
| "rpc_procedure (ControlRpc WriteBinaryFileRpc) = control_write_binary_file_procedure"
| "rpc_procedure (ControlRpc GetWorkspaceChangesHashRpc) = control_get_workspace_changes_hash_procedure"
| "rpc_procedure (ControlRpc RefreshGithubAccessTokenRpc) = control_refresh_github_access_token_procedure"
| "rpc_procedure (ControlRpc WarmRemoteAccessServerRpc) = control_warm_remote_access_server_procedure"
| "rpc_procedure (ControlRpc ListArtifactsRpc) = control_list_artifacts_procedure"
| "rpc_procedure (ControlRpc UploadArtifactsRpc) = control_upload_artifacts_procedure"
| "rpc_procedure (ControlRpc GetMcpRefreshTokensRpc) = control_get_mcp_refresh_tokens_procedure"
| "rpc_procedure (ControlRpc UpdateEnvironmentVariablesRpc) = control_update_environment_variables_procedure"
| "rpc_procedure (BridgeRpc ConnectRpc) = bridge_connect_procedure"
| "rpc_procedure (LifecycleRpc ResetInstanceRpc) = lifecycle_reset_instance_procedure"
| "rpc_procedure (LifecycleRpc RenewInstanceRpc) = lifecycle_renew_instance_procedure"

fun rpc_method :: "'f services \<Rightarrow> rpc \<Rightarrow> 'f" where
  "rpc_method sv (AgentRpc RunRpc) = ash_run (sv_agent sv)"
| "rpc_method sv (AgentRpc RunSSERpc) = ash_run_sse (sv_agent sv)"
| "rpc_method sv (AgentRpc NameAgentRpc) = ash_name_agent (sv_agent sv)"
| "rpc_method sv (AgentRpc GetUsableModelsRpc) = ash_get_usable_models (sv_agent sv)"
| "rpc_method sv (AgentRpc GetDefaultModelForCliRpc) = ash_get_default_model_for_cli (sv_agent sv)"
| "rpc_method sv (AgentRpc GetAllowedModelIntentsRpc) = ash_get_allowed_model_intents (sv_agent sv)"
| "rpc_method sv (ControlRpc ReadTextFileRpc) = csh_read_text_file (sv_control sv)"
| "rpc_method sv (ControlRpc WriteTextFileRpc) = csh_write_text_file (sv_control sv)"
| "rpc_method sv (ControlRpc ReadBinaryFileRpc) = csh_read_binary_file (sv_control sv)"
| "rpc_method sv (ControlRpc WriteBinaryFileRpc) = csh_write_binary_file (sv_control sv)"
| "rpc_method sv (ControlRpc GetWorkspaceChangesHashRpc) = csh_get_workspace_changes_hash (sv_control sv)"
| "rpc_method sv (ControlRpc RefreshGithubAccessTokenRpc) = csh_refresh_github_access_token (sv_control sv)"
| "rpc_method sv (ControlRpc WarmRemoteAccessServerRpc) = csh_warm_remote_access_server (sv_control sv)"
| "rpc_method sv (ControlRpc ListArtifactsRpc) = csh_list_artifacts (sv_control sv)"
| "rpc_method sv (ControlRpc UploadArtifactsRpc) = csh_upload_artifacts (sv_control sv)"
| "rpc_method sv (ControlRpc GetMcpRefreshTokensRpc) = csh_get_mcp_refresh_tokens (sv_control sv)"
| "rpc_method sv (ControlRpc UpdateEnvironmentVariablesRpc) = csh_update_environment_variables (sv_control sv)"
| "rpc_method sv (BridgeRpc ConnectRpc) = bsh_connect (sv_bridge sv)"
| "rpc_method sv (LifecycleRpc ResetInstanceRpc) = lsh_reset_instance (sv_lifecycle sv)"
| "rpc_method sv (LifecycleRpc RenewInstanceRpc) = lsh_renew_instance (sv_lifecycle sv)"

definition unimplemented_services :: "('req \<Rightarrow> connect_error + 'res) services" where
  "unimplemented_services = \<lparr>sv_agent = unimplemented_agent_service_handler, sv_control = unimplemented_control_service_handler,
     sv_bridge = unimplemented_private_worker_bridge_external_service_handler, sv_lifecycle = unimplemented_lifecycle_service_handler\<rparr>"

text \<open>The name of a method as the descriptors spell it: without the leading slash, the other one a period.\<close>

definition dotted :: "string \<Rightarrow> string" where
  "dotted p = map (\<lambda>c. if c = CHR ''/'' then CHR ''.'' else c) (tl p)"

lemmas procedure_defs = agent_run_procedure_def agent_run_sse_procedure_def agent_name_agent_procedure_def get_usable_models_procedure_def agent_get_default_model_for_cli_procedure_def agent_get_allowed_model_intents_procedure_def control_read_text_file_procedure_def control_write_text_file_procedure_def control_read_binary_file_procedure_def control_write_binary_file_procedure_def control_get_workspace_changes_hash_procedure_def control_refresh_github_access_token_procedure_def control_warm_remote_access_server_procedure_def control_list_artifacts_procedure_def control_upload_artifacts_procedure_def control_get_mcp_refresh_tokens_procedure_def control_update_environment_variables_procedure_def bridge_connect_procedure_def lifecycle_reset_instance_procedure_def lifecycle_renew_instance_procedure_def

lemmas client_defs = new_agent_service_client_def new_control_service_client_def
  new_private_worker_bridge_external_service_client_def new_lifecycle_service_client_def

lemmas handler_defs = new_agent_service_handler_def new_control_service_handler_def new_exec_service_handler_def
  new_private_worker_bridge_external_service_handler_def new_lifecycle_service_handler_def

lemmas unimplemented_defs = unimplemented_services_def unimplemented_agent_service_handler_def unimplemented_control_service_handler_def
  unimplemented_private_worker_bridge_external_service_handler_def unimplemented_lifecycle_service_handler_def unimplemented_def

definition rpc_schema :: "(string \<Rightarrow> string \<Rightarrow> 'd) \<Rightarrow> rpc \<Rightarrow> 'd" where
  "rpc_schema byName m = cl_schema (rpc_call (\<lambda>c _. c) byName [] m ())"

lemma rpc_call_url:
  "rpc_call callUnary byName base m req = callUnary \<lparr>cl_url = trim_right_slashes base @ rpc_procedure m, cl_schema = rpc_schema byName m\<rparr> req"
proof (cases m)
  case (AgentRpc a)
  then show ?thesis by (cases a) (simp_all add: client_defs rpc_schema_def Let_def)
next
  case (ControlRpc a)
  then show ?thesis by (cases a) (simp_all add: client_defs rpc_schema_def Let_def)
next
  case (BridgeRpc a)
  then show ?thesis by (cases a) (simp_all add: client_defs rpc_schema_def Let_def)
next
  case (LifecycleRpc a)
  then show ?thesis by (cases a) (simp_all add: client_defs rpc_schema_def Let_def)
qed

lemma unimplemented_names:
  "rpc_method unimplemented_services m req = Inl (CodeUnimplemented (dotted (rpc_procedure m) @ '' is not implemented''))"
proof (cases m)
  case (AgentRpc a)
  then show ?thesis by (cases a) (simp_all add: unimplemented_defs procedure_defs dotted_def)
next
  case (ControlRpc a)
  then show ?thesis by (cases a) (simp_all add: unimplemented_defs procedure_defs dotted_def)
next
  case (BridgeRpc a)
  then show ?thesis by (cases a) (simp_all add: unimplemented_defs procedure_defs dotted_def)
next
  case (LifecycleRpc a)
  then show ?thesis by (cases a) (simp_all add: unimplemented_defs procedure_defs dotted_def)
qed

lemma mounted_procedure:
  "mounted byName sv (rpc_procedure m) = Some \<lparr>uh_procedure = rpc_procedure m, uh_schema = rpc_schema byName m, uh_serve = rpc_method sv m\<rparr>"
proof (cases m)
  case (AgentRpc a)
  then show ?thesis by (cases a) (simp_all add: mounted_def handler_defs client_defs rpc_schema_def procedure_defs Let_def)
next
  case (ControlRpc a)
  then show ?thesis by (cases a) (simp_all add: mounted_def handler_defs client_defs rpc_schema_def procedure_defs Let_def)
next
  case (BridgeRpc a)
  then show ?thesis by (cases a) (simp_all add: mounted_def handler_defs client_defs rpc_schema_def procedure_defs Let_def)
next
  case (LifecycleRpc a)
  then show ?thesis by (cases a) (simp_all add: mounted_def handler_defs client_defs rpc_schema_def procedure_defs Let_def)
qed

lemma handlers_serve_methods:
  "snd (new_agent_service_handler byName a) q = Some h \<Longrightarrow> \<exists>m. q = rpc_procedure (AgentRpc m)"
  "snd (new_control_service_handler byName b) q = Some h \<Longrightarrow> \<exists>m. q = rpc_procedure (ControlRpc m)"
  "snd (new_private_worker_bridge_external_service_handler byName c) q = Some h \<Longrightarrow> \<exists>m. q = rpc_procedure (BridgeRpc m)"
  "snd (new_lifecycle_service_handler byName d) q = Some h \<Longrightarrow> \<exists>m. q = rpc_procedure (LifecycleRpc m)"
  by (auto simp: handler_defs Let_def simp flip: rpc_procedure.simps split: if_splits)

lemma find_in_set: "find P xs = Some r \<Longrightarrow> r \<in> set xs"
  by (auto simp: find_Some_iff)

lemma mounted_only_procedures:
  assumes "mounted byName sv q = Some h" shows "\<exists>m. q = rpc_procedure m"
proof -
  let ?hs = "[new_agent_service_handler byName (sv_agent sv), new_control_service_handler byName (sv_control sv), new_exec_service_handler,
          new_private_worker_bridge_external_service_handler byName (sv_bridge sv),
          new_lifecycle_service_handler byName (sv_lifecycle sv)]"
  obtain r where r: "find (\<lambda>h. take (length (fst h)) q = fst h) ?hs = Some r" and h: "snd r q = Some h"
    using assms by (auto simp: mounted_def split: option.splits)
  have "r \<in> set ?hs" by (rule find_in_set [OF r])
  then show ?thesis
    using h by (auto simp: new_exec_service_handler_def dest!: handlers_serve_methods)
qed

text \<open>
  C32: A client and a server generated from one protocol agree. A method's call goes, with the base URL's trailing slashes cut,
  to a path under which the mounted handlers find exactly that method's implementation, with the same schema; every path that is served
  is the path of a method; and a server without implementations names the method it was asked for. The plugin's own requests use these paths:
  the discoverer's URL is the one of the generated client, and the stream posts to the path of \<open>Run\<close>.
\<close>

theorem client_reaches_its_method:
  "rpc_call callUnary byName base m req = callUnary \<lparr>cl_url = trim_right_slashes base @ rpc_procedure m, cl_schema = rpc_schema byName m\<rparr> req
   \<and> mounted byName sv (rpc_procedure m) = Some \<lparr>uh_procedure = rpc_procedure m, uh_schema = rpc_schema byName m, uh_serve = rpc_method sv m\<rparr>
   \<and> ((\<exists>h. mounted byName sv q = Some h) = (\<exists>k. q = rpc_procedure k))
   \<and> rpc_method unimplemented_services m req = Inl (CodeUnimplemented (dotted (rpc_procedure m) @ '' is not implemented''))
   \<and> agent_service_url base get_usable_models_procedure = trim_right_slashes base @ rpc_procedure (AgentRpc GetUsableModelsRpc)
   \<and> run_procedure_path = rpc_procedure (AgentRpc RunRpc)"
proof (intro conjI)
  show "(\<exists>h. mounted byName sv q = Some h) = (\<exists>k. q = rpc_procedure k)"
    using mounted_procedure mounted_only_procedures by metis
  show "rpc_call callUnary byName base m req
      = callUnary \<lparr>cl_url = trim_right_slashes base @ rpc_procedure m, cl_schema = rpc_schema byName m\<rparr> req"
    by (rule rpc_call_url)
  show "mounted byName sv (rpc_procedure m)
      = Some \<lparr>uh_procedure = rpc_procedure m, uh_schema = rpc_schema byName m, uh_serve = rpc_method sv m\<rparr>"
    by (rule mounted_procedure)
  show "rpc_method unimplemented_services m req = Inl (CodeUnimplemented (dotted (rpc_procedure m) @ '' is not implemented''))"
    by (rule unimplemented_names)
  show "agent_service_url base get_usable_models_procedure = trim_right_slashes base @ rpc_procedure (AgentRpc GetUsableModelsRpc)"
    by (simp add: agent_service_url_def)
  show "run_procedure_path = rpc_procedure (AgentRpc RunRpc)"
    by (simp add: run_procedure_path_def agent_run_procedure_def)
qed

end
