(* ===== verification/Probe.thy ===== *)
theory Probe
  imports Executor_Laws Provider_Laws Discovery
begin

section \<open>The end-to-end probe\<close>

text \<open>
  \<open>cmd/e2eprobe/main.go\<close>: a command that drives the provider, the executor and the discoverer against the live service. The
  model has its commands, the requests it sends, the loop that waits for a login, and what it reads out of a response; what it prints
  is in \<open>Probe_Output\<close>, and the encoding of its state file is not modelled.
\<close>

subsection \<open>Commands\<close>

datatype probe_command =
    ProbeLogin
  | ProbeChat string string
  | ProbeConv string
  | ProbeTool string
  | ProbeMcpTool string
  | ProbeModels
  | ProbeUsage string

text \<open>The arguments, the program's name first.\<close>

definition arg_or_empty :: "nat \<Rightarrow> string list \<Rightarrow> string" where
  "arg_or_empty n args = (if n < length args then args ! n else [])"

definition parse_args :: "string list \<Rightarrow> probe_command" where
  "parse_args args =
     (if length args < 2 then ProbeUsage ''usage: e2eprobe <login|chat|models> [args]''
      else let cmd = args ! 1 in
        if cmd = ''login'' then ProbeLogin
        else if cmd = ''chat'' then
          (if length args < 3 then ProbeUsage (''usage: e2eprobe chat '' @ [chr_quote] @ ''message'' @ [chr_quote] @ '' [model-id]'')
           else ProbeChat (args ! 2) (arg_or_empty 3 args))
        else if cmd = ''conv'' then ProbeConv (arg_or_empty 2 args)
        else if cmd = ''tool'' then ProbeTool (arg_or_empty 2 args)
        else if cmd = ''mcptool'' then ProbeMcpTool (arg_or_empty 2 args)
        else if cmd = ''models'' then ProbeModels
        else ProbeUsage (''unknown command '' @ [chr_quote] @ cmd @ [chr_quote]))"

subsection \<open>The saved login\<close>

record probe_state =
  pb_auth_id :: string
  pb_access_token :: string
  pb_storage_json :: string
  pb_expires_at :: time

definition require_logged_in :: "probe_state \<Rightarrow> probe_state go_result" where
  "require_logged_in st =
     (if pb_auth_id st = [] \<or> pb_access_token st = []
      then Err (''not logged in; run '' @ [CHR 0x27] @ ''e2eprobe login'' @ [CHR 0x27] @ '' first'') else Ok st)"

definition restore_account :: "time \<Rightarrow> probe_state \<Rightarrow> account_store \<Rightarrow> account_store" where
  "restore_account now st accounts =
     account_set now (pb_auth_id st) (zero_account\<lparr>as_access_token := pb_access_token st, as_expires_at := pb_expires_at st,
       as_status := status_active\<rparr>) accounts"

subsection \<open>Waiting for a login\<close>

datatype login_outcome = LoginSaved probe_state | LoginFatal string

text \<open>The rounds of the loop: the clock at its test, and what the poll gets. \<open>None\<close>: still waiting after them.\<close>

fun login_loop :: "time \<Rightarrow> string \<Rightarrow> (time \<times> auth_env \<times> (string \<Rightarrow> http_reply)) list \<Rightarrow> provider \<Rightarrow> login_outcome option \<times> provider" where
  "login_loop deadline attempt [] p = (None, p)"
| "login_loop deadline attempt ((now, env, serve) # rounds) p =
     (if now < deadline then
        (let (resp, p') = poll_login env serve attempt p in
         case lpr_status resp of
           LoginPending \<Rightarrow> login_loop deadline attempt rounds p'
         | LoginSuccess \<Rightarrow>
             (let authID = (case lpr_auth resp of Some auth \<Rightarrow> ad_id auth | None \<Rightarrow> []);
                  storage = (case lpr_auth resp of Some auth \<Rightarrow> ad_storage_json auth | None \<Rightarrow> [])
              in case account_peek (pv_accounts p') authID of
                   None \<Rightarrow> (Some (LoginFatal (''login succeeded but account store has no entry for '' @ [chr_quote] @ authID
                             @ [chr_quote] @ '' (real bug, please report)'')), p')
                 | Some authState \<Rightarrow>
                     (Some (LoginSaved \<lparr>pb_auth_id = authID, pb_access_token = as_access_token authState,
                        pb_storage_json = storage, pb_expires_at = as_expires_at authState\<rparr>), p'))
         | LoginError \<Rightarrow> (Some (LoginFatal (''login failed: '' @ lpr_message resp)), p'))
      else (Some (LoginFatal ''login timed out after 15 minutes''), p))"

definition cmd_login ::
  "auth_env \<Rightarrow> time \<Rightarrow> (time \<times> auth_env \<times> (string \<Rightarrow> http_reply)) list \<Rightarrow> provider \<Rightarrow> entropy \<Rightarrow> login_outcome option \<times> provider \<times> entropy" where
  "cmd_login env now rounds p en =
     (case provider_start_login env p en of
        (Ok startResp, p', en') \<Rightarrow>
          (case login_loop (now + 15 * 60 * second) (lsr_state startResp) rounds p' of (out, p'') \<Rightarrow> (out, p'', en'))
      | (Err e, p', en') \<Rightarrow> (Some (LoginFatal (''StartLogin failed: '' @ e)), p', en')
      | (Panic e, p', en') \<Rightarrow> (Some (LoginFatal e), p', en'))"

subsection \<open>Requests\<close>

text \<open>\<open>json.Marshal\<close> writes the keys of a map in order.\<close>

definition role_message :: "string \<Rightarrow> string \<Rightarrow> json" where
  "role_message role content = jobj [(''content'', jstr content), (''role'', jstr role)]"

definition chat_payload :: "string \<Rightarrow> string \<Rightarrow> json" where
  "chat_payload model message = jobj [(''messages'', JArr [role_message ''user'' message]), (''model'', jstr model)]"

definition conv_payload :: "string \<Rightarrow> json" where
  "conv_payload model = jobj [(''messages'', JArr
       [role_message ''user'' ''My favorite number is 7. Just acknowledge it in one short sentence.'',
        role_message ''assistant'' (''Got it '' @ [CHR 0xE2, CHR 0x80, CHR 0x94] @ '' your favorite number is 7.''),
        role_message ''user'' ''What is my favorite number plus 100?'']),
     (''model'', jstr model)]"

definition tool_payload :: "string \<Rightarrow> json" where
  "tool_payload model = chat_payload model
     ''List the files in the current working directory using your shell/ls tool, then tell me how many there are.''"

definition mcp_tool_payload :: "string \<Rightarrow> json" where
  "mcp_tool_payload model = jobj [(''messages'', JArr
       [role_message ''user'' ''Use the get_weather tool to check the weather in Seoul, then tell me the result.'']),
     (''model'', jstr model),
     (''tools'', JArr [jobj [(''function'', jobj
          [(''description'', jstr ''Gets the current weather for a named city''), (''name'', jstr ''get_weather''),
           (''parameters'', jobj
              [(''properties'', jobj [(''city'', jobj [(''description'', jstr ''City name''), (''type'', jstr ''string'')])]),
               (''required'', JArr [jstr ''city'']), (''type'', jstr ''object'')])]),
        (''type'', jstr ''function'')]])]"

text \<open>A command on the saved account: the model defaults, and the account is restored before the executor runs.\<close>

definition probe_execute ::
  "run_env \<Rightarrow> time \<Rightarrow> probe_state \<Rightarrow> string \<Rightarrow> (string \<Rightarrow> json) \<Rightarrow> string \<Rightarrow> agent_client \<Rightarrow> entropy
    \<Rightarrow> string go_result \<times> agent_client \<times> entropy" where
  "probe_execute env now st0 defaultModel payload model0 c en =
     (case require_logged_in st0 of
        Err e \<Rightarrow> (Err e, c, en)
      | Panic e \<Rightarrow> (Panic e, c, en)
      | Ok st \<Rightarrow>
          let model = (if model0 = [] then defaultModel else model0) in
          execute env \<lparr>er_auth_id = pb_auth_id st, er_model = model, er_payload = json_print (payload model)\<rparr>
            (c\<lparr>ag_accounts := restore_account now st (ag_accounts c)\<rparr>) en)"

definition cmd_chat where
  "cmd_chat env now st message = probe_execute env now st ''auto'' (\<lambda>m. chat_payload m message)"

definition cmd_conv where
  "cmd_conv env now st = probe_execute env now st ''gpt-5-mini'' conv_payload"

definition cmd_tool where
  "cmd_tool env now st = probe_execute env now st ''gpt-5-mini'' tool_payload"

definition cmd_mcp_tool where
  "cmd_mcp_tool env now st = probe_execute env now st ''gpt-5-mini'' mcp_tool_payload"

definition cmd_models ::
  "(http_request \<Rightarrow> model_details option list go_result) \<Rightarrow> time \<Rightarrow> probe_state \<Rightarrow> agent_client \<Rightarrow> entropy \<Rightarrow> model_info list go_result \<times> entropy" where
  "cmd_models serve now st0 c en =
     (case require_logged_in st0 of
        Err e \<Rightarrow> (Err e, en)
      | Panic e \<Rightarrow> (Panic e, en)
      | Ok st \<Rightarrow> models_for_auth serve (pb_auth_id st) (c\<lparr>ag_accounts := restore_account now st (ag_accounts c)\<rparr>) en)"

subsection \<open>Reading a response\<close>

definition dec_probe_message :: "string \<times> chat_tool_call list \<Rightarrow> json \<Rightarrow> (string \<times> chat_tool_call list) go_result" where
  "dec_probe_message cur = dec_struct (\<lambda>ms.
     go_bind (dec_field ''content'' dec_string (fst cur) ms) (\<lambda>c.
     go_bind (dec_field ''tool_calls'' (dec_slice dec_tool_call) (snd cur) ms) (\<lambda>ts. Ok (c, ts)))) cur"

definition dec_probe_choice :: "json \<Rightarrow> ((string \<times> chat_tool_call list) \<times> string) go_result" where
  "dec_probe_choice = dec_struct (\<lambda>ms.
     go_bind (dec_field ''message'' dec_probe_message ([], []) ms) (\<lambda>m.
     go_bind (dec_field ''finish_reason'' dec_string [] ms) (\<lambda>f. Ok (m, f)))) (([], []), [])"

definition dec_probe_response :: "json \<Rightarrow> ((string \<times> chat_tool_call list) \<times> string) list go_result" where
  "dec_probe_response = dec_struct (dec_field ''choices'' (dec_slice dec_probe_choice) []) []"

datatype tool_report = Undecodable | NoToolCalls | ToolCalls "chat_tool_call list" string

definition report_tool_calls :: "string \<Rightarrow> tool_report" where
  "report_tool_calls payload =
     (case go_bind (json_unmarshal payload) dec_probe_response of
        Ok (((content, calls), finish) # choices) \<Rightarrow> if calls = [] then NoToolCalls else ToolCalls calls finish
      | _ \<Rightarrow> Undecodable)"

definition saw_custom_tool :: "chat_tool_call list \<Rightarrow> bool" where
  "saw_custom_tool calls = list_ex (\<lambda>t. tcf_name (tc_function t) = ''mcp_tool_call'') calls"

definition saw_native_tool :: "chat_tool_call list \<Rightarrow> bool" where
  "saw_native_tool calls = list_ex (\<lambda>t. tcf_name (tc_function t) \<noteq> ''mcp_tool_call'') calls"

subsection \<open>The login\<close>

lemma poll_login_granted:
  assumes "poll_login env serve i p = (resp, p')" and "lpr_status resp = LoginSuccess"
  obtains auth a where "lpr_auth resp = Some auth" and "ad_id auth \<noteq> []" and "pv_accounts p' (ad_id auth) = Some a"
    and "as_status a = status_active" and "as_access_token a \<noteq> []"
proof -
  obtain r poller where r: "poll serve (ae_now env) i (pv_poller p) = (r, poller)" by fastforce
  have "pr_status r = LoginSuccess" using assms r by (auto simp: poll_login_def Let_def split: if_splits)
  then have "pr_access_token r \<noteq> []" using poll_success [of serve "ae_now env" i "pv_poller p" r] r by auto
  then show thesis
    using assms r \<open>pr_status r = LoginSuccess\<close>
    by (intro that) (auto simp: poll_login_def Let_def provider_set_def account_set_def new_account_id_def status_active_def)
qed

lemma login_loop_result:
  assumes "login_loop deadline i rounds p = (Some out, p')"
  shows "case out of
      LoginSaved st \<Rightarrow> pb_auth_id st \<noteq> [] \<and> pb_access_token st \<noteq> []
        \<and> (\<exists>a. account_get (pv_accounts p') (pb_auth_id st) = (a, None) \<and> as_access_token a = pb_access_token st
              \<and> as_expires_at a = pb_expires_at st)
    | LoginFatal m \<Rightarrow> m = ''login timed out after 15 minutes'' \<or> (\<exists>e. m = ''login failed: '' @ e)"
  using assms
proof (induction deadline i rounds p rule: login_loop.induct)
  case (2 deadline i now env serve rounds p)
  obtain resp p1 where r: "poll_login env serve i p = (resp, p1)" by fastforce
  show ?case
  proof (cases "now < deadline")
    case False
    then show ?thesis using 2(2) by auto
  next
    case True
    show ?thesis
    proof (cases "lpr_status resp")
      case LoginPending
      then show ?thesis using 2(1) [OF True r [symmetric] _ LoginPending] 2(2) True r by simp
    next
      case LoginError
      then show ?thesis using 2(2) True r by auto
    next
      case LoginSuccess
      from poll_login_granted [OF r this] obtain auth a where
        a: "lpr_auth resp = Some auth" "ad_id auth \<noteq> []" "pv_accounts p1 (ad_id auth) = Some a" "as_status a = status_active"
          "as_access_token a \<noteq> []" by blast
      then show ?thesis
        using 2(2) True r LoginSuccess by (auto simp: account_peek_def account_get_def)
    qed
  qed
qed simp

lemma login_loop_ends: "\<exists>r \<in> set rounds. deadline \<le> fst r \<Longrightarrow> fst (login_loop deadline i rounds p) \<noteq> None"
proof (induction deadline i rounds p rule: login_loop.induct)
  case (2 deadline i now env serve rounds p)
  obtain resp p1 where r: "poll_login env serve i p = (resp, p1)" by fastforce
  show ?case
  proof (cases "now < deadline")
    case True
    then have "lpr_status resp = LoginPending \<Longrightarrow> fst (login_loop deadline i rounds p1) \<noteq> None"
      using 2(1) [OF True r [symmetric]] 2(2) by auto
    then show ?thesis using r True by (cases "lpr_status resp") (auto simp: Let_def split: option.split)
  qed simp
qed simp

text \<open>
  The probe's login ends: once the clock has passed its 15 minutes it has an outcome, which is a saved login, a login that failed or
  timed out, and never the \<open>real bug\<close> it checks for. A saved login is one the other commands accept, and the
  account they restore from it is active with the token and expiry the provider had recorded.
\<close>

theorem probe_login_outcome:
  assumes "provider_start_login env p en = (Ok resp, p1, en1)" and "cmd_login env now rounds p en = (out, p2, en2)"
  shows "((\<exists>r \<in> set rounds. now + 15 * 60 * second \<le> fst r) \<longrightarrow> out \<noteq> None)
    \<and> (case out of
         None \<Rightarrow> True
       | Some (LoginFatal m) \<Rightarrow> m = ''login timed out after 15 minutes'' \<or> (\<exists>e. m = ''login failed: '' @ e)
       | Some (LoginSaved st) \<Rightarrow> require_logged_in st = Ok st
           \<and> (\<exists>a. account_get (pv_accounts p2) (pb_auth_id st) = (a, None)
                 \<and> as_access_token a = pb_access_token st \<and> as_expires_at a = pb_expires_at st)
           \<and> (\<forall>now2 s. \<exists>b. account_get (restore_account now2 st s) (pb_auth_id st) = (b, None)
                 \<and> as_access_token b = pb_access_token st \<and> as_expires_at b = pb_expires_at st))"
proof -
  have l: "login_loop (now + 15 * 60 * second) (lsr_state resp) rounds p1 = (out, p2)"
    using assms by (auto simp: cmd_login_def split: prod.splits)
  have ends: "(\<exists>r \<in> set rounds. now + 15 * 60 * second \<le> fst r) \<longrightarrow> out \<noteq> None"
    using login_loop_ends [of rounds "now + 15 * 60 * second" "lsr_state resp" p1] l by simp
  have restored: "\<exists>b. account_get (restore_account now2 st s) (pb_auth_id st) = (b, None)
      \<and> as_access_token b = pb_access_token st \<and> as_expires_at b = pb_expires_at st" for now2 st s
    by (simp add: restore_account_def account_set_def account_get_def status_active_def zero_account_def)
  show ?thesis
  proof (cases out)
    case (Some o')
    then show ?thesis
      using login_loop_result [of _ _ _ _ o' p2] l ends restored by (cases o') (force simp: require_logged_in_def)+
  qed (use ends in simp)
qed

lemma probe_login_outcome_witness:
  "\<exists>out p2 en2. cmd_login example_auth_env 0 [(16 * 60 * second, example_auth_env, \<lambda>url. NoResponse ''x'')]
      (new_provider new_account_store) zero_entropy = (out, p2, en2) \<and> out \<noteq> None"
proof -
  obtain resp p1 en1 where s: "provider_start_login example_auth_env (new_provider new_account_store) zero_entropy = (Ok resp, p1, en1)"
    by (auto simp: provider_start_login_def start_login_def generate_auth_params_def generate_pkce_def rand_read_def zero_entropy_def Let_def
        split: prod.split)
  obtain out p2 en2 where c: "cmd_login example_auth_env 0 [(16 * 60 * second, example_auth_env, \<lambda>url. NoResponse ''x'')]
      (new_provider new_account_store) zero_entropy = (out, p2, en2)" by (metis prod_cases3)
  have "out \<noteq> None" using probe_login_outcome [OF s c] by (simp add: second_def)
  then show ?thesis using c by blast
qed

subsection \<open>The report\<close>

lemma dec_probe_message_json:
  assumes "message_utf8 m" shows "dec_probe_message ([], []) (message_json m) = Ok (cm_content m, cm_tool_calls m)"
  using assms
  by (cases m)
     (auto simp: dec_probe_message_def message_json_def message_utf8_def omit_empty_def decode_simps dec_tool_calls_json
       plain_char_def code_def)

lemma response_keys: "plain_key ''message''" "plain_key ''finish_reason''" "plain_key ''index''" "plain_key ''choices''" "plain_key ''id''"
  "plain_key ''object''" "plain_key ''model''" "plain_key ''usage''" "plain_key ''error''"
  by code_simp+

definition choice_utf8 :: "chat_choice \<Rightarrow> bool" where
  "choice_utf8 c = (message_utf8 (cc_message c) \<and> utf8_valid (cc_finish_reason c))"

definition read_choice :: "chat_choice \<Rightarrow> (string \<times> chat_tool_call list) \<times> string" where
  "read_choice c = ((cm_content (cc_message c), cm_tool_calls (cc_message c)), cc_finish_reason c)"

lemma dec_probe_choice_json: "choice_utf8 c \<Longrightarrow> dec_probe_choice (choice_json c) = Ok (read_choice c)"
  using dec_probe_message_json [of "cc_message c"] response_keys
  by (simp add: dec_probe_choice_def choice_json_def choice_utf8_def read_choice_def decode_simps)

lemma dec_probe_choices_json: "\<forall>c \<in> set cs. choice_utf8 c \<Longrightarrow> go_mapM dec_probe_choice (map choice_json cs) = Ok (map read_choice cs)"
  by (induction cs) (auto simp: dec_probe_choice_json)

lemma dec_probe_response_json:
  assumes "resp_choices r \<noteq> []" and "\<forall>c \<in> set (resp_choices r). choice_utf8 c"
  shows "dec_probe_response (response_json r) = Ok (map read_choice (resp_choices r))"
  using assms dec_probe_choices_json response_keys
  by (cases "resp_error r") (simp_all add: dec_probe_response_def response_json_def decode_simps)

lemma json_norm_choice: "json_norm (choice_json c) = choice_json c"
  by (simp add: choice_json_def)

lemma json_norm_response: "json_norm (response_json r) = response_json r"
  by (cases "resp_error r") (simp_all add: response_json_def json_norm_choice usage_json_def error_info_json_def comp_def)

lemma json_ok_response: "json_ok max_nesting (response_json r)"
proof -
  have "json_ok (Suc (Suc (Suc (Suc (Suc (Suc (Suc d))))))) (response_json r)" for d
    by (cases "resp_error r") (auto simp: response_json_def choice_json_def usage_json_def error_info_json_def json_ok_jobj)
  from this [of 9993] show ?thesis by (simp add: max_nesting_def)
qed

text \<open>
  A response that the executor writes reads back: the report has the tool calls of the first choice, with their ids, names and
  arguments, and the finish reason. But the probe takes the name \<open>mcp_tool_call\<close> for the sign of a call of a tool that
  the client declared, and the executor surfaces such a call under the client's own name: it is reported as a native one.
\<close>

theorem probe_report:
  assumes "resp_choices r = c # cs" and "\<forall>x \<in> set (resp_choices r). choice_utf8 x"
  shows "report_tool_calls (json_print (response_json r)) =
      (if cm_tool_calls (cc_message c) = [] then NoToolCalls else ToolCalls (cm_tool_calls (cc_message c)) (cc_finish_reason c))
    \<and> (\<forall>pl v en t en'. to_chat_tool_call pl (Some (Some (''mcp_tool_call'', v))) en = (Ok (Some t), en')
          \<and> msg_string (value_fields (sub_message v ''args'')) ''name'' \<noteq> ''mcp_tool_call'' \<longrightarrow>
        \<not> saw_custom_tool [t] \<and> saw_native_tool [t])"
proof
  have "go_bind (json_unmarshal (json_print (response_json r))) dec_probe_response = Ok (map read_choice (resp_choices r))"
    using dec_probe_response_json assms by (simp add: json_unmarshal_print json_norm_response json_ok_response)
  then show "report_tool_calls (json_print (response_json r)) =
      (if cm_tool_calls (cc_message c) = [] then NoToolCalls else ToolCalls (cm_tool_calls (cc_message c)) (cc_finish_reason c))"
    by (simp add: report_tool_calls_def assms(1) read_choice_def)
  show "\<forall>pl v en t en'. to_chat_tool_call pl (Some (Some (''mcp_tool_call'', v))) en = (Ok (Some t), en')
          \<and> msg_string (value_fields (sub_message v ''args'')) ''name'' \<noteq> ''mcp_tool_call'' \<longrightarrow>
        \<not> saw_custom_tool [t] \<and> saw_native_tool [t]"
    by (auto simp: to_chat_tool_call_def Let_def with_call_id_def go_simps saw_custom_tool_def saw_native_tool_def
        split: if_splits go_result.splits prod.splits)
qed

definition example_response :: chat_completions_response where
  "example_response = \<lparr>resp_id = ''r'', resp_object = ''chat.completion'', resp_model = ''m'',
     resp_choices = [\<lparr>cc_index = 0, cc_message = zero_message\<lparr>cm_role := ''assistant'', cm_content := ''hi''\<rparr>,
       cc_finish_reason = ''stop''\<rparr>],
     resp_usage = \<lparr>cu_prompt_tokens = 1, cu_completion_tokens = 1, cu_total_tokens = 2\<rparr>, resp_error = None\<rparr>"

lemma probe_report_witness: "report_tool_calls (json_print (response_json example_response)) = NoToolCalls"
proof -
  have "\<forall>s \<in> {''assistant'', ''hi'', ''stop''}. utf8_valid s" by (auto intro!: utf8_valid_ascii simp: code_def)
  then have "\<forall>x \<in> set (resp_choices example_response). choice_utf8 x"
    by (simp add: example_response_def choice_utf8_def message_utf8_def zero_message_def utf8_valid_ascii)
  then show ?thesis
    using probe_report [of example_response] by (simp add: example_response_def zero_message_def)
qed

subsection \<open>The requests\<close>

lemma payload_keys: "plain_key ''messages''" "plain_key ''content''" "plain_key ''role''" "plain_key ''model''"
  by code_simp+

lemma chat_payload_decodes:
  assumes "utf8_valid model" and "utf8_valid message"
  shows "go_bind (json_unmarshal (json_print (chat_payload model message))) dec_chat_request =
    Ok \<lparr>cr_model = model, cr_stream = False, cr_messages = [zero_message\<lparr>cm_role := ''user'', cm_content := message\<rparr>], cr_tools = []\<rparr>"
proof -
  have "utf8_valid ''user''" by (auto intro!: utf8_valid_ascii simp: code_def)
  then have m: "chat_message_unmarshal_json (role_message ''user'' message) = Ok (zero_message\<lparr>cm_role := ''user'', cm_content := message\<rparr>)"
    using assms(2) payload_keys
    by (simp add: chat_message_unmarshal_json_def role_message_def zero_message_def dec_raw_def decode_simps)
  have "json_ok (Suc (Suc (Suc d))) (chat_payload model message)" for d
    by (simp add: chat_payload_def role_message_def json_ok_jobj)
  from this [of 9997] have "json_ok max_nesting (chat_payload model message)" by (simp add: max_nesting_def)
  moreover have "json_norm (chat_payload model message) = chat_payload model message"
    by (simp add: chat_payload_def role_message_def)
  ultimately show ?thesis
    using assms m payload_keys by (simp add: json_unmarshal_print chat_payload_def dec_chat_request_def decode_simps)
qed

end
