(* ===== verification/Probe_Output.thy ===== *)
theory Probe_Output
  imports Probe
begin

section \<open>What the probe prints\<close>

text \<open>
  The commands of \<open>cmd/e2eprobe/main.go\<close> as a user sees them: standard output, standard error and the exit status. Quoting
  (\<open>%q\<close>), durations and times of day in the local zone are printed by functions of the environment; the saved state is
  given, as its file holds it.
\<close>

record terminal =
  tm_out :: string
  tm_err :: string
  tm_exit :: nat

definition newline :: string where
  "newline = [CHR 0x0A]"

definition finished :: "string \<Rightarrow> terminal" where
  "finished out = \<lparr>tm_out = out, tm_err = [], tm_exit = 0\<rparr>"

definition fatalf :: "string \<Rightarrow> string \<Rightarrow> terminal" where
  "fatalf out msg = \<lparr>tm_out = out, tm_err = ''error: '' @ msg @ newline, tm_exit = 1\<rparr>"

text \<open>A panic ends the process with status 2; the trace of its goroutines is left out.\<close>

definition crashed :: "string \<Rightarrow> string \<Rightarrow> terminal" where
  "crashed out msg = \<lparr>tm_out = out, tm_err = ''panic: '' @ msg @ newline, tm_exit = 2\<rparr>"

text \<open>The surroundings of a process.\<close>

record probe_world =
  pw_env :: run_env
  pw_now :: time
  pw_saved :: probe_state
  pw_entropy :: entropy
  pw_models :: "http_request \<Rightarrow> model_details option list go_result"
  pw_auth :: auth_env
  pw_rounds :: "(time \<times> auth_env \<times> (string \<Rightarrow> http_reply)) list"
  pw_elapsed :: string
  pw_quote :: "string \<Rightarrow> string"
  pw_show_time :: "time \<Rightarrow> string"

subsection \<open>Requests\<close>

text \<open>
  The four commands that run a request: what is printed before it is sent, when it fails, and after the response.
\<close>

definition request_command ::
  "probe_world \<Rightarrow> string \<Rightarrow> (string \<Rightarrow> json) \<Rightarrow> (string \<Rightarrow> string) \<Rightarrow> (string \<Rightarrow> string) \<Rightarrow> string \<Rightarrow> agent_client \<Rightarrow> terminal" where
  "request_command w defaultModel payload intro rest model0 c =
     (case require_logged_in (pw_saved w) of
        Err e \<Rightarrow> fatalf [] e
      | Panic e \<Rightarrow> crashed [] e
      | Ok st \<Rightarrow>
          let model = (if model0 = [] then defaultModel else model0);
              out = intro model
          in (case fst (probe_execute (pw_env w) (pw_now w) (pw_saved w) defaultModel payload model0 c (pw_entropy w)) of
                Err e \<Rightarrow> fatalf out (''Execute failed (real Cursor backend call): '' @ e)
              | Panic e \<Rightarrow> crashed out e
              | Ok resp \<Rightarrow> finished (out @ ''Response received in '' @ pw_elapsed w @ '':'' @ newline @ newline @ resp @ newline @ rest resp)))"

definition chat_command :: "probe_world \<Rightarrow> string \<Rightarrow> string \<Rightarrow> agent_client \<Rightarrow> terminal" where
  "chat_command w message = request_command w ''auto'' (\<lambda>m. chat_payload m message)
     (\<lambda>model. ''Sending to Cursor (model='' @ model @ ''): '' @ pw_quote w message @ newline @ newline) (\<lambda>resp. [])"

definition conv_command :: "probe_world \<Rightarrow> string \<Rightarrow> agent_client \<Rightarrow> terminal" where
  "conv_command w = request_command w ''gpt-5-mini'' conv_payload
     (\<lambda>model. ''Sending a 3-message conversation to Cursor (model='' @ model @ '') in ONE request:'' @ newline
        @ ''  1. user: '' @ [chr_quote] @ ''My favorite number is 7. Just acknowledge it in one short sentence.'' @ [chr_quote] @ newline
        @ ''  2. assistant: '' @ [chr_quote] @ ''Got it '' @ [CHR 0xE2, CHR 0x80, CHR 0x94] @ '' your favorite number is 7.'' @ [chr_quote] @ newline
        @ ''  3. user: '' @ [chr_quote] @ ''What is my favorite number plus 100?'' @ [chr_quote] @ newline @ newline)
     (\<lambda>resp. newline
        @ ''If the response correctly says 107 (or otherwise references 7 from turn 1), rootPromptMessagesJson genuinely reached Cursor'' @ [CHR 0x27] @ ''s model prompt construction within this single request.'' @ newline)"

text \<open>The calls of a response, numbered from 0.\<close>

fun print_calls :: "nat \<Rightarrow> chat_tool_call list \<Rightarrow> string" where
  "print_calls i [] = []"
| "print_calls i (tc # tcs) =
     ''  ['' @ nat_str i @ ''] id='' @ tc_id tc @ '' type='' @ tc_type tc @ newline
     @ ''      function.name: '' @ tcf_name (tc_function tc) @ newline
     @ ''      function.arguments: '' @ tcf_arguments (tc_function tc) @ newline
     @ print_calls (Suc i) tcs"

definition tool_report_text :: "tool_report \<Rightarrow> string" where
  "tool_report_text r =
     (case r of
        Undecodable \<Rightarrow> ''(could not decode response for tool_calls inspection)'' @ newline
      | NoToolCalls \<Rightarrow>
          ''No tool_calls in the response (Cursor answered in plain text this turn, or picked a different model behavior).'' @ newline
          @ ''If this repeats, try re-running - tool invocation is model-decided, not deterministic per call.'' @ newline
      | ToolCalls calls finish \<Rightarrow>
          ''SUCCESS: Cursor requested '' @ nat_str (length calls) @ '' native tool call(s), surfaced as chat-completions tool_calls (never executed in-plugin, per fact-r5-tool-roundtrip):'' @ newline @ newline
          @ print_calls 0 calls
          @ newline @ ''finish_reason: '' @ finish @ '' (expected '' @ [chr_quote] @ ''tool_calls'' @ [chr_quote] @ '')'' @ newline @ newline
          @ ''This proves Cursor'' @ [CHR 0x27] @ ''s real ExecServerMessage/InteractionUpdate.ToolCallCompleted path was translated into a standard chat-completions tool_calls entry against the live backend, not a mock.'' @ newline)"

definition tool_command :: "probe_world \<Rightarrow> string \<Rightarrow> agent_client \<Rightarrow> terminal" where
  "tool_command w = request_command w ''gpt-5-mini'' tool_payload
     (\<lambda>model. ''Sending to Cursor (model='' @ model @ ''): '' @ [chr_quote] @ ''List the files in the current working directory using your shell/ls tool, then tell me how many there are.'' @ [chr_quote] @ newline @ newline)
     (\<lambda>resp. newline @ tool_report_text (report_tool_calls resp))"

definition mcp_report_text :: "tool_report \<Rightarrow> string" where
  "mcp_report_text r =
     (case r of
        Undecodable \<Rightarrow> ''(could not decode response for tool_calls inspection)'' @ newline
      | NoToolCalls \<Rightarrow> ''No tool_calls in the response this turn (model-decided; try re-running).'' @ newline
      | ToolCalls calls finish \<Rightarrow>
          ''Cursor requested '' @ nat_str (length calls) @ '' tool call(s):'' @ newline @ newline
          @ print_calls 0 calls @ newline
          @ (if saw_custom_tool calls
             then ''SUCCESS: Cursor'' @ [CHR 0x27] @ ''s model called the client-declared custom MCP tool via the mcp_tool_call path, proving AgentRunRequest.McpTools reached the model.'' @ newline else [])
          @ (if saw_native_tool calls
             then ''NOTE: Cursor'' @ [CHR 0x27] @ ''s model also/instead called a native tool despite the native-tools-only system instruction - this is the always-declined fallback path (fact-r5-tool-roundtrip), not a hang or error, but check the instruction wording if this happens consistently.'' @ newline else []))"

definition mcp_tool_command :: "probe_world \<Rightarrow> string \<Rightarrow> agent_client \<Rightarrow> terminal" where
  "mcp_tool_command w = request_command w ''gpt-5-mini'' mcp_tool_payload
     (\<lambda>model. ''Sending to Cursor (model='' @ model @ '') with a declared custom tool '' @ [chr_quote] @ ''get_weather'' @ [chr_quote] @ '': '' @ [chr_quote] @ ''Use the get_weather tool to check the weather in Seoul, then tell me the result.'' @ [chr_quote] @ newline @ newline)
     (\<lambda>resp. newline @ mcp_report_text (report_tool_calls resp))"

subsection \<open>Models\<close>

text \<open>\<open>%-30s\<close> pads to thirty runes; a byte that continues a rune does not count.\<close>

definition rune_count :: "string \<Rightarrow> nat" where
  "rune_count s = length (filter (\<lambda>c. \<not> (128 \<le> code c \<and> code c < 192)) s)"

definition pad_right :: "nat \<Rightarrow> string \<Rightarrow> string" where
  "pad_right n s = s @ replicate (n - rune_count s) CHR '' ''"

definition models_command :: "probe_world \<Rightarrow> agent_client \<Rightarrow> terminal" where
  "models_command w c =
     (case require_logged_in (pw_saved w) of
        Err e \<Rightarrow> fatalf [] e
      | Panic e \<Rightarrow> crashed [] e
      | Ok st \<Rightarrow>
          (case fst (cmd_models (pw_models w) (pw_now w) (pw_saved w) c (pw_entropy w)) of
             Err e \<Rightarrow> fatalf [] (''ModelsForAuth failed (real Cursor backend call): '' @ e)
           | Panic e \<Rightarrow> crashed [] e
           | Ok ms \<Rightarrow> finished (''Cursor returned '' @ nat_str (length ms) @ '' usable models for this account:'' @ newline @ newline
               @ concat (map (\<lambda>m. ''  '' @ pad_right 30 (mi_id m) @ '' '' @ mi_display_name m @ newline) ms))))"

subsection \<open>Login\<close>

text \<open>The progress dots: one for each poll that finds the login pending.\<close>

fun login_dots :: "time \<Rightarrow> string \<Rightarrow> (time \<times> auth_env \<times> (string \<Rightarrow> http_reply)) list \<Rightarrow> provider \<Rightarrow> string" where
  "login_dots deadline attempt [] p = []"
| "login_dots deadline attempt ((now, env, serve) # rounds) p =
     (if now < deadline then
        (let (resp, p') = poll_login env serve attempt p in
         if lpr_status resp = LoginPending then ''.'' @ login_dots deadline attempt rounds p' else [])
      else [])"

text \<open>\<open>None\<close>: still waiting after the rounds. The saved state is part of the outcome.\<close>

definition login_command :: "probe_world \<Rightarrow> provider \<Rightarrow> (terminal \<times> probe_state option) option" where
  "login_command w p =
     (case provider_start_login (pw_auth w) p (pw_entropy w) of
        (Err e, _, _) \<Rightarrow> Some (fatalf [] (''StartLogin failed: '' @ e), None)
      | (Panic e, _, _) \<Rightarrow> Some (crashed [] e, None)
      | (Ok startResp, p', _) \<Rightarrow>
          let deadline = pw_now w + 15 * 60 * second;
              out = ''Open this URL in a browser and complete the Cursor login:'' @ newline @ newline @ lsr_url startResp @ newline @ newline
                @ ''Login expires at: '' @ pw_show_time w (lsr_expires_at startResp) @ newline @ newline
                @ ''Waiting for login completion (host-conformant: 5s interval, 15min ceiling)...'' @ newline
                @ login_dots deadline (lsr_state startResp) (pw_rounds w) p'
          in (case fst (login_loop deadline (lsr_state startResp) (pw_rounds w) p') of
                None \<Rightarrow> None
              | Some (LoginFatal m) \<Rightarrow> Some (fatalf out m, None)
              | Some (LoginSaved st) \<Rightarrow> Some (finished (out @ newline @ ''Login succeeded.'' @ newline
                  @ ''Account id: '' @ pb_auth_id st @ newline
                  @ ''Token expires: '' @ pw_show_time w (pb_expires_at st) @ newline @ newline
                  @ ''Now run: go run ./cmd/e2eprobe models'' @ newline
                  @ ''     or: go run ./cmd/e2eprobe chat '' @ [chr_quote] @ ''hello'' @ [chr_quote] @ newline), Some st)))"

subsection \<open>main\<close>

definition probe_main :: "probe_world \<Rightarrow> string list \<Rightarrow> terminal option" where
  "probe_main w args =
     (let accounts = new_account_store;
          agentClient = new_agent_client accounts [] []
      in case parse_args args of
           ProbeUsage msg \<Rightarrow> Some \<lparr>tm_out = [], tm_err = msg @ newline, tm_exit = 1\<rparr>
         | ProbeLogin \<Rightarrow> map_option fst (login_command w (new_provider accounts))
         | ProbeChat message model \<Rightarrow> Some (chat_command w message model agentClient)
         | ProbeConv model \<Rightarrow> Some (conv_command w model agentClient)
         | ProbeTool model \<Rightarrow> Some (tool_command w model agentClient)
         | ProbeMcpTool model \<Rightarrow> Some (mcp_tool_command w model agentClient)
         | ProbeModels \<Rightarrow> Some (models_command w agentClient))"

subsection \<open>The exit status\<close>

lemma request_command_status:
  "tm_exit (request_command w d payload intro rest model c) = 0 \<longleftrightarrow>
     is_ok (fst (probe_execute (pw_env w) (pw_now w) (pw_saved w) d payload model c (pw_entropy w)))"
  "tm_exit (request_command w d payload intro rest model c) = 0 \<longleftrightarrow> tm_err (request_command w d payload intro rest model c) = []"
  by (auto simp: request_command_def probe_execute_def finished_def fatalf_def crashed_def Let_def split: go_result.splits)

lemma models_command_status:
  "tm_exit (models_command w c) = 0 \<longleftrightarrow> is_ok (fst (cmd_models (pw_models w) (pw_now w) (pw_saved w) c (pw_entropy w)))"
  "tm_exit (models_command w c) = 0 \<longleftrightarrow> tm_err (models_command w c) = []"
  by (auto simp: models_command_def cmd_models_def finished_def fatalf_def crashed_def split: go_result.splits)

lemma login_command_status:
  assumes "login_command w p = Some (t, saved)"
  shows "(tm_exit t = 0 \<longleftrightarrow> saved \<noteq> None) \<and> (tm_exit t = 0 \<longleftrightarrow> tm_err t = [])"
  using assms by (auto simp: login_command_def finished_def fatalf_def crashed_def Let_def
      split: go_result.splits prod.splits option.splits login_outcome.splits)

text \<open>
  A script that runs the probe can trust its status: it is 0 exactly when nothing was written to standard error, and a
  run of the plugin that fails, or a login that is not saved, never ends with 0.
\<close>

theorem probe_status:
  assumes "probe_main w args = Some t"
  shows "(tm_exit t = 0 \<longleftrightarrow> tm_err t = [])
    \<and> (\<forall>model. parse_args args = ProbeTool model \<and> tm_exit t = 0 \<longrightarrow>
         is_ok (fst (cmd_tool (pw_env w) (pw_now w) (pw_saved w) model (new_agent_client new_account_store [] []) (pw_entropy w))))
    \<and> (parse_args args = ProbeLogin \<and> tm_exit t = 0 \<longrightarrow> (\<exists>st. login_command w (new_provider new_account_store) = Some (t, Some st)))"
proof (cases "parse_args args")
  case ProbeLogin
  then obtain saved where "login_command w (new_provider new_account_store) = Some (t, saved)"
    using assms by (auto simp: probe_main_def Let_def)
  from login_command_status [OF this] this show ?thesis using ProbeLogin by auto
next
  case (ProbeUsage msg)
  then show ?thesis using assms by (auto simp: probe_main_def newline_def)
qed (use assms request_command_status models_command_status in
      \<open>auto simp: probe_main_def chat_command_def conv_command_def tool_command_def mcp_tool_command_def cmd_tool_def Let_def\<close>)

end
