(* ===== verification/Spec2Isabelle.thy ===== *)
theory Spec2Isabelle
  imports History_Laws Exec_Message Writers Round_Trips Stream_Laws Account Client Executor_Laws Provider_Laws Reflect_Types Dispatch_Laws Plugin
    Turns Exchange_Life Service Probe_Output
begin

text \<open>
  The Cursor provider plugin of CLIProxyAPI: a Go library that a host loads through a C ABI, which logs in to Cursor accounts,
  discovers their models, and answers chat-completions requests by running Cursor's bidirectional \<open>agent.v1\<close> protocol. This
  is a model of its Go code (\<open>src/cmd/plugin\<close> and \<open>src/internal\<close>) with what makes it correct.

  \<^bold>\<open>The parts and how they interact.\<close> The host calls \<open>cliproxyPluginCall\<close> (\<open>cmd/plugin/main.go\<close>), which hands a method name and
  a JSON request to \<open>HandleMethod\<close> (\<open>internal/dispatch/dispatch.go\<close>). The dispatcher owns the state of the
  process: one account store (\<open>internal/account\<close>), written by the auth provider (\<open>internal/auth\<close>) and read by the executor
  and the discoverer; one agent client with the configured version (\<open>internal/executor/client.go\<close>); one cache of conversations
  (\<open>internal/executor/conversation.go\<close>), whose entries hold a blob store and a checkpoint. A run
  (\<open>internal/executor/executor.go\<close>) decodes the request, takes the account, acquires the conversation, translates the
  history into blobs and a run request (\<open>translate_request.go\<close>), exchanges frames with the server (\<open>stream.go\<close>: KV
  requests answered from the blob store, execution requests declined and captured by \<open>execmessage.go\<close>), and folds the updates
  into a response (\<open>translate_response.go\<close>); \<open>toolmap.go\<close> maps native tools and the client's tools onto each other.

  \<^bold>\<open>Go and its library.\<close> \<open>Prelude\<close>: byte strings, results (\<open>Ok\<close>, \<open>Err\<close>, \<open>Panic\<close>), \<open>crypto/rand\<close> as a stream
  of outcomes (\<open>entropy\<close>), the contracts \<open>keyed_store\<close> and \<open>removable_store\<close>, the collections \<open>go_simps\<close> and
  \<open>inv_intros\<close>. \<open>Go_Json\<close>, \<open>Go_Json_Laws\<close>: the JSON scanner, printer and literals of \<open>encoding/json\<close>, with the round
  trip \<open>json_unmarshal_print\<close>. \<open>Go_Decode\<close>: decoding into structs, with case folding of names, null and duplicate
  keys. \<open>Go_Bytes\<close>: byte slices in JSON. \<open>Go_Base64\<close>, \<open>Go_Sha256\<close>, \<open>Go_Time\<close> (RFC 3339 both ways).

  \<^bold>\<open>Components\<close> (the definitions keep the names of the functions, in lower case).
  \<open>Chat_Format\<close>: \<open>chatformat.go\<close>. \<open>Blob_Store\<close>: \<open>blobstore.go\<close>. \<open>Conversation\<close>: \<open>conversation.go\<close>; the blob stores that Go
  shares by pointer live in a heap of references. \<open>Tool_Map\<close>: \<open>toolmap.go\<close>. \<open>Messages\<close>: the protocol's messages the code
  builds or reads through generated types, and \<open>proto_lib\<close>. \<open>Schema\<close>, \<open>Reflect\<close>: the descriptors of
  \<open>agent.pb.go\<close> that the code walks by reflection, and \<open>Message.Set\<close> on dynamic messages. \<open>Result_Fields\<close>,
  \<open>Translate_Request\<close>: \<open>translate_request.go\<close>. \<open>Exec_Message\<close>: \<open>execmessage.go\<close>. \<open>Framing\<close>, \<open>Stream\<close>,
  \<open>Writers\<close>, \<open>Exchange_Life\<close>: \<open>stream.go\<close> (the frames; one exchange, its retries and the KV handshake; the bytes that three
  goroutines write to one pipe; their locks, channels, timers and deferred calls). \<open>Translate_Response\<close>:
  \<open>translate_response.go\<close>. \<open>Client\<close>: \<open>client.go\<close>. \<open>Executor\<close>: \<open>executor.go\<close>.
  \<open>Account\<close>: \<open>account.go\<close>. \<open>Token_Storage\<close>: \<open>storage.go\<close>, \<open>expiry.go\<close>. \<open>Login\<close>: \<open>login.go\<close>, \<open>pending.go\<close>,
  \<open>poll.go\<close>. \<open>Provider\<close>: \<open>refresh.go\<close>, \<open>provider.go\<close>. \<open>Discovery\<close>: \<open>discovery.go\<close>. \<open>Dispatch\<close>:
  \<open>dispatch.go\<close>, its package variables as \<open>plugin_state\<close>. \<open>Service\<close>: the generated clients and handlers,
  \<open>agent.connect.go\<close>. \<open>Plugin\<close>: \<open>cmd/plugin/main.go\<close>, with C's memory. \<open>Probe\<close>, \<open>Probe_Output\<close>:
  \<open>cmd/e2eprobe/main.go\<close>, its commands and what they print.

  \<^bold>\<open>What the lemmas show.\<close>
  Requests: the turns and prompts of a run request are in the conversation's store and served from it (\<open>History_Laws\<close>,
  \<open>Executor_Laws\<close>); the builders refine an abstract reading of the history into turns; messages built by reflection are
  well-typed (\<open>Reflect_Types\<close>), the text of a tool result is in the one place \<open>Result_Fields\<close> says; a client tool's call
  goes to Cursor and back as \<open>protojson\<close> renders it (\<open>Round_Trips\<close>).
  Streams: frames round-trip, chunking is irrelevant, nothing is cut off silently, a retry repeats nothing
  (\<open>Framing\<close>, \<open>Stream_Laws\<close>); in every interleaving of the writers the pipe gets whole frames, replies and heartbeats under
  the mutex of the \<open>kvWriter\<close> only (\<open>Writers\<close>), and no order of events keeps the call from returning once it may,
  within its deadlines (\<open>Exchange_Life\<close>).
  Responses: which completed calls surface, and as what (\<open>Translate_Response\<close>); text deltas, completed calls and captured requests
  in order, failures reported beside what had arrived, the response in two chunks (\<open>Executor_Laws\<close>).
  Conversations: the cache's invariant, least recently used eviction, the next turn sees what this one left; overlapping runs
  of any conversations leave each other's blobs alone (\<open>Shared_Runs\<close>), and a run of the model is a path of the interleaved
  steps (\<open>Run_Traces\<close>); a request that continues another is sent on its checkpoint (\<open>Turns\<close>).
  Accounts: the login automaton and its refinement, checks interleaved lock by lock, that attempts end (\<open>Login_Laws\<close>), refreshes that
  are recorded and files that bring an account back (\<open>Provider_Laws\<close>, \<open>Token_Storage\<close>).
  The whole: a call is answered by an envelope unless it panics, the components agree on the accounts, a run uses its own
  token only, chunks cross the boundary (\<open>Dispatch_Laws\<close>), every sequence of calls keeps the state well-formed (\<open>Plugin_Invariant\<close>), and a
  C call is a call of \<open>HandleMethod\<close> whose answer the host can free (\<open>Plugin\<close>). The probe's login ends, a response reads
  back (\<open>Probe\<close>), and its exit status tells failures (\<open>Probe_Output\<close>).

  \<^bold>\<open>Bounds and fuel.\<close> The JSON parser recurses on fuel, twice the length of its input plus a constant, and \<open>Go_Json_Laws\<close>
  shows that more changes nothing; nesting is limited to Go's 10000 levels. Other loops are structural or carry a measure. Frame
  lengths are 32-bit words and theorems on \<open>extractFrame\<close> ask for buffers below 4 GiB. Token expiries are rounded
  to the 53 bits of a \<open>float64\<close>; times print with four-digit years. Lengths at the C boundary are 64- and 32-bit words.

  \<^bold>\<open>Parameters.\<close> \<open>proto_lib\<close> (protobuf marshalling, \<open>protojson\<close>, \<open>structpb\<close>), the order in which Go visits a map, the
  network (what each request is answered, each read returns, each write does), timers and clocks, UUIDs, the goroutine that
  singleflight joins, an out-of-range \<open>float64\<close> to \<open>int64\<close> conversion, the host's SDK (\<open>host_sdk\<close>: method names, decoding of
  requests, encoding of responses), \<open>yaml.v3\<close>, and C's allocator. Hypotheses on them are named
  where they are used; \<open>Exchange_Life\<close> has the transport's answer to a cancelled context (it fails the call or the read and
  closes the request body) and the promptness of timers as steps.

  \<^bold>\<open>Simplifications.\<close> An exchange is sequential (\<open>Stream\<close>): the read loop with its answers; its goroutines are two step
  relations of their own, one with the bytes (\<open>Writers\<close>) and one with the places where they wait (\<open>Exchange_Life\<close>).
  Handlers run one after the other in \<open>run_calls\<close>; where the code lets them overlap and it matters (checks of one login, runs on
  the shared cache), the overlap is modelled (\<open>login_step\<close>, \<open>shared_step\<close>). Each operation of the accounts,
  the pending logins and the cache is atomic, as its mutex makes it; a check of a login is several of them, and
  \<open>login_step\<close> interleaves these one by one.

  \<^bold>\<open>Not modelled.\<close> The encoding of the state file of \<open>cmd/e2eprobe\<close>. The generated \<open>agent.pb.go\<close>, but for the
  descriptors in \<open>Schema\<close>. Go's HTTP/2 transport and TLS, the escaping
  of \<open>%q\<close> in error texts beyond the quotes, and the texts of errors that come from libraries.
\<close>

end
